(* ===== verification/Go_Prelude.thy ===== *)
theory Go_Prelude
  imports Main "HOL-Library.Sublist" "HOL-Library.List_Lexorder" "HOL-Library.Char_ord"
begin

text \<open>
  The prelude of the development: what the Go code uses of the language and of the standard
  packages \<^verbatim>\<open>strings\<close>, \<^verbatim>\<open>strconv\<close> and \<^verbatim>\<open>time\<close>, and the collections of rewrite rules the
  component theories share.

  A Go string is a sequence of bytes, here a \<open>string\<close> (a list of the 256 characters). A Go
  \<^verbatim>\<open>int\<close> or \<^verbatim>\<open>time.Duration\<close> is an \<open>int\<close>; a duration counts nanoseconds. A call either returns
  or panics (\<open>go\<close>), and a \<^verbatim>\<open>(T, error)\<close> result is a sum with the error on the left.
\<close>

named_theorems go_simps \<open>rewrite rules that evaluate the model of the language and its library\<close>
named_theorems go_defs \<open>definitions of the constants and small helpers of the code\<close>

section \<open>Returning and panicking\<close>

datatype 'a go = Ret 'a | Panic string

section \<open>Durations\<close>

type_synonym duration = int
type_synonym instant = int

definition Millisecond :: duration where
  "Millisecond = 1000000"

definition Second :: duration where
  "Second = 1000 * Millisecond"

definition Minute :: duration where
  "Minute = 60 * Second"

definition Hour :: duration where
  "Hour = 60 * Minute"

definition maxDuration :: duration where
  "maxDuration = 9223372036854775807"

lemmas duration_defs [go_defs] = Millisecond_def Second_def Minute_def Hour_def maxDuration_def

text \<open>Go divides towards zero.\<close>

definition go_div :: "int \<Rightarrow> int \<Rightarrow> int" where
  "go_div a b = sgn a * sgn b * (\<bar>a\<bar> div \<bar>b\<bar>)"

lemma go_div_nonneg [simp]: "0 \<le> a \<Longrightarrow> 0 < b \<Longrightarrow> go_div a b = a div b"
  by (cases "a = 0") (simp_all add: go_div_def)

section \<open>strings.HasPrefix, Join, Split and TrimSpace\<close>

definition HasPrefix :: "string \<Rightarrow> string \<Rightarrow> bool" where
  "HasPrefix s p = prefix p s"

fun Join :: "string list \<Rightarrow> string \<Rightarrow> string" where
  "Join [] sep = []"
| "Join [x] sep = x"
| "Join (x # y # ys) sep = x @ sep @ Join (y # ys) sep"

text \<open>\<^verbatim>\<open>strings.Split(s, sep)\<close> for a separator of one byte.\<close>

fun Split :: "string \<Rightarrow> char \<Rightarrow> string list" where
  "Split [] c = [[]]"
| "Split (x # xs) c =
     (if x = c then [] # Split xs c
      else (case Split xs c of [] \<Rightarrow> [[x]] | y # ys \<Rightarrow> (x # y) # ys))"

lemma Split_not_Nil [simp]: "Split s c \<noteq> []"
  by (cases s) (auto split: list.splits)

lemma Split_no_sep: "c \<notin> set s \<Longrightarrow> Split s c = [s]"
  by (induction s) auto

lemma Split_append_sep: "c \<notin> set s \<Longrightarrow> Split (s @ c # t) c = s # Split t c"
  by (induction s) auto

lemma Split_Join:
  "xs \<noteq> [] \<Longrightarrow> (\<And>x. x \<in> set xs \<Longrightarrow> c \<notin> set x) \<Longrightarrow> Split (Join xs [c]) c = xs"
  by (induction xs "[c]" rule: Join.induct) (auto simp: Split_no_sep Split_append_sep)

lemma Split_pieces: "x \<in> set (Split s c) \<Longrightarrow> c \<notin> set x"
  by (induction s c arbitrary: x rule: Split.induct) (auto split: if_splits list.splits)

lemma Join_Split: "Join (Split s c) [c] = s"
proof (induction s c rule: Split.induct)
  case (1 c)
  then show ?case by simp
next
  case (2 x xs c)
  then show ?case by (cases "Split xs c" rule: list.exhaust; cases "tl (Split xs c)") auto
qed

text \<open>
  \<^verbatim>\<open>unicode.IsSpace\<close>: the white space characters in their UTF-8 encodings, which no other
  encoded character has as a prefix or as a suffix.
\<close>

definition spaces :: "string list" where
  "spaces =
     map (\<lambda>c. [char_of c]) [9::nat, 10, 11, 12, 13, 32] @
     map (\<lambda>c. [char_of (194::nat), char_of c]) [133::nat, 160] @
     [map char_of [225::nat, 154, 128]] @
     map (\<lambda>c. [char_of (226::nat), char_of (128::nat), char_of c])
       [128::nat, 129, 130, 131, 132, 133, 134, 135, 136, 137, 138, 168, 169, 175] @
     [map char_of [226::nat, 129, 159], map char_of [227::nat, 128, 128]]"

lemma spaces_nonempty: "w \<in> set spaces \<Longrightarrow> w \<noteq> []"
  by (auto simp: spaces_def)

definition leading_space :: "string list \<Rightarrow> string \<Rightarrow> nat" where
  "leading_space ws s = (case find (\<lambda>w. prefix w s) ws of None \<Rightarrow> 0 | Some w \<Rightarrow> length w)"

lemma leading_space_bound: "0 < leading_space ws s \<Longrightarrow> 0 < length s"
  by (auto simp: leading_space_def find_Some_iff split: option.splits)

function trim_left :: "string list \<Rightarrow> string \<Rightarrow> string" where
  "trim_left ws s =
     (if 0 < leading_space ws s then trim_left ws (drop (leading_space ws s) s) else s)"
  by pat_completeness auto
termination
  by (relation "measure (\<lambda>(ws, s). length s)") (auto intro!: diff_less dest: leading_space_bound)

declare trim_left.simps [simp del]

definition TrimSpace :: "string \<Rightarrow> string" where
  "TrimSpace s = rev (trim_left (map rev spaces) (rev (trim_left spaces s)))"

lemma trim_left_suffix: "suffix (trim_left ws s) s"
proof (induction ws s rule: trim_left.induct)
  case (1 ws s)
  then show ?case
    by (cases "0 < leading_space ws s")
       (auto simp: trim_left.simps [of ws s] intro: suffix_order.trans suffix_drop)
qed

lemma set_trim_left: "set (trim_left ws s) \<subseteq> set s"
  using trim_left_suffix by (rule set_mono_suffix)

lemma set_TrimSpace: "set (TrimSpace s) \<subseteq> set s"
  using set_trim_left [of "map rev spaces" "rev (trim_left spaces s)"] set_trim_left [of spaces s]
  by (auto simp: TrimSpace_def)

lemma trim_left_done: "leading_space ws (trim_left ws s) = 0"
proof (induction ws s rule: trim_left.induct)
  case (1 ws s)
  then show ?case
    by (cases "0 < leading_space ws s") (simp_all add: trim_left.simps [of ws s])
qed

lemma trim_left_id: "leading_space ws s = 0 \<Longrightarrow> trim_left ws s = s"
  by (subst trim_left.simps) simp

section \<open>strconv.Itoa\<close>

definition digit_char :: "nat \<Rightarrow> char" where
  "digit_char d = char_of (48 + d)"

definition char_digit :: "char \<Rightarrow> nat" where
  "char_digit c = of_char c - 48"

lemma char_digit_char [simp]: "d < 10 \<Longrightarrow> char_digit (digit_char d) = d"
  by (simp add: char_digit_def digit_char_def)

fun nat_str :: "nat \<Rightarrow> string" where
  "nat_str n = (if n < 10 then [digit_char n] else nat_str (n div 10) @ [digit_char (n mod 10)])"

declare nat_str.simps [simp del]

definition str_nat :: "string \<Rightarrow> nat" where
  "str_nat s = foldl (\<lambda>a c. 10 * a + char_digit c) 0 s"

lemma str_nat_nat_str [simp]: "str_nat (nat_str n) = n"
proof (induction n rule: nat_str.induct)
  case (1 n)
  then show ?case
    by (cases "n < 10") (simp_all add: nat_str.simps [of n] str_nat_def)
qed

lemma nat_str_inject [simp]: "nat_str m = nat_str n \<longleftrightarrow> m = n"
  by (metis str_nat_nat_str)

lemma nat_str_not_Nil [simp]: "nat_str n \<noteq> []"
  by (subst nat_str.simps) simp

lemma digit_char_eq: "c < 10 \<Longrightarrow> digit_char c = x \<longleftrightarrow> 48 + c = of_char x"
  by (auto simp: digit_char_def)

lemma nat_str_digits: "c \<in> set (nat_str n) \<Longrightarrow> \<exists>d < 10. c = digit_char d"
proof (induction n rule: nat_str.induct)
  case (1 n)
  then show ?case
    by (cases "n < 10") (auto simp: nat_str.simps [of n] intro: exI [of _ "n mod 10"])
qed

definition Itoa :: "int \<Rightarrow> string" where
  "Itoa i = (if i < 0 then ''-'' @ nat_str (nat (- i)) else nat_str (nat i))"

lemma minus_not_digit: "d < 10 \<Longrightarrow> digit_char d \<noteq> CHR ''-''"
  by (simp add: digit_char_eq)

lemma nat_str_no_minus: "CHR ''-'' \<notin> set (nat_str n)"
  using nat_str_digits minus_not_digit by metis

lemma Itoa_inject [simp]: "Itoa i = Itoa j \<longleftrightarrow> i = j"
proof
  assume eq: "Itoa i = Itoa j"
  have neg: "CHR ''-'' \<in> set (Itoa k) \<longleftrightarrow> k < 0" for k
    by (simp add: Itoa_def nat_str_no_minus)
  from eq neg [of i] neg [of j] show "i = j"
    by (auto simp: Itoa_def split: if_splits)
qed simp

lemma Itoa_not_Nil [simp]: "Itoa i \<noteq> []"
  by (simp add: Itoa_def)

section \<open>Lists\<close>

text \<open>The values that are present, in order.\<close>

fun somes :: "'a option list \<Rightarrow> 'a list" where
  "somes [] = []"
| "somes (None # xs) = somes xs"
| "somes (Some x # xs) = x # somes xs"

lemma length_somes: "length (somes xs) \<le> length xs"
  by (induction xs rule: somes.induct) auto

lemma somes_append [simp]: "somes (xs @ ys) = somes xs @ somes ys"
  by (induction xs rule: somes.induct) auto

lemma set_somes: "x \<in> set (somes xs) \<longleftrightarrow> Some x \<in> set xs"
  by (induction xs rule: somes.induct) auto

lemma list_all2_in2:
  assumes "list_all2 P xs ys" and "y \<in> set ys"
  obtains x where "x \<in> set xs" "P x y"
  using assms by (induction rule: list_all2_induct) auto

end
