(* ===== verification/Go_Errors.thy ===== *)
theory Go_Errors
  imports Go_Prelude
begin

text \<open>
  Error values, with \<^verbatim>\<open>errors.Is\<close>, \<^verbatim>\<open>errors.As\<close> and \<^verbatim>\<open>Error()\<close>, and the context type that produces
  the two context errors. The fetcher's \<^verbatim>\<open>FetchError\<close> (pkg/fetcher/bundle.go) wraps another
  error and is itself an error, so it is declared here, in one mutual datatype with the other
  kinds of errors; its operations are in the fetcher's theories.
\<close>

section \<open>Error values\<close>

type_synonym FailureKind = string
type_synonym Step = string

record AttemptOutcome =
  Reason :: FailureKind
  Step :: Step

datatype ctx_error = DeadlineExceeded | Canceled

text \<open>
  The constructors: a context error; an error of another package whose \<^verbatim>\<open>Is\<close> method answers for a
  context error (the time-out errors of \<^verbatim>\<open>net\<close> and \<^verbatim>\<open>net/http\<close> do); a registry transport error with
  its message, HTTP status and diagnostic codes; a plain error; \<^verbatim>\<open>fmt.Errorf\<close> with \<^verbatim>\<open>%w\<close>, the text
  before the wrapped error first; an error that wraps several; a fetch error.
\<close>

datatype go_error =
    CtxError ctx_error
  | IsError string ctx_error
  | TransportError string int "string list"
  | ErrorString string
  | WrapError string go_error
  | JoinError string "go_error list"
  | FetchErr FetchError
and FetchError = FetchError
    (fe_Step: Step) (fe_Kind: FailureKind) (fe_Attempts: int) (fe_Trail: "AttemptOutcome list")
    (fe_StatusCode: int) (fe_Recoverable: bool) (fe_Err: "go_error option")

type_synonym 'a result = "go_error + 'a"

text \<open>\<^verbatim>\<open>errors.Is(err, target)\<close> for a context error: some error of the tree matches.\<close>

fun errors_Is :: "go_error \<Rightarrow> ctx_error \<Rightarrow> bool" where
  "errors_Is (CtxError c) t = (c = t)"
| "errors_Is (IsError m c) t = (c = t)"
| "errors_Is (TransportError m s ds) t = False"
| "errors_Is (ErrorString m) t = False"
| "errors_Is (WrapError m e) t = errors_Is e t"
| "errors_Is (JoinError m es) t = list_ex (\<lambda>e. errors_Is e t) es"
| "errors_Is (FetchErr (FetchError s k a tr c r None)) t = False"
| "errors_Is (FetchErr (FetchError s k a tr c r (Some e))) t = errors_Is e t"

text \<open>
  \<^verbatim>\<open>errors.As(err, &target)\<close>: the first error of the tree, in depth-first preorder, that has the
  target's type: a \<^verbatim>\<open>*transport.Error\<close> (its status and diagnostic codes) or a \<^verbatim>\<open>*FetchError\<close>.
\<close>

fun as_transport :: "go_error \<Rightarrow> (int \<times> string list) option"
  and as_transports :: "go_error list \<Rightarrow> (int \<times> string list) option" where
  "as_transport (CtxError c) = None"
| "as_transport (IsError m c) = None"
| "as_transport (TransportError m s ds) = Some (s, ds)"
| "as_transport (ErrorString m) = None"
| "as_transport (WrapError m e) = as_transport e"
| "as_transport (JoinError m es) = as_transports es"
| "as_transport (FetchErr (FetchError s k a tr c r None)) = None"
| "as_transport (FetchErr (FetchError s k a tr c r (Some e))) = as_transport e"
| "as_transports [] = None"
| "as_transports (e # es) = (case as_transport e of None \<Rightarrow> as_transports es | Some x \<Rightarrow> Some x)"

fun as_fetch :: "go_error \<Rightarrow> FetchError option"
  and as_fetches :: "go_error list \<Rightarrow> FetchError option" where
  "as_fetch (WrapError m e) = as_fetch e"
| "as_fetch (JoinError m es) = as_fetches es"
| "as_fetch (FetchErr fe) = Some fe"
| "as_fetch e = None"
| "as_fetches [] = None"
| "as_fetches (e # es) = (case as_fetch e of None \<Rightarrow> as_fetches es | Some x \<Rightarrow> Some x)"

text \<open>\<^verbatim>\<open>Error()\<close>. The texts of the two context errors are those of package \<^verbatim>\<open>context\<close>.\<close>

fun ctx_message :: "ctx_error \<Rightarrow> string" where
  "ctx_message DeadlineExceeded = ''context deadline exceeded''"
| "ctx_message Canceled = ''context canceled''"

fun Error :: "go_error \<Rightarrow> string" where
  "Error (CtxError c) = ctx_message c"
| "Error (IsError m c) = m"
| "Error (TransportError m s ds) = m"
| "Error (ErrorString m) = m"
| "Error (WrapError m e) = m @ Error e"
| "Error (JoinError m es) = m"
| "Error (FetchErr (FetchError s k a tr c r oe)) =
     ''error fetching bundle: step='' @ s @ '' reason='' @ k @ '' attempts='' @ Itoa a @
     '' status='' @ Itoa c @ '': '' @ (case oe of None \<Rightarrow> ''<nil>'' | Some e \<Rightarrow> Error e)"

text \<open>\<^verbatim>\<open>Unwrap\<close> of a fetch error is the error it wraps, so \<^verbatim>\<open>errors.Is\<close> looks through it.\<close>

definition Unwrap :: "FetchError \<Rightarrow> go_error option" where
  "Unwrap fe = fe_Err fe"

lemma errors_Is_FetchErr:
  "errors_Is (FetchErr fe) t = (case Unwrap fe of None \<Rightarrow> False | Some e \<Rightarrow> errors_Is e t)"
  by (cases fe; cases "fe_Err fe") (auto simp: Unwrap_def)

section \<open>Contexts\<close>

text \<open>
  A context as its future: the instant at which it is done and the error it then reports, if it
  is ever done. \<^verbatim>\<open>WithTimeout\<close> adds a deadline; a parent that is done first decides the error.
\<close>

record Context =
  done_at :: "(instant \<times> ctx_error) option"

definition Background :: Context where
  "Background = \<lparr>done_at = None\<rparr>"

definition ctx_Err :: "Context \<Rightarrow> instant \<Rightarrow> ctx_error option" where
  "ctx_Err c t = (case done_at c of None \<Rightarrow> None | Some (d, e) \<Rightarrow> if d \<le> t then Some e else None)"

definition WithTimeout :: "Context \<Rightarrow> duration \<Rightarrow> instant \<Rightarrow> Context" where
  "WithTimeout c timeout now =
     (case done_at c of
        Some (d, e) \<Rightarrow>
          if d \<le> now \<or> d \<le> now + timeout then c
          else c\<lparr>done_at := Some (now + timeout, DeadlineExceeded)\<rparr>
      | None \<Rightarrow> c\<lparr>done_at := Some (now + timeout, DeadlineExceeded)\<rparr>)"

lemma ctx_Err_None_iff:
  "ctx_Err c t = None \<longleftrightarrow> (\<forall>d e. done_at c = Some (d, e) \<longrightarrow> t < d)"
  by (auto simp: ctx_Err_def split: option.splits)

lemma ctx_Err_mono: "ctx_Err c t = Some e \<Longrightarrow> t \<le> t' \<Longrightarrow> ctx_Err c t' = Some e"
  by (auto simp: ctx_Err_def split: option.splits if_splits)

lemma ctx_Err_Background [simp]: "ctx_Err Background t = None"
  by (simp add: ctx_Err_def Background_def)

text \<open>A derived context is done by its own deadline, and no later than its parent.\<close>

lemma WithTimeout_done:
  obtains d e where "done_at (WithTimeout c timeout now) = Some (d, e)"
    and "d \<le> max now (now + timeout)"
    and "\<And>p pe. done_at c = Some (p, pe) \<Longrightarrow> d \<le> p"
proof (cases "done_at c")
  case None
  then show ?thesis by (auto simp: WithTimeout_def intro: that)
next
  case (Some pe)
  obtain p e where "pe = (p, e)" by (cases pe)
  with Some show ?thesis
    by (cases "p \<le> now \<or> p \<le> now + timeout") (auto simp: WithTimeout_def intro: that)
qed

end
