(* ===== verification/Fetch_Errors.thy ===== *)
theory Fetch_Errors
  imports Go_Errors
begin

text \<open>
  The failure taxonomy of the bundle fetcher (pkg/fetcher/bundle.go): the failure kinds and fetch
  steps, the classification of an error, the constructors of fetch errors, and the accessors the
  provider reads (\<^verbatim>\<open>Classify\<close>, \<^verbatim>\<open>FailureStatus\<close>, \<^verbatim>\<open>AttemptTrail\<close>).
\<close>

section \<open>Failure kinds and steps\<close>

definition KindTimeout :: FailureKind where "KindTimeout = ''timeout''"
definition KindCanceled :: FailureKind where "KindCanceled = ''canceled''"
definition KindUnauthorized :: FailureKind where "KindUnauthorized = ''unauthorized''"
definition KindForbidden :: FailureKind where "KindForbidden = ''forbidden''"
definition KindThrottled :: FailureKind where "KindThrottled = ''throttled''"
definition KindNotFound :: FailureKind where "KindNotFound = ''not_found''"
definition KindReferrersUnavailable :: FailureKind where
  "KindReferrersUnavailable = ''referrers_unavailable''"
definition KindDescriptorError :: FailureKind where "KindDescriptorError = ''descriptor_error''"
definition KindBlobError :: FailureKind where "KindBlobError = ''blob_error''"
definition KindBundleInvalid :: FailureKind where "KindBundleInvalid = ''bundle_invalid''"
definition KindUnknown :: FailureKind where "KindUnknown = ''unknown''"

definition StepDescriptor :: Step where "StepDescriptor = ''descriptor''"
definition StepReferrers :: Step where "StepReferrers = ''referrers''"
definition StepBlob :: Step where "StepBlob = ''blob''"
definition StepDecode :: Step where "StepDecode = ''decode''"

lemmas kind_defs [go_defs] =
  KindTimeout_def KindCanceled_def KindUnauthorized_def KindForbidden_def KindThrottled_def
  KindNotFound_def KindReferrersUnavailable_def KindDescriptorError_def KindBlobError_def
  KindBundleInvalid_def KindUnknown_def

lemmas step_defs [go_defs] = StepDescriptor_def StepReferrers_def StepBlob_def StepDecode_def

text \<open>The label values of the taxonomy: every kind, and every step or the empty one.\<close>

definition known_kinds :: "FailureKind list" where
  "known_kinds =
     [KindTimeout, KindCanceled, KindUnauthorized, KindForbidden, KindThrottled, KindNotFound,
      KindReferrersUnavailable, KindDescriptorError, KindBlobError, KindBundleInvalid, KindUnknown]"

definition known_steps :: "Step list" where
  "known_steps = ['''', StepDescriptor, StepReferrers, StepBlob, StepDecode]"

lemma distinct_known_kinds: "distinct known_kinds"
  by (simp add: known_kinds_def kind_defs)

lemma known_kinds_mem [simp]:
  "KindTimeout \<in> set known_kinds" "KindCanceled \<in> set known_kinds"
  "KindUnauthorized \<in> set known_kinds" "KindForbidden \<in> set known_kinds"
  "KindThrottled \<in> set known_kinds" "KindNotFound \<in> set known_kinds"
  "KindReferrersUnavailable \<in> set known_kinds" "KindDescriptorError \<in> set known_kinds"
  "KindBlobError \<in> set known_kinds" "KindBundleInvalid \<in> set known_kinds"
  "KindUnknown \<in> set known_kinds"
  by (simp_all add: known_kinds_def)

lemma known_steps_mem [simp]:
  "'''' \<in> set known_steps" "StepDescriptor \<in> set known_steps" "StepReferrers \<in> set known_steps"
  "StepBlob \<in> set known_steps" "StepDecode \<in> set known_steps"
  by (simp_all add: known_steps_def)

lemma kind_neq_unknown [simp]:
  "KindReferrersUnavailable \<noteq> KindUnknown" "KindDescriptorError \<noteq> KindUnknown"
  "KindBlobError \<noteq> KindUnknown" "KindBundleInvalid \<noteq> KindUnknown"
  by (simp_all add: kind_defs)

lemma kind_not_empty: "k \<in> set known_kinds \<Longrightarrow> k \<noteq> ''''"
  by (auto simp: known_kinds_def kind_defs)

section \<open>Classification\<close>

definition StatusUnauthorized :: int where "StatusUnauthorized = 401"
definition StatusForbidden :: int where "StatusForbidden = 403"
definition StatusNotFound :: int where "StatusNotFound = 404"
definition StatusTooManyRequests :: int where "StatusTooManyRequests = 429"

definition UnauthorizedErrorCode :: string where "UnauthorizedErrorCode = ''UNAUTHORIZED''"
definition DeniedErrorCode :: string where "DeniedErrorCode = ''DENIED''"
definition TooManyRequestsErrorCode :: string where
  "TooManyRequestsErrorCode = ''TOOMANYREQUESTS''"

lemmas status_defs [go_defs] =
  StatusUnauthorized_def StatusForbidden_def StatusNotFound_def StatusTooManyRequests_def
  UnauthorizedErrorCode_def DeniedErrorCode_def TooManyRequestsErrorCode_def

text \<open>The loop over the diagnostics of a transport error: the first known code decides.\<close>

fun classify_diagnostics :: "string list \<Rightarrow> FailureKind" where
  "classify_diagnostics [] = KindUnknown"
| "classify_diagnostics (code # codes) =
     (if code = UnauthorizedErrorCode then KindUnauthorized
      else if code = DeniedErrorCode then KindForbidden
      else if code = TooManyRequestsErrorCode then KindThrottled
      else classify_diagnostics codes)"

definition classifyTransport :: "go_error \<Rightarrow> FailureKind \<times> int" where
  "classifyTransport err =
     (if errors_Is err DeadlineExceeded then (KindTimeout, 0)
      else if errors_Is err Canceled then (KindCanceled, 0)
      else
        case as_transport err of
          Some (StatusCode, Errors) \<Rightarrow>
            if StatusCode = StatusUnauthorized then (KindUnauthorized, StatusCode)
            else if StatusCode = StatusForbidden then (KindForbidden, StatusCode)
            else if StatusCode = StatusNotFound then (KindNotFound, StatusCode)
            else if StatusCode = StatusTooManyRequests then (KindThrottled, StatusCode)
            else (classify_diagnostics Errors, StatusCode)
        | None \<Rightarrow> (KindUnknown, 0))"

text \<open>An attempt's outcome: a fetch error carries it, any other error is classified.\<close>

definition classifyAttempt :: "go_error \<Rightarrow> FailureKind \<times> Step" where
  "classifyAttempt err =
     (case as_fetch err of
        Some fe \<Rightarrow> (if fe_Kind fe = '''' then KindUnknown else fe_Kind fe, fe_Step fe)
      | None \<Rightarrow> (fst (classifyTransport err), ''''))"

definition kindFromContext :: "go_error \<Rightarrow> FailureKind" where
  "kindFromContext err =
     (if errors_Is err DeadlineExceeded then KindTimeout
      else if errors_Is err Canceled then KindCanceled
      else KindUnknown)"

text \<open>
  \<^verbatim>\<open>newFetchError\<close> reads the package variable \<^verbatim>\<open>RetryThrottled\<close>, its first argument here.
\<close>

definition newFetchError :: "bool \<Rightarrow> Step \<Rightarrow> FailureKind \<Rightarrow> go_error \<Rightarrow> FetchError" where
  "newFetchError RetryThrottled step fallback err =
     (let (kind0, code) = classifyTransport err;
          kind = (if kind0 = KindUnknown then fallback else kind0);
          recoverable =
            (kind \<noteq> KindUnauthorized \<and> kind \<noteq> KindForbidden \<and> kind \<noteq> KindBundleInvalid \<and>
             kind \<noteq> KindNotFound \<and> (RetryThrottled \<or> kind \<noteq> KindThrottled))
      in FetchError step kind 0 [] code recoverable (Some err))"

definition newDescriptorError :: "bool \<Rightarrow> go_error \<Rightarrow> FetchError" where
  "newDescriptorError rt err = newFetchError rt StepDescriptor KindDescriptorError err"

definition newReferrersError :: "bool \<Rightarrow> go_error \<Rightarrow> FetchError" where
  "newReferrersError rt err = newFetchError rt StepReferrers KindReferrersUnavailable err"

definition newBlobError :: "bool \<Rightarrow> go_error \<Rightarrow> FetchError" where
  "newBlobError rt err = newFetchError rt StepBlob KindBlobError err"

lemmas new_error_defs = newDescriptorError_def newReferrersError_def newBlobError_def

text \<open>
  The writes \<^verbatim>\<open>fe.Attempts = attempts; fe.Trail = outcomes\<close> on the fetch error found in an error.
\<close>

definition set_attempts :: "int \<Rightarrow> AttemptOutcome list \<Rightarrow> FetchError \<Rightarrow> FetchError" where
  "set_attempts attempts outcomes fe =
     FetchError (fe_Step fe) (fe_Kind fe) attempts outcomes (fe_StatusCode fe)
       (fe_Recoverable fe) (fe_Err fe)"

lemma set_attempts_sel [simp]:
  "fe_Step (set_attempts a os fe) = fe_Step fe"
  "fe_Kind (set_attempts a os fe) = fe_Kind fe"
  "fe_Attempts (set_attempts a os fe) = a"
  "fe_Trail (set_attempts a os fe) = os"
  "fe_StatusCode (set_attempts a os fe) = fe_StatusCode fe"
  "fe_Recoverable (set_attempts a os fe) = fe_Recoverable fe"
  "fe_Err (set_attempts a os fe) = fe_Err fe"
  by (simp_all add: set_attempts_def)

definition finalizeFetchError :: "go_error option \<Rightarrow> int \<Rightarrow> AttemptOutcome list \<Rightarrow> FetchError" where
  "finalizeFetchError lastErr attempts outcomes =
     (case lastErr of
        None \<Rightarrow>
          FetchError '''' KindUnknown 0 [] 0 False
            (Some (ErrorString ''no bundle fetch attempts were made''))
      | Some err \<Rightarrow>
          (case as_fetch err of
             Some fe \<Rightarrow> set_attempts attempts outcomes fe
           | None \<Rightarrow>
               (let (kind, code) = classifyTransport err
                in FetchError '''' kind attempts outcomes code True (Some err))))"

definition Classify :: "go_error \<Rightarrow> string \<times> string \<times> int" where
  "Classify err =
     (case as_fetch err of
        Some fe \<Rightarrow>
          (if fe_Kind fe = '''' then KindUnknown else fe_Kind fe, fe_Step fe, fe_Attempts fe)
      | None \<Rightarrow> (KindUnknown, '''', 0))"

definition FailureStatus :: "go_error \<Rightarrow> int" where
  "FailureStatus err = (case as_fetch err of Some fe \<Rightarrow> fe_StatusCode fe | None \<Rightarrow> 0)"

section \<open>The attempt trail\<close>

definition trail_token :: "AttemptOutcome \<Rightarrow> string" where
  "trail_token o1 =
     (let reason = (if Reason o1 = '''' then KindUnknown else Reason o1)
      in if Step o1 = '''' then reason else reason @ '':'' @ Step o1)"

definition formatAttemptTrail :: "AttemptOutcome list \<Rightarrow> string" where
  "formatAttemptTrail outcomes =
     (if outcomes = [] then '''' else Join (map trail_token outcomes) '','')"

definition AttemptTrail :: "go_error \<Rightarrow> string" where
  "AttemptTrail err = (case as_fetch err of None \<Rightarrow> '''' | Some fe \<Rightarrow> formatAttemptTrail (fe_Trail fe))"

section \<open>Properties of the classification\<close>

lemma classify_diagnostics_known: "classify_diagnostics codes \<in> set known_kinds"
  by (induction codes) (simp_all add: known_kinds_def)

lemma classifyTransport_known: "fst (classifyTransport err) \<in> set known_kinds"
  using classify_diagnostics_known
  by (simp add: classifyTransport_def known_kinds_def split: option.split prod.split)

lemma kindFromContext_CtxError:
  "kindFromContext (CtxError e) = (case e of DeadlineExceeded \<Rightarrow> KindTimeout | Canceled \<Rightarrow> KindCanceled)"
  by (simp add: kindFromContext_def split: ctx_error.split)

lemma kindFromContext_known: "kindFromContext err \<in> set known_kinds"
  by (simp add: kindFromContext_def known_kinds_def)

lemma newFetchError_sel [simp]:
  "fe_Step (newFetchError rt step fb err) = step"
  "fe_Attempts (newFetchError rt step fb err) = 0"
  "fe_Trail (newFetchError rt step fb err) = []"
  "fe_Err (newFetchError rt step fb err) = Some err"
  "fe_StatusCode (newFetchError rt step fb err) = snd (classifyTransport err)"
  by (simp_all add: newFetchError_def split: prod.split)

lemma newFetchError_Kind:
  "fe_Kind (newFetchError rt step fb err) =
     (if fst (classifyTransport err) = KindUnknown then fb else fst (classifyTransport err))"
  by (simp add: newFetchError_def split: prod.split)

lemma newFetchError_Recoverable:
  "fe_Recoverable (newFetchError rt step fb err) \<longleftrightarrow>
     fe_Kind (newFetchError rt step fb err)
       \<notin> {KindUnauthorized, KindForbidden, KindBundleInvalid, KindNotFound} \<and>
     (rt \<or> fe_Kind (newFetchError rt step fb err) \<noteq> KindThrottled)"
  by (auto simp: newFetchError_def split: prod.split)

text \<open>The errors of an attempt: fetch errors of the taxonomy.\<close>

definition taxonomy_error :: "go_error \<Rightarrow> bool" where
  "taxonomy_error err \<longleftrightarrow>
     (\<exists>fe. err = FetchErr fe \<and> fe_Kind fe \<in> set known_kinds \<and> fe_Kind fe \<noteq> KindUnknown \<and>
       fe_Step fe \<in> set known_steps)"

lemma taxonomy_newFetchError:
  assumes "step \<in> set known_steps" "fallback \<in> set known_kinds" "fallback \<noteq> KindUnknown"
  shows "taxonomy_error (FetchErr (newFetchError rt step fallback err))"
  using assms classifyTransport_known [of err]
  by (auto simp: taxonomy_error_def newFetchError_Kind)

section \<open>Reading an attempt trail\<close>

text \<open>The inverse of the format, for outcomes of the taxonomy: no kind or step has a comma or a colon.\<close>

definition parse_token :: "string \<Rightarrow> AttemptOutcome" where
  "parse_token t =
     (case Split t (CHR '':'') of
        [reason] \<Rightarrow> \<lparr>Reason = reason, Step = ''''\<rparr>
      | reason # step # _ \<Rightarrow> \<lparr>Reason = reason, Step = step\<rparr>
      | [] \<Rightarrow> \<lparr>Reason = '''', Step = ''''\<rparr>)"

definition parse_trail :: "string \<Rightarrow> AttemptOutcome list" where
  "parse_trail s = (if s = '''' then [] else map parse_token (Split s (CHR '','')))"

definition taxonomy_outcome :: "AttemptOutcome \<Rightarrow> bool" where
  "taxonomy_outcome o1 \<longleftrightarrow> Reason o1 \<in> set known_kinds \<and> Step o1 \<in> set known_steps"

lemma known_kinds_chars: "k \<in> set known_kinds \<Longrightarrow> CHR '','' \<notin> set k \<and> CHR '':'' \<notin> set k \<and> k \<noteq> ''''"
  by (auto simp: known_kinds_def kind_defs)

lemma known_steps_chars: "s \<in> set known_steps \<Longrightarrow> CHR '','' \<notin> set s \<and> CHR '':'' \<notin> set s"
  by (auto simp: known_steps_def step_defs)

lemma parse_trail_token:
  assumes "taxonomy_outcome o1"
  shows "parse_token (trail_token o1) = o1" and "CHR '','' \<notin> set (trail_token o1)" and "trail_token o1 \<noteq> ''''"
  using assms known_kinds_chars [of "Reason o1"] known_steps_chars [of "Step o1"]
  by (auto simp: taxonomy_outcome_def parse_token_def trail_token_def Let_def Split_no_sep Split_append_sep)

text \<open>
  C32. The attempt trail that the log carries can be read back: for outcomes of the taxonomy, the
  formatted trail determines the number of attempts and the reason and step of each, in order.
\<close>

theorem attempt_trail_roundtrip:
  assumes "list_all taxonomy_outcome outcomes"
  shows "parse_trail (formatAttemptTrail outcomes) = outcomes"
proof (cases "outcomes = []")
  case False
  let ?ts = "map trail_token outcomes"
  have toks: "\<And>o1. o1 \<in> set outcomes \<Longrightarrow> taxonomy_outcome o1" using assms by (simp add: list_all_iff)
  have split: "Split (Join ?ts '','') (CHR '','') = ?ts"
    using False toks parse_trail_token(2) by (intro Split_Join) auto
  moreover have "Join ?ts '','' \<noteq> ''''"
  proof
    assume "Join ?ts '','' = ''''"
    with split have "?ts = ['''']" by simp
    with toks parse_trail_token(3) show False by (metis Cons_eq_map_conv list.set_intros(1))
  qed
  ultimately show ?thesis
    using False toks parse_trail_token(1)
    by (auto simp: parse_trail_def formatAttemptTrail_def intro!: map_idI)
qed (simp add: parse_trail_def formatAttemptTrail_def)

theorem attempt_trail_roundtrip_witness:
  "formatAttemptTrail [\<lparr>Reason = KindTimeout, Step = StepBlob\<rparr>, \<lparr>Reason = KindCanceled, Step = ''''\<rparr>] =
     ''timeout:blob,canceled'' \<and>
   parse_trail ''timeout:blob,canceled'' = [\<lparr>Reason = KindTimeout, Step = StepBlob\<rparr>, \<lparr>Reason = KindCanceled, Step = ''''\<rparr>]"
proof -
  let ?os = "[\<lparr>Reason = KindTimeout, Step = StepBlob\<rparr>, \<lparr>Reason = KindCanceled, Step = ''''\<rparr>]"
  have fmt: "formatAttemptTrail ?os = ''timeout:blob,canceled''"
    by (simp add: formatAttemptTrail_def trail_token_def kind_defs step_defs)
  have "list_all taxonomy_outcome ?os" by (simp add: taxonomy_outcome_def)
  from attempt_trail_roundtrip [OF this] show ?thesis using fmt by simp
qed

end
