(* ===== verification/Prom_Metrics.thy ===== *)
theory Prom_Metrics
  imports Go_Prelude
begin

text \<open>
  The Prometheus metrics of pkg/metrics/prom.go. The collectors themselves are a third-party
  package; the record keeps, per metric, what the code has told it: a counter's value, a labelled
  counter's value per list of label values, and a histogram's observations, oldest last. An
  observation is kept as the duration that was measured (the code converts it to seconds).
\<close>

type_synonym labels = "string list"

record Metrics =
  AttestationsRetrieved :: nat
  AttestationsRetrieveFail :: "labels \<Rightarrow> nat"
  AttestationsMissing :: nat
  AttestationsVerOk :: nat
  AttestationsVerFail :: nat
  AttestationsPullTimer :: "labels \<Rightarrow> duration list"
  AttestationsVerTimer :: "duration list"
  AttestationsReqTimer :: "labels \<Rightarrow> duration list"
  KeychainBuildTimer :: "duration list"
  KeychainRefreshFail :: nat
  CABundleRefreshFail :: nat
  ConfigInfo :: "labels \<Rightarrow> nat option"

definition new_metrics :: Metrics where
  "new_metrics = \<lparr>
     AttestationsRetrieved = 0, AttestationsRetrieveFail = (\<lambda>_. 0), AttestationsMissing = 0,
     AttestationsVerOk = 0, AttestationsVerFail = 0, AttestationsPullTimer = (\<lambda>_. []),
     AttestationsVerTimer = [], AttestationsReqTimer = (\<lambda>_. []), KeychainBuildTimer = [],
     KeychainRefreshFail = 0, CABundleRefreshFail = 0, ConfigInfo = (\<lambda>_. None)\<rparr>"

text \<open>\<^verbatim>\<open>vec.WithLabelValues(ls).Inc()\<close> and \<^verbatim>\<open>vec.WithLabelValues(ls).Observe(d)\<close>.\<close>

definition inc_vec :: "labels \<Rightarrow> (labels \<Rightarrow> nat) \<Rightarrow> labels \<Rightarrow> nat" where
  "inc_vec ls m = m(ls := Suc (m ls))"

definition observe_vec :: "labels \<Rightarrow> duration \<Rightarrow> (labels \<Rightarrow> duration list) \<Rightarrow> labels \<Rightarrow> duration list" where
  "observe_vec ls d m = m(ls := d # m ls)"

section \<open>The collectors\<close>

text \<open>The bucket bounds of the histograms, in milliseconds.\<close>

definition fetchBuckets :: "int list" where
  "fetchBuckets =
     [50, 100, 250, 500, 1000, 1500, 2000, 2500, 3000, 4000, 6000, 8000, 10000, 15000, 30000, 60000]"

definition requestBuckets :: "int list" where
  "requestBuckets =
     [100, 250, 500, 1000, 2000, 3000, 4000, 5000, 6000, 8000, 9000, 10000, 12000, 20000, 30000, 60000]"

text \<open>
  The declarations of the collectors, in the order of the source: the name, what is counted, and the
  names of the labels. A histogram without buckets of its own has the default ones of the Prometheus
  client, the argument \<open>DefBuckets\<close>. The help texts are left out.
\<close>

datatype collector_kind = Counter | Gauge | Histogram "int list"

record collector =
  col_Name :: string
  col_Kind :: collector_kind
  col_Labels :: "string list"

definition retrieveFailLabels :: "string list" where
  "retrieveFailLabels = [''reason'', ''step'', ''status'']"

definition pullTimerLabels :: "string list" where
  "pullTimerLabels = [''outcome'', ''reason'', ''step'', ''attempts'']"

definition reqTimerLabels :: "string list" where
  "reqTimerLabels = [''images'', ''outcome'']"

definition configInfoLabels :: "string list" where
  "configInfoLabels = [''bundle_timeout'', ''bundle_max_attempts'', ''bundle_delay'', ''retry_throttled'']"

definition collectors :: "int list \<Rightarrow> collector list" where
  "collectors DefBuckets =
     [\<lparr>col_Name = ''aaop_attestations_retrieved_total'', col_Kind = Counter, col_Labels = []\<rparr>,
      \<lparr>col_Name = ''aaop_attestations_retrieved_fail'', col_Kind = Counter, col_Labels = retrieveFailLabels\<rparr>,
      \<lparr>col_Name = ''aaop_attestations_missing_total'', col_Kind = Counter, col_Labels = []\<rparr>,
      \<lparr>col_Name = ''aaop_attestations_verified_ok'', col_Kind = Counter, col_Labels = []\<rparr>,
      \<lparr>col_Name = ''aaop_attestations_verified_fail'', col_Kind = Counter, col_Labels = []\<rparr>,
      \<lparr>col_Name = ''aaop_attestations_retrieved_timer'', col_Kind = Histogram fetchBuckets, col_Labels = pullTimerLabels\<rparr>,
      \<lparr>col_Name = ''aaop_attestations_verification_timer'', col_Kind = Histogram DefBuckets, col_Labels = []\<rparr>,
      \<lparr>col_Name = ''aaop_attestations_request_timer'', col_Kind = Histogram requestBuckets, col_Labels = reqTimerLabels\<rparr>,
      \<lparr>col_Name = ''aaop_keychain_build_timer'', col_Kind = Histogram (DefBuckets @ [15000, 30000]), col_Labels = []\<rparr>,
      \<lparr>col_Name = ''aaop_keychain_refresh_fail'', col_Kind = Counter, col_Labels = []\<rparr>,
      \<lparr>col_Name = ''aaop_ca_bundle_refresh_fail'', col_Kind = Counter, col_Labels = []\<rparr>,
      \<lparr>col_Name = ''aaop_config_info'', col_Kind = Gauge, col_Labels = configInfoLabels\<rparr>]"

text \<open>
  What the client demands of a collector when it is registered, else it panics: a metric name and
  label names of letters, digits and underscores (the client allows a few more characters), no label
  twice or reserved, and for a histogram increasing buckets and no label \<^verbatim>\<open>le\<close>, which it needs itself.
\<close>

definition name_start :: "char \<Rightarrow> bool" where
  "name_start c \<longleftrightarrow> (let n = of_char c :: nat in n = 95 \<or> n \<in> {65..90} \<or> n \<in> {97..122})"

definition name_rest :: "char \<Rightarrow> bool" where
  "name_rest c \<longleftrightarrow> name_start c \<or> (of_char c :: nat) \<in> {48..57}"

definition valid_name :: "string \<Rightarrow> bool" where
  "valid_name s \<longleftrightarrow>
     (case s of [] \<Rightarrow> False | c # cs \<Rightarrow> name_start c \<and> list_all name_rest cs)"

definition valid_collector :: "collector \<Rightarrow> bool" where
  "valid_collector c \<longleftrightarrow>
     valid_name (col_Name c) \<and> list_all (\<lambda>l. valid_name l \<and> take 2 l \<noteq> ''__'') (col_Labels c) \<and>
     distinct (col_Labels c) \<and>
     (case col_Kind c of
        Histogram bs \<Rightarrow> sorted_wrt (<) bs \<and> ''le'' \<notin> set (col_Labels c)
      | _ \<Rightarrow> True)"

section \<open>The configuration gauge\<close>

text \<open>
  \<^verbatim>\<open>time.Duration.String\<close>: units below a second are written in one unit, larger durations in hours,
  minutes and seconds; trailing zeros of the fraction are dropped. The text for microseconds is
  the two-byte encoding of the micro sign followed by \<^verbatim>\<open>s\<close>.
\<close>

definition pad_zeros :: "nat \<Rightarrow> string \<Rightarrow> string" where
  "pad_zeros k s = replicate (k - length s) (CHR ''0'') @ s"

definition frac_str :: "nat \<Rightarrow> nat \<Rightarrow> string" where
  "frac_str v prec =
     (let digits = rev (dropWhile (\<lambda>c. c = CHR ''0'') (rev (pad_zeros prec (nat_str (v mod 10 ^ prec)))))
      in if v mod 10 ^ prec = 0 then '''' else ''.'' @ digits)"

definition in_unit :: "nat \<Rightarrow> nat \<Rightarrow> string \<Rightarrow> string" where
  "in_unit v prec u = nat_str (v div 10 ^ prec) @ frac_str v prec @ u"

definition micro_s :: string where
  "micro_s = [char_of (194::nat), char_of (181::nat), CHR ''s'']"

definition nat_duration_String :: "nat \<Rightarrow> string" where
  "nat_duration_String u =
     (if u = 0 then ''0s''
      else if u < 1000 then in_unit u 0 ''ns''
      else if u < 1000000 then in_unit u 3 micro_s
      else if u < 1000000000 then in_unit u 6 ''ms''
      else
        (let secs = u div 10 ^ 9; frac = frac_str u 9; mins = secs div 60
         in (if 0 < mins div 60 then nat_str (mins div 60) @ ''h'' else '''') @
            (if 0 < mins then nat_str (mins mod 60) @ ''m'' else '''') @
            nat_str (secs mod 60) @ frac @ ''s''))"

definition duration_String :: "duration \<Rightarrow> string" where
  "duration_String d =
     (if d < 0 then ''-'' @ nat_duration_String (nat (- d)) else nat_duration_String (nat d))"

definition FormatBool :: "bool \<Rightarrow> string" where
  "FormatBool b = (if b then ''true'' else ''false'')"

definition SetConfigInfo :: "duration \<Rightarrow> int \<Rightarrow> duration \<Rightarrow> bool \<Rightarrow> Metrics \<Rightarrow> Metrics" where
  "SetConfigInfo bundleTimeout maxAttempts delay retryThrottled m =
     m\<lparr>ConfigInfo := (ConfigInfo m)
         ([duration_String bundleTimeout, Itoa maxAttempts, duration_String delay,
           FormatBool retryThrottled] := Some 1)\<rparr>"

text \<open>The default buckets as the client documents them, in milliseconds.\<close>

definition documented_DefBuckets :: "int list" where
  "documented_DefBuckets = [5, 10, 25, 50, 100, 250, 500, 1000, 2500, 5000, 10000]"

lemma collectors_names: "distinct (map col_Name (collectors D))"
  by (simp add: collectors_def)

lemma label_names_valid:
  assumes "ls \<in> {[], retrieveFailLabels, pullTimerLabels, reqTimerLabels, configInfoLabels}"
  shows "list_all (\<lambda>l. valid_name l \<and> take 2 l \<noteq> ''__'') ls" "distinct ls" "''le'' \<notin> set ls"
  using assms
  by (auto simp: retrieveFailLabels_def pullTimerLabels_def reqTimerLabels_def configInfoLabels_def
      valid_name_def name_start_def name_rest_def)

lemma collectors_labels:
  "c \<in> set (collectors D) \<Longrightarrow> col_Labels c \<in> {[], retrieveFailLabels, pullTimerLabels, reqTimerLabels, configInfoLabels}"
  by (auto simp: collectors_def)

lemma collectors_valid_names: "c \<in> set (collectors D) \<Longrightarrow> valid_name (col_Name c)"
  by (auto simp: collectors_def valid_name_def name_start_def name_rest_def)

text \<open>
  C34. Every collector of the program can be registered: the names are distinct, the names and the labels
  are valid, and the buckets of every histogram increase, also those made by appending two bounds to
  the client's default buckets, provided these increase and stay below the appended ones.
\<close>

theorem collectors_register:
  assumes "sorted_wrt (<) DefBuckets" and "\<forall>b \<in> set DefBuckets. b < 15000"
  shows "distinct (map col_Name (collectors DefBuckets)) \<and> (\<forall>c \<in> set (collectors DefBuckets). valid_collector c)"
proof (intro conjI ballI)
  fix c
  assume c: "c \<in> set (collectors DefBuckets)"
  have "sorted_wrt (<) (DefBuckets @ [15000, 30000])"
    using assms by (fastforce simp: sorted_wrt_append)
  then have "sorted_wrt (<) bs" if "col_Kind c = Histogram bs" for bs
    using c that assms(1) by (auto simp: collectors_def fetchBuckets_def requestBuckets_def)
  with label_names_valid [OF collectors_labels [OF c]] collectors_valid_names [OF c] show "valid_collector c"
    by (auto simp: valid_collector_def split: collector_kind.splits)
qed (rule collectors_names)

theorem collectors_register_witness:
  "sorted_wrt (<) documented_DefBuckets \<and> distinct (map col_Name (collectors documented_DefBuckets)) \<and>
   list_all valid_collector (collectors documented_DefBuckets)"
proof -
  have "sorted_wrt (<) documented_DefBuckets" "\<forall>b \<in> set documented_DefBuckets. b < 15000"
    by (simp_all add: documented_DefBuckets_def)
  with collectors_register [OF this] show ?thesis by (simp add: list_all_iff)
qed

end
