(* ===== verification/Go_World.thy ===== *)
theory Go_World
  imports Go_Errors Prom_Metrics
begin

text \<open>
  The state that the code's effects change: a clock, the log lines written through \<^verbatim>\<open>slog\<close>, the
  metrics, and an opaque part that stands for everything outside the process (registries, the
  cluster, files). A call into code outside the repository is a function on the clock and the
  opaque part only, so that it cannot touch the process's own metrics or log.
\<close>

datatype level = LevelDebug | LevelInfo | LevelError

datatype logval =
    LStr string
  | LInt int
  | LBool bool
  | LDur duration
  | LErr "go_error option"
  | LStrs "string list option"

type_synonym attrs = "(string \<times> logval) list"

datatype logline = Log level string attrs

record 'x world =
  clock :: instant
  logs :: "logline list"
  metrics :: Metrics
  ext :: 'x

type_synonym ('x, 'r) outside = "instant \<Rightarrow> 'x \<Rightarrow> 'r \<times> instant \<times> 'x"

definition call :: "('x, 'r) outside \<Rightarrow> 'x world \<Rightarrow> 'r \<times> 'x world" where
  "call f w = (case f (clock w) (ext w) of (r, t, x) \<Rightarrow> (r, w\<lparr>clock := t, ext := x\<rparr>))"

definition slog :: "level \<Rightarrow> string \<Rightarrow> attrs \<Rightarrow> 'x world \<Rightarrow> 'x world" where
  "slog l m as w = w\<lparr>logs := logs w @ [Log l m as]\<rparr>"

definition meter :: "(Metrics \<Rightarrow> Metrics) \<Rightarrow> 'x world \<Rightarrow> 'x world" where
  "meter f w = w\<lparr>metrics := f (metrics w)\<rparr>"

lemma slog_sel [simp]:
  "clock (slog l m as w) = clock w"
  "metrics (slog l m as w) = metrics w"
  "ext (slog l m as w) = ext w"
  by (simp_all add: slog_def)

lemma meter_sel [simp]:
  "clock (meter f w) = clock w"
  "logs (meter f w) = logs w"
  "ext (meter f w) = ext w"
  "metrics (meter f w) = f (metrics w)"
  by (simp_all add: meter_def)

lemma call_frame:
  assumes "call f w = (r, w')"
  shows "metrics w' = metrics w" and "logs w' = logs w"
  using assms by (auto simp: call_def split: prod.splits)

text \<open>
  Two worlds that agree on the clock and on the outside give the same results for every call: the
  metrics and the log are write-only for the code.
\<close>

definition same_outside :: "'x world \<Rightarrow> 'x world \<Rightarrow> bool" where
  "same_outside w v \<longleftrightarrow> clock w = clock v \<and> ext w = ext v"

section \<open>Waiting for a timer\<close>

text \<open>
  The \<^verbatim>\<open>select\<close> between \<^verbatim>\<open>ctx.Done()\<close> and the channel of a timer, which the fetcher's retry loop and the
  CA bundle injector have: \<open>Some e\<close> when the context is done first (with its error), \<open>None\<close> when the
  timer fires. When the two instants coincide, Go picks either case, which the argument \<open>sched\<close>
  decides (True: the timer).
\<close>

type_synonym scheduler = "instant \<Rightarrow> bool"

definition wait_delay :: "scheduler \<Rightarrow> Context \<Rightarrow> duration \<Rightarrow> 'x world \<Rightarrow> ctx_error option \<times> 'x world" where
  "wait_delay sched ctx delay w =
     (let fires = clock w + delay
      in case done_at ctx of
           None \<Rightarrow> (None, w\<lparr>clock := fires\<rparr>)
         | Some (d, e) \<Rightarrow>
             if d < fires \<or> (d = fires \<and> \<not> sched fires)
             then (Some e, w\<lparr>clock := max (clock w) d\<rparr>)
             else (None, w\<lparr>clock := fires\<rparr>))"

lemma wait_delay_frame:
  assumes "wait_delay sched ctx delay w = (r, w')"
  shows "metrics w' = metrics w" and "logs w' = logs w" and "ext w' = ext w"
    and "r = None \<Longrightarrow> clock w' = clock w + delay"
    and "r = Some e \<Longrightarrow> ctx_Err ctx (clock w') = Some e"
  using assms by (auto simp: wait_delay_def ctx_Err_def Let_def split: option.splits if_splits)

text \<open>A world in which nothing has happened yet, for closed examples.\<close>

definition start_world :: "'x \<Rightarrow> 'x world" where
  "start_world x = \<lparr>clock = 0, logs = [], metrics = new_metrics, ext = x\<rparr>"

lemma start_world_sel [simp]:
  "clock (start_world x) = 0" "logs (start_world x) = []"
  "metrics (start_world x) = new_metrics" "ext (start_world x) = x"
  by (simp_all add: start_world_def)

end
