(* ===== verification/Retry.thy ===== *)
theory Retry
  imports Fetch_Errors Go_World
begin

text \<open>
  The retry loop of the bundle fetcher: \<^verbatim>\<open>retryBundle\<close> of pkg/fetcher/bundle.go. Each iteration
  optionally waits, runs one attempt under a context with the per-attempt time-out, and either
  returns or goes on. The \<^verbatim>\<open>select\<close> of the wait is \<open>wait_delay\<close>.
\<close>

section \<open>Results of a fetch\<close>

record Hash =
  Algorithm :: string
  Hex :: string

record 'b BundleResult =
  Bundles :: "'b list"
  Hash :: "Hash option"
  Attempts :: int
  Trail :: "AttemptOutcome list"

definition BundleResult_AttemptTrail :: "'b BundleResult \<Rightarrow> string" where
  "BundleResult_AttemptTrail r = formatAttemptTrail (Trail r)"

text \<open>\<^verbatim>\<open>BundleResult{Attempts: attempts}\<close>: the other fields have their zero values.\<close>

definition failed_result :: "int \<Rightarrow> 'b BundleResult" where
  "failed_result attempts = \<lparr>Bundles = [], Hash = None, Attempts = attempts, Trail = []\<rparr>"

type_synonym ('x, 'b) bundleAttempt =
  "Context \<Rightarrow> 'x world \<Rightarrow> ('b list \<times> Hash option) result go \<times> 'x world"

section \<open>The loop\<close>

definition iteration_wait ::
  "scheduler \<Rightarrow> Context \<Rightarrow> duration \<Rightarrow> int \<Rightarrow> 'x world \<Rightarrow> ctx_error option \<times> 'x world" where
  "iteration_wait sched ctx delay i w =
     (if 0 < i \<and> 0 < delay then wait_delay sched ctx delay w else (None, w))"

text \<open>
  The error built when the parent context is done; the step is that of the attempt in flight.
\<close>

definition context_error :: "Step \<Rightarrow> ctx_error \<Rightarrow> int \<Rightarrow> AttemptOutcome list \<Rightarrow> FetchError" where
  "context_error step cerr attempts outcomes =
     FetchError step (kindFromContext (CtxError cerr)) attempts outcomes 0 False (Some (CtxError cerr))"

text \<open>
  What the body of the loop does with an attempt's error: return this fetch error, or try again.
  The first argument is the parent context's error after the attempt, if it is done.
\<close>

definition after_failure ::
  "ctx_error option \<Rightarrow> go_error \<Rightarrow> int \<Rightarrow> AttemptOutcome list \<Rightarrow> FetchError option" where
  "after_failure cerr err attempts outcomes =
     (case as_fetch err of
        Some fe \<Rightarrow>
          if \<not> fe_Recoverable fe then Some (set_attempts attempts outcomes fe)
          else map_option (\<lambda>c. context_error (fe_Step fe) c attempts outcomes) cerr
      | None \<Rightarrow> map_option (\<lambda>c. context_error '''' c attempts outcomes) cerr)"

definition attempt_outcome :: "go_error \<Rightarrow> AttemptOutcome" where
  "attempt_outcome err = \<lparr>Reason = fst (classifyAttempt err), Step = snd (classifyAttempt err)\<rparr>"

definition log_attempt :: "int \<Rightarrow> int \<Rightarrow> go_error \<Rightarrow> 'x world \<Rightarrow> 'x world" where
  "log_attempt attempts maxAttempts err w =
     slog LevelDebug ''bundle fetch attempt failed''
       [(''attempt'', LInt attempts), (''max_attempts'', LInt maxAttempts),
        (''reason'', LStr (fst (classifyAttempt err))), (''step'', LStr (snd (classifyAttempt err))),
        (''error'', LErr (Some err))] w"

function retry_loop ::
  "scheduler \<Rightarrow> Context \<Rightarrow> int \<Rightarrow> duration \<Rightarrow> duration \<Rightarrow> ('x, 'b) bundleAttempt \<Rightarrow>
   int \<Rightarrow> int \<Rightarrow> AttemptOutcome list \<Rightarrow> go_error option \<Rightarrow> 'x world \<Rightarrow>
   ('b BundleResult \<times> FetchError option) go \<times> 'x world" where
  "retry_loop sched ctx maxAttempts timeout delay attempt i attempts outcomes lastErr w =
     (if i < maxAttempts then
        (case iteration_wait sched ctx delay i w of
           (Some cerr, w1) \<Rightarrow>
             (Ret (failed_result attempts, Some (context_error '''' cerr attempts outcomes)), w1)
         | (None, w1) \<Rightarrow>
             (case attempt (WithTimeout ctx timeout (clock w1)) w1 of
                (Panic m, w2) \<Rightarrow> (Panic m, w2)
              | (Ret (Inr (b, h)), w2) \<Rightarrow>
                  (Ret (\<lparr>Bundles = b, Hash = h, Attempts = i + 1, Trail = outcomes\<rparr>, None), w2)
              | (Ret (Inl err), w2) \<Rightarrow>
                  (case after_failure (ctx_Err ctx (clock w2)) err (i + 1) (outcomes @ [attempt_outcome err]) of
                     Some fe \<Rightarrow> (Ret (failed_result (i + 1), Some fe), w2)
                   | None \<Rightarrow>
                       retry_loop sched ctx maxAttempts timeout delay attempt (i + 1) (i + 1)
                         (outcomes @ [attempt_outcome err]) (Some err)
                         (log_attempt (i + 1) maxAttempts err w2))))
      else (Ret (failed_result attempts, Some (finalizeFetchError lastErr attempts outcomes)), w))"
  by pat_completeness auto
termination
  by (relation "measure (\<lambda>(sched, ctx, m, timeout, delay, attempt, i, rest). nat (m - i))") auto

declare retry_loop.simps [simp del]

definition retryBundle ::
  "scheduler \<Rightarrow> Context \<Rightarrow> int \<Rightarrow> duration \<Rightarrow> duration \<Rightarrow> ('x, 'b) bundleAttempt \<Rightarrow> 'x world \<Rightarrow>
   ('b BundleResult \<times> FetchError option) go \<times> 'x world" where
  "retryBundle sched ctx maxAttempts timeout delay attempt w =
     retry_loop sched ctx maxAttempts timeout delay attempt 0 0 [] None w"

section \<open>A rule for the loop\<close>

text \<open>
  The correctness rule of the loop (which always returns): an invariant \<open>I\<close> of the loop's variables,
  and a property \<open>Q\<close> of what each way out of the loop returns.
\<close>

text \<open>One unfolding of the loop per way its body can end.\<close>

lemma retry_loop_exhausted:
  "\<not> i < m \<Longrightarrow> retry_loop sched ctx m timeout delay attempt i a os le w =
     (Ret (failed_result a, Some (finalizeFetchError le a os)), w)"
  by (simp add: retry_loop.simps)

lemma retry_loop_wait:
  "i < m \<Longrightarrow> iteration_wait sched ctx delay i w = (Some c, w1) \<Longrightarrow>
   retry_loop sched ctx m timeout delay attempt i a os le w =
     (Ret (failed_result a, Some (context_error '''' c a os)), w1)"
  by (simp add: retry_loop.simps)

lemma retry_loop_panic:
  "i < m \<Longrightarrow> iteration_wait sched ctx delay i w = (None, w1) \<Longrightarrow>
   attempt (WithTimeout ctx timeout (clock w1)) w1 = (Panic p, w2) \<Longrightarrow>
   retry_loop sched ctx m timeout delay attempt i a os le w = (Panic p, w2)"
  by (simp add: retry_loop.simps)

lemma retry_loop_success:
  "i < m \<Longrightarrow> iteration_wait sched ctx delay i w = (None, w1) \<Longrightarrow>
   attempt (WithTimeout ctx timeout (clock w1)) w1 = (Ret (Inr (b, h)), w2) \<Longrightarrow>
   retry_loop sched ctx m timeout delay attempt i a os le w =
     (Ret (\<lparr>Bundles = b, Hash = h, Attempts = i + 1, Trail = os\<rparr>, None), w2)"
  by (simp add: retry_loop.simps)

lemma retry_loop_failure:
  "i < m \<Longrightarrow> iteration_wait sched ctx delay i w = (None, w1) \<Longrightarrow>
   attempt (WithTimeout ctx timeout (clock w1)) w1 = (Ret (Inl err), w2) \<Longrightarrow>
   retry_loop sched ctx m timeout delay attempt i a os le w =
     (case after_failure (ctx_Err ctx (clock w2)) err (i + 1) (os @ [attempt_outcome err]) of
        Some fe \<Rightarrow> (Ret (failed_result (i + 1), Some fe), w2)
      | None \<Rightarrow>
          retry_loop sched ctx m timeout delay attempt (i + 1) (i + 1) (os @ [attempt_outcome err])
            (Some err) (log_attempt (i + 1) m err w2))"
  by (subst retry_loop.simps) simp

lemmas retry_loop_steps =
  retry_loop_exhausted retry_loop_wait retry_loop_panic retry_loop_success retry_loop_failure

text \<open>The ways an iteration can go.\<close>

lemma iteration_cases:
  fixes attempt :: "('x, 'b) bundleAttempt"
  obtains (wait) c w1 where "iteration_wait sched ctx delay i w = (Some c, w1)"
  | (panic) w1 p w2 where "iteration_wait sched ctx delay i w = (None, w1)"
      and "attempt (WithTimeout ctx timeout (clock w1)) w1 = (Panic p, w2)"
  | (success) w1 b h w2 where "iteration_wait sched ctx delay i w = (None, w1)"
      and "attempt (WithTimeout ctx timeout (clock w1)) w1 = (Ret (Inr (b, h)), w2)"
  | (failure) w1 err w2 where "iteration_wait sched ctx delay i w = (None, w1)"
      and "attempt (WithTimeout ctx timeout (clock w1)) w1 = (Ret (Inl err), w2)"
proof -
  obtain c w1 where c: "iteration_wait sched ctx delay i w = (c, w1)" by force
  obtain x w2 where x: "attempt (WithTimeout ctx timeout (clock w1)) w1 = (x, w2)" by force
  show thesis
  proof (cases c)
    case None
    with c x that(2-4) show ?thesis by (metis go.exhaust sum.exhaust surj_pair)
  qed (use c that(1) in blast)
qed

lemma retryBundle_rule:
  fixes attempt :: "('x, 'b) bundleAttempt"
  assumes run: "retryBundle sched ctx m timeout delay attempt w = (r, w')"
    and init: "I 0 0 [] None w"
    and wait: "\<And>i a os le w c w1. I i a os le w \<Longrightarrow> i < m \<Longrightarrow>
      iteration_wait sched ctx delay i w = (Some c, w1) \<Longrightarrow>
      Q (Ret (failed_result a, Some (context_error '''' c a os))) w1"
    and panic: "\<And>i a os le w w1 p w2. I i a os le w \<Longrightarrow> i < m \<Longrightarrow>
      iteration_wait sched ctx delay i w = (None, w1) \<Longrightarrow>
      attempt (WithTimeout ctx timeout (clock w1)) w1 = (Panic p, w2) \<Longrightarrow> Q (Panic p) w2"
    and success: "\<And>i a os le w w1 b h w2. I i a os le w \<Longrightarrow> i < m \<Longrightarrow>
      iteration_wait sched ctx delay i w = (None, w1) \<Longrightarrow>
      attempt (WithTimeout ctx timeout (clock w1)) w1 = (Ret (Inr (b, h)), w2) \<Longrightarrow>
      Q (Ret (\<lparr>Bundles = b, Hash = h, Attempts = i + 1, Trail = os\<rparr>, None)) w2"
    and stop: "\<And>i a os le w w1 err w2 fe. I i a os le w \<Longrightarrow> i < m \<Longrightarrow>
      iteration_wait sched ctx delay i w = (None, w1) \<Longrightarrow>
      attempt (WithTimeout ctx timeout (clock w1)) w1 = (Ret (Inl err), w2) \<Longrightarrow>
      after_failure (ctx_Err ctx (clock w2)) err (i + 1) (os @ [attempt_outcome err]) = Some fe \<Longrightarrow>
      Q (Ret (failed_result (i + 1), Some fe)) w2"
    and again: "\<And>i a os le w w1 err w2. I i a os le w \<Longrightarrow> i < m \<Longrightarrow>
      iteration_wait sched ctx delay i w = (None, w1) \<Longrightarrow>
      attempt (WithTimeout ctx timeout (clock w1)) w1 = (Ret (Inl err), w2) \<Longrightarrow>
      after_failure (ctx_Err ctx (clock w2)) err (i + 1) (os @ [attempt_outcome err]) = None \<Longrightarrow>
      I (i + 1) (i + 1) (os @ [attempt_outcome err]) (Some err) (log_attempt (i + 1) m err w2)"
    and exhausted: "\<And>i a os le w. I i a os le w \<Longrightarrow> \<not> i < m \<Longrightarrow>
      Q (Ret (failed_result a, Some (finalizeFetchError le a os))) w"
  shows "Q r w'"
proof -
  have "I i a os le w \<Longrightarrow>
    retry_loop sched ctx m timeout delay attempt i a os le w = (r, w') \<Longrightarrow> Q r w'" for i a os le w
  proof (induction "nat (m - i)" arbitrary: i a os le w rule: less_induct)
    case less
    note I = less.prems(1) and loop = less.prems(2)
    show ?case
    proof (cases "i < m")
      case False
      with loop exhausted [OF I False] show ?thesis by (auto simp: retry_loop_steps)
    next
      case True
      show ?thesis
      proof (cases rule: iteration_cases [where sched = sched and ctx = ctx and delay = delay and i = i
          and w = w and attempt = attempt and timeout = timeout])
        case wait
        with loop assms(3) [OF I True] True show ?thesis by (auto simp: retry_loop_steps)
      next
        case panic
        with loop assms(4) [OF I True] True show ?thesis by (auto simp: retry_loop_steps)
      next
        case success
        with loop assms(5) [OF I True] True show ?thesis by (auto simp: retry_loop_steps)
      next
        case (failure w1 err w2)
        from loop stop [OF I True failure] less.hyps [OF _ again [OF I True failure]] True failure
        show ?thesis by (auto simp: retry_loop_steps split: option.splits)
      qed
    qed
  qed
  from this [OF init] run show ?thesis by (simp add: retryBundle_def)
qed

text \<open>A fetch that succeeds returns what its last attempt returned.\<close>

lemma retryBundle_success:
  assumes "retryBundle sched ctx m timeout delay attempt w = (Ret (r, None), w')"
  obtains c w2 where "attempt c w2 = (Ret (Inr (Bundles r, Hash r)), w')"
proof -
  have "\<forall>r'. Ret (r, None :: FetchError option) = Ret (r', None) \<longrightarrow>
      (\<exists>c w2. attempt c w2 = (Ret (Inr (Bundles r', Hash r')), w'))"
    using assms
    by (rule retryBundle_rule [where I = "\<lambda>_ _ _ _ _. True" and
          Q = "\<lambda>x w'. \<forall>r'. x = Ret (r', None) \<longrightarrow>
            (\<exists>c w2. attempt c w2 = (Ret (Inr (Bundles r', Hash r')), w'))"]) auto
  with that show thesis by blast
qed

text \<open>A fetch that fails returns no bundles and no hash.\<close>

lemma retryBundle_failed:
  fixes attempt :: "('x, 'b) bundleAttempt"
  assumes "retryBundle sched ctx m timeout delay attempt w = (Ret (r, Some fe), w')"
  shows "Bundles r = [] \<and> Hash r = None"
proof -
  let ?Q = "\<lambda>(x :: ('b BundleResult \<times> FetchError option) go) w' :: 'x world.
    \<forall>r fe. x = Ret (r, Some fe) \<longrightarrow> Bundles r = [] \<and> Hash r = None"
  have "?Q (Ret (r, Some fe)) w'"
    using assms
    by (rule retryBundle_rule [where I = "\<lambda>_ _ _ _ _. True" and Q = ?Q]) (auto simp: failed_result_def)
  then show ?thesis by blast
qed

lemma retryBundle_panic:
  fixes attempt :: "('x, 'b) bundleAttempt"
  assumes "retryBundle sched ctx m timeout delay attempt w = (Panic p, w')"
  obtains c w2 where "attempt c w2 = (Panic p, w')"
proof -
  let ?Q = "\<lambda>(x :: ('b BundleResult \<times> FetchError option) go) w'.
    \<forall>p'. x = Panic p' \<longrightarrow> (\<exists>c w2. attempt c w2 = (Panic p', w'))"
  have "?Q (Panic p) w'"
    using assms
    by (rule retryBundle_rule [where I = "\<lambda>_ _ _ _ _. True" and Q = ?Q]) auto
  with that show thesis by blast
qed

section \<open>Facts about one iteration\<close>

lemma iteration_wait_done:
  assumes "iteration_wait sched ctx delay i w = (Some c, w1)"
  obtains d where "done_at ctx = Some (d, c)" and "clock w1 = max (clock w) d"
    and "d \<le> clock w + delay" and "0 < delay"
  using assms
  by (auto simp: iteration_wait_def wait_delay_def Let_def split: if_splits option.splits)

lemma iteration_wait_timer:
  assumes "iteration_wait sched ctx delay i w = (None, w1)"
  shows "w1 = w\<lparr>clock := clock w + (if 0 < i \<and> 0 < delay then delay else 0)\<rparr>"
    and "done_at ctx = Some (d, e) \<Longrightarrow> clock w1 \<le> max (clock w) d"
  using assms
  by (auto simp: iteration_wait_def wait_delay_def Let_def split: if_splits option.splits)

lemma after_failure_sel:
  assumes "after_failure cerr err n os = Some fe"
  shows "fe_Attempts fe = n" and "fe_Trail fe = os" and "\<not> fe_Recoverable fe"
  using assms
  by (auto simp: after_failure_def context_error_def split: option.splits if_splits)

lemma after_failure_None:
  "after_failure cerr err n os = None \<longleftrightarrow>
     cerr = None \<and> (\<forall>fe. as_fetch err = Some fe \<longrightarrow> fe_Recoverable fe)"
  by (auto simp: after_failure_def split: option.splits)

lemma finalizeFetchError_sel:
  "fe_Attempts (finalizeFetchError (Some err) n os) = n"
  "fe_Trail (finalizeFetchError (Some err) n os) = os"
  "fe_Attempts (finalizeFetchError None n os) = 0"
  "fe_Trail (finalizeFetchError None n os) = []"
  by (auto simp: finalizeFetchError_def split: option.splits prod.splits)

lemma context_error_sel [simp]:
  "fe_Step (context_error s c n os) = s"
  "fe_Attempts (context_error s c n os) = n"
  "fe_Trail (context_error s c n os) = os"
  "fe_Recoverable (context_error s c n os) = False"
  "fe_Err (context_error s c n os) = Some (CtxError c)"
  "fe_Kind (context_error s c n os) = (case c of DeadlineExceeded \<Rightarrow> KindTimeout | Canceled \<Rightarrow> KindCanceled)"
  by (simp_all add: context_error_def kindFromContext_CtxError)

lemma failed_result_sel [simp]:
  "Bundles (failed_result n) = []" "Hash (failed_result n) = None"
  "Attempts (failed_result n) = n" "Trail (failed_result n) = []"
  by (simp_all add: failed_result_def)

lemma clock_log_attempt [simp]: "clock (log_attempt n m err w) = clock w"
  by (simp add: log_attempt_def)

text \<open>The loop itself writes log lines only: what the attempts keep of the metrics, it keeps.\<close>

lemma retryBundle_metrics:
  assumes run: "retryBundle sched ctx m timeout delay attempt w = (r, w')"
    and attempt: "\<And>c w r w'. attempt c w = (r, w') \<Longrightarrow> metrics w' = metrics w"
  shows "metrics w' = metrics w"
proof -
  have wait: "metrics w2 = metrics w1" if "iteration_wait sched ctx delay i w1 = (c, w2)" for i w1 c w2
    using that by (auto simp: iteration_wait_def wait_delay_def Let_def split: if_splits option.splits)
  show ?thesis
    using run
    by (rule retryBundle_rule [where I = "\<lambda>_ _ _ _ v. metrics v = metrics w"
          and Q = "\<lambda>_ v. metrics v = metrics w"])
       (auto simp: log_attempt_def dest!: attempt wait)
qed

section \<open>Properties of the retry loop\<close>

text \<open>
  The attempt accounting of \<^verbatim>\<open>retryBundle\<close>. A successful fetch took between one and
  \<^verbatim>\<open>maxAttempts\<close> attempts and its trail holds exactly the failed attempts before it
  (\<^verbatim>\<open>len(Trail) == Attempts-1\<close>); a failed fetch returns no bundles and no hash, the result and the
  error agree on the number of attempts, that number is at most \<^verbatim>\<open>maxAttempts\<close>, and the error's trail
  has one entry per attempt (\<^verbatim>\<open>len(Trail) == Attempts\<close>).
\<close>

theorem retryBundle_accounting:
  fixes attempt :: "('x, 'b) bundleAttempt"
  assumes "retryBundle sched ctx m timeout delay attempt w = (Ret (r, oe), w')"
  shows "case oe of
      None \<Rightarrow> 1 \<le> Attempts r \<and> Attempts r \<le> m \<and> int (length (Trail r)) = Attempts r - 1
    | Some fe \<Rightarrow> Bundles r = [] \<and> Hash r = None \<and> Trail r = [] \<and> Attempts r = fe_Attempts fe \<and>
        0 \<le> fe_Attempts fe \<and> fe_Attempts fe \<le> max 0 m \<and>
        int (length (fe_Trail fe)) = fe_Attempts fe" (is "?P r oe")
proof -
  let ?I = "\<lambda>i a (os :: AttemptOutcome list) (le :: go_error option) (w :: 'x world). a = i \<and> 0 \<le> i \<and> i \<le> max 0 m \<and> int (length os) = i \<and>
    ((le = None) = (i = 0))"
  let ?Q = "\<lambda>x (w :: 'x world). \<forall>r oe. x = Ret (r, oe) \<longrightarrow> ?P r oe"
  have "?Q (Ret (r, oe)) w'"
    using assms
  proof (rule retryBundle_rule [where I = ?I and Q = ?Q])
    show "?I 0 0 [] None w" by simp
  next
    fix i a os le and w :: "'x world"
    assume "?I i a os le w"
    then show "?Q (Ret (failed_result a, Some (finalizeFetchError le a os))) w"
      by (cases le) (auto simp: finalizeFetchError_sel)
  qed (auto simp: after_failure_sel)
  then show ?thesis by blast
qed

text \<open>
  The retry policy, declaratively: \<open>retried es w\<close> says that the loop has made the failed attempts
  \<open>es\<close> (oldest first) and goes on in the world \<open>w\<close>. An attempt is retried only while the parent
  context is alive and when its error is not a fetch error marked unrecoverable.
\<close>

inductive retried ::
  "scheduler \<Rightarrow> Context \<Rightarrow> int \<Rightarrow> duration \<Rightarrow> duration \<Rightarrow> ('x, 'b) bundleAttempt \<Rightarrow> 'x world \<Rightarrow>
   go_error list \<Rightarrow> 'x world \<Rightarrow> bool"
  for sched ctx m timeout delay attempt w0 where
  first: "retried sched ctx m timeout delay attempt w0 [] w0"
| again: "retried sched ctx m timeout delay attempt w0 es w \<Longrightarrow> int (length es) < m \<Longrightarrow>
    iteration_wait sched ctx delay (int (length es)) w = (None, w1) \<Longrightarrow>
    attempt (WithTimeout ctx timeout (clock w1)) w1 = (Ret (Inl err), w2) \<Longrightarrow>
    ctx_Err ctx (clock w2) = None \<Longrightarrow>
    (\<forall>fe. as_fetch err = Some fe \<longrightarrow> fe_Recoverable fe) \<Longrightarrow>
    retried sched ctx m timeout delay attempt w0 (es @ [err])
      (log_attempt (int (length es) + 1) m err w2)"

lemma retried_recoverable:
  "retried sched ctx m timeout delay attempt w0 es w \<Longrightarrow> err \<in> set es \<Longrightarrow>
   as_fetch err = Some fe \<Longrightarrow> fe_Recoverable fe"
  by (induction rule: retried.induct) auto

lemma retried_length:
  "retried sched ctx m timeout delay attempt w0 es w \<Longrightarrow> int (length es) \<le> max 0 m"
  by (induction rule: retried.induct) auto

text \<open>The loop's variables as functions of the attempts made so far.\<close>

definition retry_state ::
  "scheduler \<Rightarrow> Context \<Rightarrow> int \<Rightarrow> duration \<Rightarrow> duration \<Rightarrow> ('x, 'b) bundleAttempt \<Rightarrow> 'x world \<Rightarrow>
   int \<Rightarrow> int \<Rightarrow> AttemptOutcome list \<Rightarrow> go_error option \<Rightarrow> 'x world \<Rightarrow> bool" where
  "retry_state sched ctx m timeout delay attempt w0 i a os le w \<longleftrightarrow>
     (\<exists>es. retried sched ctx m timeout delay attempt w0 es w \<and> i = int (length es) \<and> a = i \<and>
       os = map attempt_outcome es \<and> le = (if es = [] then None else Some (last es)))"

lemma retry_state_init: "retry_state sched ctx m timeout delay attempt w 0 0 [] None w"
  by (auto simp: retry_state_def intro: retried.first)

lemma retry_state_again:
  assumes "retry_state sched ctx m timeout delay attempt w0 i a os le w" "i < m"
    and "iteration_wait sched ctx delay i w = (None, w1)"
    and "attempt (WithTimeout ctx timeout (clock w1)) w1 = (Ret (Inl err), w2)"
    and "after_failure (ctx_Err ctx (clock w2)) err (i + 1) (os @ [attempt_outcome err]) = None"
  shows "retry_state sched ctx m timeout delay attempt w0 (i + 1) (i + 1)
    (os @ [attempt_outcome err]) (Some err) (log_attempt (i + 1) m err w2)"
proof -
  from assms(1) obtain es where es: "retried sched ctx m timeout delay attempt w0 es w"
    "i = int (length es)" "os = map attempt_outcome es"
    by (auto simp: retry_state_def)
  with assms(2-5) have "retried sched ctx m timeout delay attempt w0 (es @ [err])
      (log_attempt (int (length es) + 1) m err w2)"
    by (intro retried.again) (auto simp: after_failure_None)
  with es show ?thesis by (auto simp: retry_state_def intro!: exI [of _ "es @ [err]"])
qed

text \<open>
  C8. The history behind a result. The failed attempts before the last one were all made under a live
  parent context with errors that are not marked unrecoverable (the policy \<open>retried\<close>). On success
  the trail classifies exactly those attempts, in order, and the bundles and the hash are what the
  next attempt returned. On failure the error's trail classifies every attempt: those, and the
  last one if it was the one that stopped the loop.
\<close>

theorem retryBundle_history:
  fixes attempt :: "('x, 'b) bundleAttempt"
  assumes "retryBundle sched ctx m timeout delay attempt w = (Ret (r, oe), w')"
  shows "\<exists>es w1. retried sched ctx m timeout delay attempt w es w1 \<and>
    (case oe of
       None \<Rightarrow> Trail r = map attempt_outcome es \<and> Attempts r = int (length es) + 1 \<and>
         (\<exists>w2. attempt (WithTimeout ctx timeout (clock w2)) w2 = (Ret (Inr (Bundles r, Hash r)), w'))
     | Some fe \<Rightarrow> fe_Trail fe = map attempt_outcome es \<or>
         (\<exists>err w2. fe_Trail fe = map attempt_outcome (es @ [err]) \<and>
           attempt (WithTimeout ctx timeout (clock w2)) w2 = (Ret (Inl err), w')))" (is "?P r oe w'")
proof -
  let ?I = "retry_state sched ctx m timeout delay attempt w"
  let ?Q = "\<lambda>x w'. \<forall>r oe. x = Ret (r, oe) \<longrightarrow> ?P r oe w'"
  have "?Q (Ret (r, oe)) w'"
    using assms
  proof (rule retryBundle_rule [where I = ?I and Q = ?Q])
    fix i a os le w1 c w2
    assume "?I i a os le w1"
    then show "?Q (Ret (failed_result a, Some (context_error '''' c a os))) w2"
      by (auto simp: retry_state_def)
  next
    fix i a os le w1 w2 b h w3
    assume I: "?I i a os le w1"
      and at: "attempt (WithTimeout ctx timeout (clock w2)) w2 = (Ret (Inr (b, h)), w3)"
    from I at show "?Q (Ret (\<lparr>Bundles = b, Hash = h, Attempts = i + 1, Trail = os\<rparr>, None)) w3"
      by (fastforce simp: retry_state_def)
  next
    fix i a os le w1 w2 err w3 fe
    assume I: "?I i a os le w1"
      and at: "attempt (WithTimeout ctx timeout (clock w2)) w2 = (Ret (Inl err), w3)"
      and "after_failure (ctx_Err ctx (clock w3)) err (i + 1) (os @ [attempt_outcome err]) = Some fe"
    from after_failure_sel(2) [OF this(3)] I at show "?Q (Ret (failed_result (i + 1), Some fe)) w3"
      by (fastforce simp: retry_state_def)
  next
    fix i a os le w1
    assume "?I i a os le w1"
    then show "?Q (Ret (failed_result a, Some (finalizeFetchError le a os))) w1"
      by (auto simp: retry_state_def finalizeFetchError_sel split: if_splits)
  qed (auto intro: retry_state_init retry_state_again)
  then show ?thesis by blast
qed

lemma classify_finalize:
  assumes "as_fetch err \<noteq> None \<or> fst (classifyTransport err) \<noteq> ''''"
  shows "fst (Classify (FetchErr (finalizeFetchError (Some err) n os))) = Reason (attempt_outcome err)"
    and "fst (snd (Classify (FetchErr (finalizeFetchError (Some err) n os)))) = Step (attempt_outcome err)"
  using assms
  by (auto simp: Classify_def finalizeFetchError_def attempt_outcome_def classifyAttempt_def
      split: option.splits prod.splits)


lemma classifyTransport_not_empty [simp]: "fst (classifyTransport err) \<noteq> ''''"
  using classifyTransport_known kind_not_empty by blast

lemma classify_fatal:
  assumes "as_fetch err = Some fe"
  shows "fst (Classify (FetchErr (set_attempts n os fe))) = Reason (attempt_outcome err)"
    and "fst (snd (Classify (FetchErr (set_attempts n os fe)))) = Step (attempt_outcome err)"
  using assms by (auto simp: Classify_def attempt_outcome_def classifyAttempt_def)

lemma after_failure_cases:
  assumes "after_failure cerr err n os = Some fe"
  obtains (fatal) fe0 where "as_fetch err = Some fe0" "\<not> fe_Recoverable fe0" "fe = set_attempts n os fe0"
  | (ctxdone) c where "cerr = Some c" "fe = context_error (snd (classifyAttempt err)) c n os"
  using assms
  by (auto simp: after_failure_def classifyAttempt_def split: option.splits if_splits)

text \<open>
  C28. The terminal reason. When at least one attempt may be made, a failed fetch either reports the
  parent context's own error (kind \<^verbatim>\<open>timeout\<close> or \<^verbatim>\<open>canceled\<close>, not recoverable), or its reason and step,
  as \<^verbatim>\<open>Classify\<close> reads them, are those of the last entry of its trail.
\<close>

theorem retryBundle_terminal_reason:
  fixes attempt :: "('x, 'b) bundleAttempt"
  assumes "retryBundle sched ctx m timeout delay attempt w = (Ret (r, Some fe), w')" and "1 \<le> m"
  shows "(\<exists>d c. done_at ctx = Some (d, c) \<and> fe_Err fe = Some (CtxError c) \<and> \<not> fe_Recoverable fe \<and>
        fe_Kind fe = (case c of DeadlineExceeded \<Rightarrow> KindTimeout | Canceled \<Rightarrow> KindCanceled)) \<or>
      (fe_Trail fe \<noteq> [] \<and> fst (Classify (FetchErr fe)) = Reason (last (fe_Trail fe)) \<and>
        fst (snd (Classify (FetchErr fe))) = Step (last (fe_Trail fe)))" (is "?P fe")
proof -
  let ?I = "retry_state sched ctx m timeout delay attempt w"
  let ?Q = "\<lambda>x (w' :: 'x world). \<forall>r :: 'b BundleResult. \<forall>fe. x = Ret (r, Some fe) \<longrightarrow> ?P fe"
  have "?Q (Ret (r, Some fe)) w'"
    using assms(1)
  proof (rule retryBundle_rule [where I = ?I and Q = ?Q])
    fix i a os le and w1 :: "'x world" and c w2
    assume "iteration_wait sched ctx delay i w1 = (Some c, w2)"
    then obtain d where "done_at ctx = Some (d, c)" by (rule iteration_wait_done)
    then show "?Q (Ret (failed_result a, Some (context_error '''' c a os))) w2" by auto
  next
    fix i a os le and w1 w2 w3 :: "'x world" and err fe
    assume "after_failure (ctx_Err ctx (clock w3)) err (i + 1) (os @ [attempt_outcome err]) = Some fe"
    then show "?Q (Ret (failed_result (i + 1), Some fe)) w3"
      by (cases rule: after_failure_cases)
         (auto simp: classify_fatal ctx_Err_def split: option.splits if_splits)
  next
    fix i a os le and w1 :: "'x world"
    assume I: "?I i a os le w1" and "\<not> i < m"
    from I obtain es where es: "i = int (length es)" "os = map attempt_outcome es"
      "le = (if es = [] then None else Some (last es))"
      unfolding retry_state_def by blast
    moreover from es \<open>\<not> i < m\<close> \<open>1 \<le> m\<close> have "es \<noteq> []" by auto
    ultimately show "?Q (Ret (failed_result a, Some (finalizeFetchError le a os))) w1"
      by (simp add: classify_finalize finalizeFetchError_sel last_map)
  qed (auto intro: retry_state_init retry_state_again)
  then show ?thesis by blast
qed

section \<open>Failing fast\<close>

lemma terminal_status:
  assumes "as_transport err = Some (code, ds)" "\<not> errors_Is err DeadlineExceeded" "\<not> errors_Is err Canceled"
    and "code \<in> {401, 403, 404} \<or> code = 429 \<and> \<not> rt"
  shows "\<not> fe_Recoverable (newFetchError rt step fallback err)"
    and "fe_StatusCode (newFetchError rt step fallback err) = code"
  using assms by (auto simp: newFetchError_def classifyTransport_def status_defs kind_defs)

text \<open>
  C29. A registry that refuses is not asked again: when the first attempt ends with an HTTP 401, 403
  or 404, or with a 429 while throttled requests are not to be retried, the fetch returns after
  that attempt, reports that status, and waits for nothing.
\<close>

theorem retryBundle_fails_fast:
  assumes "attempt (WithTimeout ctx timeout (clock w)) w =
      (Ret (Inl (FetchErr (newFetchError rt step fallback err))), w1)"
    and "as_transport err = Some (code, ds)" "\<not> errors_Is err DeadlineExceeded" "\<not> errors_Is err Canceled"
    and "code \<in> {401, 403, 404} \<or> code = 429 \<and> \<not> rt" and "1 \<le> m"
  shows "\<exists>fe. retryBundle sched ctx m timeout delay attempt w = (Ret (failed_result 1, Some fe), w1) \<and>
    fe_StatusCode fe = code \<and> fe_Step fe = step \<and> length (fe_Trail fe) = 1"
proof -
  let ?err = "FetchErr (newFetchError rt step fallback err)"
  have stop: "after_failure (ctx_Err ctx (clock w1)) ?err 1 [attempt_outcome ?err] =
      Some (set_attempts 1 [attempt_outcome ?err] (newFetchError rt step fallback err))"
    using terminal_status(1) [OF assms(2-5)] by (simp add: after_failure_def)
  have "iteration_wait sched ctx delay 0 w = (None, w)" by (simp add: iteration_wait_def)
  with retry_loop_failure [where i = 0 and m = m and attempt = attempt and ctx = ctx and timeout = timeout
      and delay = delay and sched = sched and w = w and a = 0 and os = "[]" and le = None,
      OF _ _ assms(1)] assms(6) stop
  have "retryBundle sched ctx m timeout delay attempt w =
      (Ret (failed_result 1, Some (set_attempts 1 [attempt_outcome ?err] (newFetchError rt step fallback err))), w1)"
    by (simp add: retryBundle_def)
  then show ?thesis using terminal_status(2) [OF assms(2-5)] by simp
qed

theorem retryBundle_fails_fast_witness:
  "\<exists>fe w1. retryBundle (\<lambda>_. True) Background 3 Second Second
       (\<lambda>c w. (Ret (Inl (FetchErr (newFetchError False StepDescriptor KindDescriptorError
          (TransportError ''NOT_FOUND'' 404 [])))), w)) (start_world ()) =
       ((Ret (failed_result 1 :: nat BundleResult, Some fe), w1) :: _ \<times> unit world) \<and> fe_StatusCode fe = 404"
proof -
  let ?err = "TransportError ''NOT_FOUND'' 404 []"
  let ?attempt = "\<lambda>c w. (Ret (Inl (FetchErr (newFetchError False StepDescriptor KindDescriptorError ?err))), w) ::
    (nat list \<times> Hash option) result go \<times> unit world"
  have "as_transport ?err = Some (404, [])" "\<not> errors_Is ?err DeadlineExceeded" "\<not> errors_Is ?err Canceled"
    "(404 :: int) \<in> {401, 403, 404} \<or> (404 :: int) = 429 \<and> \<not> False" "1 \<le> (3 :: int)" by simp_all
  from retryBundle_fails_fast [where attempt = ?attempt, OF refl this] show ?thesis by blast
qed

section \<open>The contract of an attempt\<close>

text \<open>
  What the users of the retry loop rely on of an attempt: bundles come with the digest of their
  image, and an error is a fetch error of the taxonomy. The loop passes both on.
\<close>

locale bundle_attempt =
  fixes attempt :: "('x, 'b) bundleAttempt"
  assumes attempt_hash: "attempt c w = (Ret (Inr (b, h)), w') \<Longrightarrow> b \<noteq> [] \<Longrightarrow> h \<noteq> None"
    and attempt_error: "attempt c w = (Ret (Inl err), w') \<Longrightarrow> taxonomy_error err"
begin

lemma retried_hash:
  assumes "retryBundle sched ctx m timeout delay attempt w = (Ret (r, None), w')" and "Bundles r \<noteq> []"
  shows "Hash r \<noteq> None"
  by (rule retryBundle_success [OF assms(1)]) (rule attempt_hash [OF _ assms(2)])

lemma retried_taxonomy:
  assumes "retryBundle sched ctx m timeout delay attempt w = (Ret (r, Some fe), w')"
  shows "fe_Kind fe \<in> set known_kinds \<and> fe_Step fe \<in> set known_steps"
proof -
  let ?I = "\<lambda>i a os le (w :: 'x world). \<forall>err. le = Some err \<longrightarrow> taxonomy_error err"
  let ?Q = "\<lambda>x (w :: 'x world). \<forall>r :: 'b BundleResult. \<forall>fe. x = Ret (r, Some fe) \<longrightarrow>
    fe_Kind fe \<in> set known_kinds \<and> fe_Step fe \<in> set known_steps"
  have "?Q (Ret (r, Some fe)) w'"
    using assms
  proof (rule retryBundle_rule [where I = ?I and Q = ?Q])
    fix i a os le and w1 w2 w3 :: "'x world" and err fe
    assume "attempt (WithTimeout ctx timeout (clock w2)) w2 = (Ret (Inl err), w3)"
      and "after_failure (ctx_Err ctx (clock w3)) err (i + 1) (os @ [attempt_outcome err]) = Some fe"
    then show "?Q (Ret (failed_result (i + 1), Some fe)) w3"
      by (auto simp: taxonomy_error_def classifyAttempt_def dest!: attempt_error
          elim!: after_failure_cases split: ctx_error.splits)
  next
    fix i a os le and w1 :: "'x world"
    assume "?I i a os le w1"
    then show "?Q (Ret (failed_result a, Some (finalizeFetchError le a os))) w1"
      by (cases le) (auto simp: finalizeFetchError_def taxonomy_error_def)
  qed (auto intro: attempt_error split: ctx_error.splits)
  then show ?thesis by blast
qed

end

section \<open>Time\<close>

text \<open>
  What the loop relies on of an attempt: it takes no negative time and it returns by the time its
  context is done. The registry client promises this of its calls.
\<close>

definition honours_context :: "('x, 'b) bundleAttempt \<Rightarrow> bool" where
  "honours_context attempt \<longleftrightarrow>
     (\<forall>c w r w' d e. done_at c = Some (d, e) \<longrightarrow> attempt c w = (r, w') \<longrightarrow>
        clock w \<le> clock w' \<and> clock w' \<le> max (clock w) d)"

lemma attempt_clock:
  assumes "honours_context attempt" and "attempt (WithTimeout ctx timeout (clock w)) w = (r, w')"
    and "0 \<le> timeout"
  shows "clock w \<le> clock w'" and "clock w' \<le> clock w + timeout"
    and "done_at ctx = Some (p, pe) \<Longrightarrow> clock w' \<le> max (clock w) p"
proof -
  obtain d e where d: "done_at (WithTimeout ctx timeout (clock w)) = Some (d, e)"
    "d \<le> max (clock w) (clock w + timeout)" "\<And>p pe. done_at ctx = Some (p, pe) \<Longrightarrow> d \<le> p"
    by (rule WithTimeout_done) blast
  with assms(1,2) have "clock w \<le> clock w'" "clock w' \<le> max (clock w) d"
    unfolding honours_context_def by blast+
  with d assms(3) show "clock w \<le> clock w'" "clock w' \<le> clock w + timeout"
    and "done_at ctx = Some (p, pe) \<Longrightarrow> clock w' \<le> max (clock w) p"
    by auto
qed

text \<open>The loop invariant of the time bound: how long the attempts so far can have taken.\<close>

definition within_budget ::
  "Context \<Rightarrow> int \<Rightarrow> duration \<Rightarrow> duration \<Rightarrow> 'x world \<Rightarrow> int \<Rightarrow> 'x world \<Rightarrow> bool" where
  "within_budget ctx m timeout delay w i w1 \<longleftrightarrow>
     0 \<le> i \<and> i \<le> m \<and> clock w1 \<le> clock w + i * timeout + max 0 (i - 1) * delay \<and>
     (\<forall>d e. done_at ctx = Some (d, e) \<longrightarrow> clock w1 \<le> max (clock w) d)"

lemma within_budget_attempt:
  assumes honours: "honours_context attempt" and pos: "0 \<le> timeout" "0 \<le> delay"
    and I: "within_budget ctx m timeout delay w i w1" "i < m"
    and wt: "iteration_wait sched ctx delay i w1 = (None, w2)"
    and at: "attempt (WithTimeout ctx timeout (clock w2)) w2 = (x, w3)"
  shows "within_budget ctx m timeout delay w (i + 1) w3"
proof -
  note tm = iteration_wait_timer [OF wt] and ac = attempt_clock [OF honours at pos(1)]
  from I tm(1) pos have "clock w2 \<le> clock w + i * timeout + i * delay"
    by (cases "i = 0") (auto simp: within_budget_def algebra_simps)
  with ac(2) have "clock w3 \<le> clock w + (i + 1) * timeout + i * delay"
    by (simp add: algebra_simps)
  moreover have "\<forall>d e. done_at ctx = Some (d, e) \<longrightarrow> clock w3 \<le> max (clock w) d"
    using I tm(2) ac(3) unfolding within_budget_def by fastforce
  ultimately show ?thesis using I by (simp add: within_budget_def)
qed

lemma within_budget_wait:
  assumes pos: "0 \<le> timeout" "0 \<le> delay"
    and I: "within_budget ctx m timeout delay w i w1" "i < m"
    and wt: "iteration_wait sched ctx delay i w1 = (Some c, w2)"
  shows "within_budget ctx m timeout delay w (i + 1) w2"
proof -
  from wt obtain d where d: "done_at ctx = Some (d, c)" "clock w2 = max (clock w1) d"
    "d \<le> clock w1 + delay" "0 < i"
    by (auto simp: iteration_wait_def wait_delay_def Let_def split: if_splits option.splits)
  with I pos have "clock w2 \<le> clock w + i * timeout + i * delay"
    by (auto simp: within_budget_def algebra_simps)
  also have "\<dots> \<le> clock w + (i + 1) * timeout + i * delay"
    using pos by (simp add: algebra_simps)
  finally show ?thesis using I d by (auto simp: within_budget_def)
qed

lemma within_budget_total:
  assumes "within_budget ctx m timeout delay w i w1" "0 \<le> timeout" "0 \<le> delay" "1 \<le> m"
  shows "clock w1 \<le> clock w + m * timeout + (m - 1) * delay \<and>
    (\<forall>d e. done_at ctx = Some (d, e) \<longrightarrow> clock w1 \<le> max (clock w) d)"
proof -
  have "i * timeout + max 0 (i - 1) * delay \<le> m * timeout + (m - 1) * delay"
    using assms by (intro add_mono mult_right_mono) (auto simp: within_budget_def)
  with assms(1) show ?thesis by (auto simp: within_budget_def)
qed

lemma retryBundle_within_budget:
  assumes run: "retryBundle sched ctx m timeout delay attempt w = (r, w')"
    and honours: "honours_context attempt" and pos: "1 \<le> m" "0 \<le> timeout" "0 \<le> delay"
  shows "clock w' \<le> clock w + m * timeout + (m - 1) * delay \<and>
    (\<forall>d e. done_at ctx = Some (d, e) \<longrightarrow> clock w' \<le> max (clock w) d)"
proof -
  have "\<exists>i. within_budget ctx m timeout delay w i w'"
    using run
  proof (rule retryBundle_rule [where I = "\<lambda>i _ _ _. within_budget ctx m timeout delay w i"
        and Q = "\<lambda>_ w'. \<exists>i. within_budget ctx m timeout delay w i w'"])
    show "within_budget ctx m timeout delay w 0 w" using pos by (simp add: within_budget_def)
  next
    fix i w1 w2 err w3 n
    assume "within_budget ctx m timeout delay w i w1" "i < m"
      "iteration_wait sched ctx delay i w1 = (None, w2)"
      "attempt (WithTimeout ctx timeout (clock w2)) w2 = (Ret (Inl err), w3)"
    from within_budget_attempt [OF honours pos(2,3) this]
    show "within_budget ctx m timeout delay w (i + 1) (log_attempt (i + 1) m err w3)"
      by (simp add: within_budget_def)
  qed (blast intro: within_budget_attempt [OF honours pos(2,3)] within_budget_wait [OF pos(2,3)])+
  then obtain i where "within_budget ctx m timeout delay w i w'" ..
  then show ?thesis using pos(2,3,1) by (rule within_budget_total)
qed

text \<open>
  The retry budget. With attempts that return when their context is done, a fetch takes at most
  \<^verbatim>\<open>maxAttempts\<close> times the per-attempt time-out plus the delays between the attempts, and it never
  outlives the parent context: it is over when the parent is done (or at once, if it was done).
\<close>

theorem retryBundle_time_bound:
  assumes run: "retryBundle sched ctx m timeout delay attempt w = (r, w')"
    and honours: "honours_context attempt"
    and pos: "1 \<le> m" "0 \<le> timeout" "0 \<le> delay"
  shows "clock w' \<le> clock w + m * timeout + (m - 1) * delay \<and>
    (\<forall>d e. done_at ctx = Some (d, e) \<longrightarrow> clock w' \<le> max (clock w) d)"
  using assms by (rule retryBundle_within_budget)

section \<open>Concrete runs\<close>

text \<open>
  Attempts that follow a script: each takes one millisecond and returns the next result of the
  outside's list.
\<close>

definition scripted :: "((('b list \<times> Hash option) result) list, 'b) bundleAttempt" where
  "scripted c w =
     (case ext w of
        [] \<Rightarrow> (Panic ''script exhausted'', w)
      | r # rs \<Rightarrow> (Ret r, w\<lparr>ext := rs, clock := clock w + Millisecond\<rparr>))"

definition stall_error :: go_error where
  "stall_error = FetchErr (newDescriptorError False (CtxError DeadlineExceeded))"

definition stalls_then_success :: "((nat list \<times> Hash option) result) list" where
  "stalls_then_success =
     [Inl stall_error, Inl stall_error, Inr ([7], Some \<lparr>Algorithm = ''sha256'', Hex = ''ab''\<rparr>)]"

lemmas retry_eval =
  retryBundle_def retry_loop.simps iteration_wait_def wait_delay_def scripted_def stall_error_def
  newDescriptorError_def newFetchError_def classifyTransport_def after_failure_def ctx_Err_def
  attempt_outcome_def classifyAttempt_def log_attempt_def slog_def WithTimeout_def Background_def
  start_world_def finalizeFetchError_def context_error_def kindFromContext_def set_attempts_def
  failed_result_def

lemma rescued_run:
  obtains w' where
    "retryBundle (\<lambda>_. True) Background 3 Second 0 scripted (start_world stalls_then_success) =
       (Ret (\<lparr>Bundles = [7], Hash = Some \<lparr>Algorithm = ''sha256'', Hex = ''ab''\<rparr>, Attempts = 3,
          Trail = [\<lparr>Reason = KindTimeout, Step = StepDescriptor\<rparr>,
                   \<lparr>Reason = KindTimeout, Step = StepDescriptor\<rparr>]\<rparr>, None), w')"
  by (simp add: retry_eval stalls_then_success_def kind_defs step_defs)

theorem retryBundle_accounting_witness:
  "\<exists>r w'. retryBundle (\<lambda>_. True) Background 3 Second 0 scripted (start_world stalls_then_success) =
       (Ret (r, None), w') \<and>
     1 \<le> Attempts r \<and> Attempts r \<le> 3 \<and> int (length (Trail r)) = Attempts r - 1"
proof -
  obtain r w' where run: "retryBundle (\<lambda>_. True) Background 3 Second 0 scripted
      (start_world stalls_then_success) = (Ret (r, None), w')"
    by (rule rescued_run) blast
  from run retryBundle_accounting [OF run] show ?thesis by auto
qed

theorem retryBundle_history_witness:
  "\<exists>r w' es w1. retryBundle (\<lambda>_. True) Background 3 Second 0 scripted (start_world stalls_then_success) =
       (Ret (r, None), w') \<and>
     retried (\<lambda>_. True) Background 3 Second 0 scripted (start_world stalls_then_success) es w1 \<and>
     Trail r = map attempt_outcome es \<and> Attempts r = int (length es) + 1"
proof -
  obtain r w' where run: "retryBundle (\<lambda>_. True) Background 3 Second 0 scripted
      (start_world stalls_then_success) = (Ret (r, None), w')"
    by (rule rescued_run) blast
  from run retryBundle_history [OF run] show ?thesis by auto
qed

text \<open>A parent context that is canceled during the second attempt.\<close>

definition canceled_ctx :: Context where
  "canceled_ctx = \<lparr>done_at = Some (1500000, Canceled)\<rparr>"

lemma canceled_run:
  obtains fe w' where
    "retryBundle (\<lambda>_. True) canceled_ctx 3 Second 0 scripted (start_world stalls_then_success) =
       (Ret (failed_result 2, Some fe), w')"
    and "fe_Kind fe = KindCanceled" and "fe_Step fe = StepDescriptor"
    and "fe_Trail fe = [\<lparr>Reason = KindTimeout, Step = StepDescriptor\<rparr>,
                        \<lparr>Reason = KindTimeout, Step = StepDescriptor\<rparr>]"
  by (simp add: retry_eval stalls_then_success_def canceled_ctx_def kind_defs step_defs duration_defs)

theorem retryBundle_terminal_reason_witness:
  "\<exists>r fe w'. retryBundle (\<lambda>_. True) canceled_ctx 3 Second 0 scripted (start_world stalls_then_success) =
       (Ret (r, Some fe), w') \<and>
     (\<exists>d c. done_at canceled_ctx = Some (d, c) \<and> fe_Err fe = Some (CtxError c) \<and>
       \<not> fe_Recoverable fe \<and> fe_Kind fe = KindCanceled)"
proof -
  obtain fe w' where run: "retryBundle (\<lambda>_. True) canceled_ctx 3 Second 0 scripted
      (start_world stalls_then_success) = (Ret (failed_result 2, Some fe), w')"
    and fe: "fe_Kind fe = KindCanceled"
      "fe_Trail fe = [\<lparr>Reason = KindTimeout, Step = StepDescriptor\<rparr>,
                      \<lparr>Reason = KindTimeout, Step = StepDescriptor\<rparr>]"
    by (rule canceled_run)
  have "1 \<le> (3 :: int)" by simp
  from run fe retryBundle_terminal_reason [OF run this] show ?thesis
    by (auto simp: Classify_def kind_defs canceled_ctx_def)
qed

text \<open>An attempt that stalls until its context is done.\<close>

definition stalling :: "('x, 'b) bundleAttempt" where
  "stalling c w =
     (Ret (Inl stall_error),
      w\<lparr>clock := (case done_at c of None \<Rightarrow> clock w | Some (d, e) \<Rightarrow> max (clock w) d)\<rparr>)"

lemma stalling_honours: "honours_context stalling"
  by (auto simp: honours_context_def stalling_def)

theorem retryBundle_time_bound_witness:
  "honours_context (stalling :: (unit, nat) bundleAttempt) \<and>
   clock (snd (retryBundle (\<lambda>_. True) Background 2 Second Second
     (stalling :: (unit, nat) bundleAttempt) (start_world ()))) = 3 * Second \<and>
   clock (snd (retryBundle (\<lambda>_. True) Background 2 Second Second
     (stalling :: (unit, nat) bundleAttempt) (start_world ()))) \<le> 2 * Second + (2 - 1) * Second"
proof -
  let ?run = "retryBundle (\<lambda>_. True) Background 2 Second Second
     (stalling :: (unit, nat) bundleAttempt) (start_world ())"
  have "clock (snd ?run) = 3 * Second"
    by (simp add: retry_eval stalling_def duration_defs kind_defs)
  moreover have "clock (snd ?run) \<le> clock (start_world ()) + 2 * Second + (2 - 1) * Second"
    using retryBundle_time_bound [of "\<lambda>_. True" Background 2 Second Second
      "stalling :: (unit, nat) bundleAttempt" "start_world ()", OF prod.collapse [symmetric] stalling_honours]
    by (simp add: duration_defs)
  ultimately show ?thesis using stalling_honours by simp
qed

end
