(* ===== verification/Provider_Ifaces.thy ===== *)
theory Provider_Ifaces
  imports Retry
begin

text \<open>
  The three interfaces the external data provider is built on (\<^verbatim>\<open>Verifier\<close>, \<^verbatim>\<open>KeyChainProvider\<close> and
  \<^verbatim>\<open>BundleFetcher\<close> of pkg/provider/provider.go) with the laws it relies on, as locales. Each is
  interpreted in the theory of the component that implements it.
\<close>

type_synonym ('x, 'b, 'v) verify_op = "'b list \<Rightarrow> Hash option \<Rightarrow> 'x world \<Rightarrow> 'v list result go \<times> 'x world"

type_synonym ('x, 'k) keychain_op = "Context \<Rightarrow> 'x world \<Rightarrow> 'k result \<times> 'x world"

type_synonym ('x, 'r, 'o, 'b) fetch_op =
  "Context \<Rightarrow> 'r \<Rightarrow> 'o list \<Rightarrow> 'x world \<Rightarrow> ('b BundleResult \<times> go_error option) go \<times> 'x world"

text \<open>
  A verifier returns on every set of bundles that comes with a digest, with at most one result per
  bundle, and leaves the metrics to its caller.
\<close>

locale bundle_verifier =
  fixes Verify :: "('x, 'b, 'v) verify_op"
  assumes verify_returns: "h \<noteq> None \<Longrightarrow> \<exists>r w'. Verify bs h w = (Ret r, w')"
    and verify_at_most: "Verify bs h w = (Ret (Inr res), w') \<Longrightarrow> length res \<le> length bs"
    and verify_metrics: "Verify bs h w = (r, w') \<Longrightarrow> metrics w' = metrics w"

text \<open>A keychain source answers at once, without I/O, and never fails.\<close>

locale keychain_source =
  fixes KeyChain :: "('x, 'k) keychain_op"
  assumes keychain_answers: "\<exists>kc. KeyChain ctx w = (Inr kc, w)"

text \<open>
  A bundle fetcher gives a digest with every non-empty set of bundles, reports the number of
  attempts, fails with errors of the failure taxonomy, and leaves the metrics to its caller.
\<close>

locale bundle_fetcher =
  fixes Fetch :: "('x, 'r, 'o, 'b) fetch_op"
  assumes fetch_hash: "Fetch ctx ref ro w = (Ret (r, None), w') \<Longrightarrow> Bundles r \<noteq> [] \<Longrightarrow> Hash r \<noteq> None"
    and fetch_error: "Fetch ctx ref ro w = (Ret (r, Some err), w') \<Longrightarrow>
      fst (Classify err) \<in> set known_kinds \<and> fst (snd (Classify err)) \<in> set known_steps"
    and fetch_metrics: "Fetch ctx ref ro w = (x, w') \<Longrightarrow> metrics w' = metrics w"

end
