(* ===== verification/Conn_Trace.thy ===== *)
theory Conn_Trace
  imports Go_World
begin

text \<open>
  The connection trace of one bundle fetch (pkg/fetcher/trace.go): the collector's state, the hooks
  that the HTTP client calls, and the log fields read from it. Every hook runs under the
  collector's mutex, so a run is a sequence of hook calls, each with the time at which it reads
  the clock.
\<close>

section \<open>The collector and its hooks\<close>

definition notRecorded :: int where "notRecorded = - 1"

definition durationUnset :: duration where "durationUnset = - 1"

lemmas unset_defs [go_defs] = notRecorded_def durationUnset_def

text \<open>A time stamp that was never set is the zero \<^verbatim>\<open>time.Time\<close>, here \<open>None\<close>.\<close>

record TraceCollector =
  reusedConns :: int
  newConns :: int
  lastReused :: bool
  lastIdle :: duration
  dns :: duration
  connect :: duration
  tls :: duration
  ttfb :: duration
  wroteReq :: bool
  dnsStart :: "instant option"
  connStart :: "instant option"
  tlsStart :: "instant option"
  gotConnAt :: "instant option"

definition NewTraceCollector :: TraceCollector where
  "NewTraceCollector = \<lparr>reusedConns = 0, newConns = 0, lastReused = False, lastIdle = durationUnset,
     dns = durationUnset, connect = durationUnset, tls = durationUnset, ttfb = durationUnset,
     wroteReq = False, dnsStart = None, connStart = None, tlsStart = None, gotConnAt = None\<rparr>"

text \<open>
  \<^verbatim>\<open>time.Since\<close>: the difference saturates, and the zero time lies more than the longest duration
  in the past.
\<close>

definition Since :: "instant option \<Rightarrow> instant \<Rightarrow> duration" where
  "Since start now = (case start of None \<Rightarrow> maxDuration | Some t \<Rightarrow> now - t)"

datatype hook =
    GetConn
  | GotConn bool duration
  | DNSStart
  | DNSDone
  | ConnectStart
  | ConnectDone
  | TLSHandshakeStart
  | TLSHandshakeDone
  | WroteRequest "go_error option"
  | GotFirstResponseByte

fun Trace :: "instant \<Rightarrow> hook \<Rightarrow> TraceCollector \<Rightarrow> TraceCollector" where
  "Trace now GetConn c =
     c\<lparr>ttfb := durationUnset, dns := durationUnset, connect := durationUnset, tls := durationUnset,
       wroteReq := False, lastReused := False, lastIdle := durationUnset, gotConnAt := None\<rparr>"
| "Trace now (GotConn reused idle) c =
     (let c' = c\<lparr>gotConnAt := Some now, lastReused := reused\<rparr>
      in if reused then c'\<lparr>reusedConns := reusedConns c' + 1, lastIdle := idle\<rparr>
         else c'\<lparr>newConns := newConns c' + 1\<rparr>)"
| "Trace now DNSStart c = c\<lparr>dnsStart := Some now\<rparr>"
| "Trace now DNSDone c = c\<lparr>dns := Since (dnsStart c) now\<rparr>"
| "Trace now ConnectStart c = c\<lparr>connStart := Some now\<rparr>"
| "Trace now ConnectDone c = c\<lparr>connect := Since (connStart c) now\<rparr>"
| "Trace now TLSHandshakeStart c = c\<lparr>tlsStart := Some now\<rparr>"
| "Trace now TLSHandshakeDone c = c\<lparr>tls := Since (tlsStart c) now\<rparr>"
| "Trace now (WroteRequest err) c = (if err \<noteq> None then c else c\<lparr>wroteReq := True\<rparr>)"
| "Trace now GotFirstResponseByte c =
     (if gotConnAt c \<noteq> None then c\<lparr>ttfb := Since (gotConnAt c) now\<rparr> else c)"

type_synonym events = "(instant \<times> hook) list"

definition trace_run :: "events \<Rightarrow> TraceCollector \<Rightarrow> TraceCollector" where
  "trace_run es c = foldl (\<lambda>c (now, h). Trace now h c) c es"

definition ms :: "duration \<Rightarrow> int" where
  "ms d = (if d < 0 then notRecorded else go_div d Millisecond)"

definition Fields :: "TraceCollector \<Rightarrow> attrs" where
  "Fields c =
     [(''conns_reused'', LInt (reusedConns c)),
      (''conns_new'', LInt (newConns c)),
      (''last_conn_reused'', LBool (lastReused c)),
      (''last_conn_idle_ms'', LInt (ms (lastIdle c))),
      (''dns_ms'', LInt (ms (dns c))),
      (''connect_ms'', LInt (ms (connect c))),
      (''tls_ms'', LInt (ms (tls c))),
      (''wrote_request'', LBool (wroteReq c)),
      (''ttfb_ms'', LInt (ms (ttfb c)))]"

section \<open>Counts\<close>

lemma trace_run_simps [simp]:
  "trace_run [] c = c"
  "trace_run ((t, h) # es) c = trace_run es (Trace t h c)"
  "trace_run (es @ es') c = trace_run es' (trace_run es c)"
  by (simp_all add: trace_run_def)

lemma ms_eq_notRecorded: "ms d = notRecorded \<longleftrightarrow> d < 0"
  using div_int_pos_iff [of d Millisecond] by (auto simp: ms_def go_defs)

fun got_conn :: "bool \<Rightarrow> hook \<Rightarrow> bool" where
  "got_conn r (GotConn reused idle) = (reused = r)"
| "got_conn r h = False"

lemma Trace_counts:
  "reusedConns (Trace t h c) = reusedConns c + of_bool (got_conn True h)"
  "newConns (Trace t h c) = newConns c + of_bool (got_conn False h)"
  by (cases h; simp add: Let_def)+

text \<open>
  The connection counts of a fetch are exact: over any sequence of hook calls, across the
  requests and retries of the fetch, the collector has counted every connection that was reused
  and every connection that was new.
\<close>

theorem trace_connection_counts:
  "reusedConns (trace_run es NewTraceCollector) = int (length (filter (\<lambda>(t, h). got_conn True h) es)) \<and>
   newConns (trace_run es NewTraceCollector) = int (length (filter (\<lambda>(t, h). got_conn False h) es))"
proof -
  have "reusedConns (trace_run es c) = reusedConns c + int (length (filter (\<lambda>(t, h). got_conn True h) es)) \<and>
      newConns (trace_run es c) = newConns c + int (length (filter (\<lambda>(t, h). got_conn False h) es))" for c
    by (induction es arbitrary: c) (auto simp: Trace_counts)
  then show ?thesis by (simp add: NewTraceCollector_def)
qed

section \<open>The last request\<close>

text \<open>
  A sequence of hook calls in which every phase that is done was started: the argument says which
  of the three phases have been started.
\<close>

fun phases_paired :: "bool \<Rightarrow> bool \<Rightarrow> bool \<Rightarrow> events \<Rightarrow> bool" where
  "phases_paired d c t [] = True"
| "phases_paired d c t ((now, h) # es) =
     ((h = DNSDone \<longrightarrow> d) \<and> (h = ConnectDone \<longrightarrow> c) \<and> (h = TLSHandshakeDone \<longrightarrow> t) \<and>
      phases_paired (d \<or> h = DNSStart) (c \<or> h = ConnectStart) (t \<or> h = TLSHandshakeStart) es)"

text \<open>Two collectors that describe the same request.\<close>

definition same_request :: "TraceCollector \<Rightarrow> TraceCollector \<Rightarrow> bool" where
  "same_request c c' \<longleftrightarrow>
     lastReused c = lastReused c' \<and> lastIdle c = lastIdle c' \<and> dns c = dns c' \<and>
     connect c = connect c' \<and> tls c = tls c' \<and> ttfb c = ttfb c' \<and> wroteReq c = wroteReq c' \<and>
     gotConnAt c = gotConnAt c'"

definition same_starts :: "bool \<Rightarrow> bool \<Rightarrow> bool \<Rightarrow> TraceCollector \<Rightarrow> TraceCollector \<Rightarrow> bool" where
  "same_starts d cn t c c' \<longleftrightarrow>
     (d \<longrightarrow> dnsStart c = dnsStart c') \<and> (cn \<longrightarrow> connStart c = connStart c') \<and>
     (t \<longrightarrow> tlsStart c = tlsStart c')"

lemma Trace_same_request:
  assumes "same_request c c'" "same_starts d cn t c c'"
    and "h = DNSDone \<longrightarrow> d" "h = ConnectDone \<longrightarrow> cn" "h = TLSHandshakeDone \<longrightarrow> t"
  shows "same_request (Trace now h c) (Trace now h c')"
    and "same_starts (d \<or> h = DNSStart) (cn \<or> h = ConnectStart) (t \<or> h = TLSHandshakeStart)
      (Trace now h c) (Trace now h c')"
  using assms by (cases h; simp add: same_request_def same_starts_def Let_def)+

lemma same_request_run:
  "same_request c c' \<Longrightarrow> same_starts d cn t c c' \<Longrightarrow> phases_paired d cn t es \<Longrightarrow>
   same_request (trace_run es c) (trace_run es c')"
  by (induction d cn t es arbitrary: c c' rule: phases_paired.induct) (simp_all add: Trace_same_request)

lemma same_request_Fields:
  "same_request c c' \<Longrightarrow> drop 2 (Fields c) = drop 2 (Fields c')"
  by (simp add: same_request_def Fields_def)

text \<open>
  A stall is never described with an earlier request's connection: whatever happened before,
  the fields reported after a request are those of a collector that saw only that request, when
  the hooks of the request are paired (no phase ends that did not start in it). Only the two
  connection counts, which cover the whole fetch, depend on the past.
\<close>

theorem trace_request_isolated:
  assumes "phases_paired False False False es"
  shows "drop 2 (Fields (trace_run (before @ (t, GetConn) # es) c)) =
    drop 2 (Fields (trace_run es NewTraceCollector))"
proof -
  have "same_request (Trace t GetConn (trace_run before c)) NewTraceCollector"
    by (simp add: same_request_def NewTraceCollector_def)
  from same_request_run [OF this _ assms] show ?thesis
    by (simp add: same_starts_def same_request_Fields)
qed

section \<open>The black-hole signature\<close>

text \<open>The request got a response byte on a connection it had obtained.\<close>

fun answered :: "bool \<Rightarrow> events \<Rightarrow> bool" where
  "answered conn [] = False"
| "answered conn ((now, h) # es) =
     (case h of
        GotConn r i \<Rightarrow> answered True es
      | GotFirstResponseByte \<Rightarrow> conn \<or> answered conn es
      | _ \<Rightarrow> answered conn es)"

definition written :: "events \<Rightarrow> bool" where
  "written es = list_ex (\<lambda>(t, h). h = WroteRequest None) es"

definition no_GetConn :: "events \<Rightarrow> bool" where
  "no_GetConn es = list_all (\<lambda>(t, h). h \<noteq> GetConn) es"

lemma run_wroteReq:
  "no_GetConn es \<Longrightarrow> wroteReq (trace_run es c) \<longleftrightarrow> wroteReq c \<or> written es"
proof (induction es arbitrary: c)
  case (Cons e es)
  obtain t h where "e = (t, h)" by (cases e)
  with Cons show ?case by (cases h) (auto simp: no_GetConn_def written_def Let_def)
qed (simp add: written_def)

lemma run_ttfb:
  assumes "no_GetConn es" and "sorted (map fst es)" and "\<forall>s\<in>set_option (gotConnAt c). \<forall>e\<in>set es. s \<le> fst e"
  shows "ttfb (trace_run es c) < 0 \<longleftrightarrow> ttfb c < 0 \<and> \<not> answered (gotConnAt c \<noteq> None) es"
  using assms
proof (induction es arbitrary: c)
  case (Cons e es)
  obtain t h where e: "e = (t, h)" by (cases e)
  from Cons.prems e have rest: "no_GetConn es" "sorted (map fst es)" "h \<noteq> GetConn"
    by (auto simp: no_GetConn_def)
  from Cons.prems e have "\<forall>s\<in>set_option (gotConnAt (Trace t h c)). \<forall>e\<in>set es. s \<le> fst e"
    by (cases h) (auto simp: no_GetConn_def Let_def)
  from Cons.IH [OF rest(1,2) this] Cons.prems e rest(3) show ?case
    by (cases h) (auto simp: Let_def Since_def)
qed simp

text \<open>
  C33. The black-hole signature means what the code says it means: after a request whose hooks are
  called in order of time, \<^verbatim>\<open>wrote_request=true\<close> with \<^verbatim>\<open>ttfb_ms=-1\<close> is reported exactly when the
  request was written without an error and no response byte arrived on the connection it got.
\<close>

theorem black_hole_signature:
  assumes "no_GetConn es" and "sorted (map fst es)"
  shows "(''wrote_request'', LBool True) \<in> set (Fields (trace_run (before @ (t, GetConn) # es) c)) \<and>
    (''ttfb_ms'', LInt (- 1)) \<in> set (Fields (trace_run (before @ (t, GetConn) # es) c)) \<longleftrightarrow>
    written es \<and> \<not> answered False es"
proof -
  let ?c = "Trace t GetConn (trace_run before c)"
  have w: "wroteReq (trace_run es ?c) \<longleftrightarrow> written es"
    using run_wroteReq [OF assms(1)] by simp
  have "ttfb (trace_run es ?c) < 0 \<longleftrightarrow> ttfb ?c < 0 \<and> \<not> answered (gotConnAt ?c \<noteq> None) es"
    using assms by (intro run_ttfb) simp_all
  then have "ms (ttfb (trace_run es ?c)) = - 1 \<longleftrightarrow> \<not> answered False es"
    using ms_eq_notRecorded by (simp add: go_defs)
  with w show ?thesis by (auto simp: Fields_def)
qed

section \<open>Concrete traces\<close>

text \<open>A first request that succeeds on a new connection; a second that stalls on the reused one.\<close>

definition first_request :: events where
  "first_request = [(0, GetConn), (1, DNSStart), (2000001, DNSDone), (2000002, ConnectStart),
     (5000002, ConnectDone), (5000003, GotConn False 0), (5000004, WroteRequest None),
     (9000003, GotFirstResponseByte)]"

definition stalled_request :: events where
  "stalled_request = [(20000001, GotConn True 11000000), (20000002, WroteRequest None)]"

lemmas trace_eval = first_request_def stalled_request_def NewTraceCollector_def Fields_def
  no_GetConn_def written_def Since_def ms_def go_div_def

theorem trace_request_isolated_witness:
  "drop 2 (Fields (trace_run (first_request @ (20000000, GetConn) # stalled_request) NewTraceCollector)) =
     [(''last_conn_reused'', LBool True), (''last_conn_idle_ms'', LInt 11), (''dns_ms'', LInt (- 1)),
      (''connect_ms'', LInt (- 1)), (''tls_ms'', LInt (- 1)), (''wrote_request'', LBool True),
      (''ttfb_ms'', LInt (- 1))]"
proof -
  have "phases_paired False False False stalled_request" by (simp add: stalled_request_def)
  from trace_request_isolated [OF this] show ?thesis by (simp add: trace_eval go_defs)
qed

theorem black_hole_signature_witness:
  "(''wrote_request'', LBool True) \<in>
     set (Fields (trace_run (first_request @ (20000000, GetConn) # stalled_request) NewTraceCollector)) \<and>
   (''ttfb_ms'', LInt (- 1)) \<in>
     set (Fields (trace_run (first_request @ (20000000, GetConn) # stalled_request) NewTraceCollector))"
proof -
  have "no_GetConn stalled_request" "sorted (map fst stalled_request)"
    "written stalled_request \<and> \<not> answered False stalled_request"
    by (simp_all add: trace_eval)
  then show ?thesis using black_hole_signature by blast
qed

end
