(* ===== verification/Go_Quote.thy ===== *)
theory Go_Quote
  imports Go_Prelude
begin

text \<open>
  \<^verbatim>\<open>strconv.Quote\<close>, the \<^verbatim>\<open>%q\<close> of the error texts. Which characters above ASCII are printable is a
  table of the Unicode data that Go generates; it is the argument \<open>printable\<close>.
\<close>

section \<open>UTF-8\<close>

definition RuneError :: nat where "RuneError = 65533"

definition between :: "nat \<Rightarrow> nat \<Rightarrow> char \<Rightarrow> bool" where
  "between lo hi c = (lo \<le> of_char c \<and> of_char c \<le> hi)"

definition low6 :: "char \<Rightarrow> nat" where
  "low6 c = of_char c mod 64"

text \<open>The range of the second byte that the first byte admits, and the number of bytes.\<close>

definition lead_byte :: "nat \<Rightarrow> (nat \<times> nat \<times> nat) option" where
  "lead_byte n =
     (if 194 \<le> n \<and> n \<le> 223 then Some (2, 128, 191)
      else if n = 224 then Some (3, 160, 191)
      else if n = 237 then Some (3, 128, 159)
      else if 225 \<le> n \<and> n \<le> 239 then Some (3, 128, 191)
      else if n = 240 then Some (4, 144, 191)
      else if 241 \<le> n \<and> n \<le> 243 then Some (4, 128, 191)
      else if n = 244 then Some (4, 128, 143)
      else None)"

text \<open>\<^verbatim>\<open>utf8.DecodeRuneInString\<close> on a non-empty string: the character and its width.\<close>

fun DecodeRune :: "string \<Rightarrow> nat \<times> nat" where
  "DecodeRune [] = (RuneError, 0)"
| "DecodeRune (c # cs) =
     (if of_char c < (128 :: nat) then (of_char c, 1)
      else case (lead_byte (of_char c), cs) of
        (Some (w, lo, hi), c1 # rest) \<Rightarrow>
          if \<not> between lo hi c1 then (RuneError, 1)
          else if w = 2 then ((of_char c mod 32) * 64 + low6 c1, 2)
          else (case rest of
            c2 # rest' \<Rightarrow>
              if \<not> between 128 191 c2 then (RuneError, 1)
              else if w = 3 then ((of_char c mod 16) * 4096 + low6 c1 * 64 + low6 c2, 3)
              else (case rest' of
                c3 # _ \<Rightarrow>
                  if \<not> between 128 191 c3 then (RuneError, 1)
                  else ((of_char c mod 8) * 262144 + low6 c1 * 4096 + low6 c2 * 64 + low6 c3, 4)
              | [] \<Rightarrow> (RuneError, 1))
          | [] \<Rightarrow> (RuneError, 1))
      | _ \<Rightarrow> (RuneError, 1))"

lemma DecodeRune_width: "s \<noteq> [] \<Longrightarrow> 0 < snd (DecodeRune s)"
  by (cases s) (auto split: list.splits option.splits)

section \<open>strconv.Quote\<close>

definition lower_hex :: "nat \<Rightarrow> char" where
  "lower_hex d = char_of (if d < 10 then 48 + d else 87 + d)"

text \<open>The last \<open>k\<close> hexadecimal digits.\<close>

fun hex_digits :: "nat \<Rightarrow> nat \<Rightarrow> string" where
  "hex_digits 0 n = []"
| "hex_digits (Suc k) n = hex_digits k (n div 16) @ [lower_hex (n mod 16)]"

definition IsPrint :: "(nat \<Rightarrow> bool) \<Rightarrow> nat \<Rightarrow> bool" where
  "IsPrint printable r = (if r < 128 then 32 \<le> r \<and> r < 127 else printable r)"

definition escape :: "string \<Rightarrow> string" where
  "escape s = CHR 92 # s"

definition quote_rune :: "(nat \<Rightarrow> bool) \<Rightarrow> nat \<Rightarrow> string \<Rightarrow> string" where
  "quote_rune printable r bytes =
     (if r = 34 \<or> r = 92 then escape bytes
      else if IsPrint printable r then bytes
      else if r = 7 then escape ''a''
      else if r = 8 then escape ''b''
      else if r = 12 then escape ''f''
      else if r = 10 then escape ''n''
      else if r = 13 then escape ''r''
      else if r = 9 then escape ''t''
      else if r = 11 then escape ''v''
      else if r < 32 \<or> r = 127 then escape (''x'' @ hex_digits 2 r)
      else if r < 65536 then escape (''u'' @ hex_digits 4 r)
      else escape (''U'' @ hex_digits 8 r))"

function quote_runes :: "(nat \<Rightarrow> bool) \<Rightarrow> string \<Rightarrow> string" where
  "quote_runes printable [] = []"
| "quote_runes printable (c # cs) =
     (let (r, width) = DecodeRune (c # cs)
      in (if width = 1 \<and> r = RuneError then escape (''x'' @ hex_digits 2 (of_char c))
          else quote_rune printable r (take width (c # cs))) @
         quote_runes printable (drop width (c # cs)))"
  by pat_completeness auto
termination
proof (relation "measure (\<lambda>(p, s). length s)")
  fix printable c cs x r width
  assume "x = DecodeRune (c # cs)" and "(r, width) = x"
  then have "0 < width" using DecodeRune_width [of "c # cs"] by (metis list.distinct(1) snd_conv)
  then show "((printable, drop width (c # cs)), printable, c # cs) \<in> measure (\<lambda>(p, s). length s)"
    by simp
qed simp

definition Quote :: "(nat \<Rightarrow> bool) \<Rightarrow> string \<Rightarrow> string" where
  "Quote printable s = [CHR 34] @ quote_runes printable s @ [CHR 34]"

text \<open>No control character of the input, in particular no line break, reaches the quoted text.\<close>

definition is_control :: "char \<Rightarrow> bool" where
  "is_control c = (of_char c < (32 :: nat) \<or> of_char c = (127 :: nat))"

lemma hex_digits_no_control: "c \<in> set (hex_digits k n) \<Longrightarrow> \<not> is_control c"
proof (induction k arbitrary: n)
  case (Suc k)
  have "\<not> is_control (lower_hex d)" if "d < 16" for d
    using that by (auto simp: is_control_def lower_hex_def)
  with Suc show ?case by auto
qed simp

lemma escape_no_control: "list_all (\<lambda>c. \<not> is_control c) s \<Longrightarrow> list_all (\<lambda>c. \<not> is_control c) (escape s)"
  by (simp add: escape_def is_control_def)

lemma DecodeRune_bytes:
  assumes "DecodeRune (c # cs) = (r, width)" and "\<not> (width = 1 \<and> r = RuneError)"
  shows "r < 128 \<and> width = 1 \<and> of_char c = r \<or> (\<forall>b \<in> set (take width (c # cs)). (128 :: nat) \<le> of_char b)"
  using assms
  by (auto simp: between_def lead_byte_def split: if_splits list.splits option.splits prod.splits)

lemma quote_rune_no_control:
  assumes "DecodeRune (c # cs) = (r, width)" and "\<not> (width = 1 \<and> r = RuneError)"
  shows "list_all (\<lambda>c. \<not> is_control c) (quote_rune printable r (take width (c # cs)))"
proof (cases "r = 34 \<or> r = 92 \<or> IsPrint printable r")
  case True
  then have "list_all (\<lambda>c. \<not> is_control c) (take width (c # cs))"
    using DecodeRune_bytes [OF assms]
    by (fastforce simp: is_control_def IsPrint_def list_all_iff)
  with True escape_no_control show ?thesis by (auto simp: quote_rune_def)
next
  case False
  then show ?thesis
    by (auto simp: quote_rune_def list_all_iff escape_def hex_digits_no_control)
       (auto simp: is_control_def)
qed

lemma quote_runes_no_control: "list_all (\<lambda>c. \<not> is_control c) (quote_runes printable s)"
proof (induction printable s rule: quote_runes.induct)
  case (2 printable c cs)
  obtain r width where rw: "DecodeRune (c # cs) = (r, width)" by force
  have "list_all (\<lambda>c. \<not> is_control c) (escape (''x'' @ hex_digits 2 (of_char c)))"
    by (auto simp: list_all_iff escape_def hex_digits_no_control) (simp_all add: is_control_def)
  with quote_rune_no_control [OF rw, of printable] 2 [OF rw [symmetric] refl] rw show ?case
    by (auto simp del: hex_digits.simps)
qed simp

lemma Quote_no_control: "c \<in> set (Quote printable s) \<Longrightarrow> \<not> is_control c"
  using quote_runes_no_control [of printable s]
  by (auto simp: Quote_def list_all_iff is_control_def)

end
