(* ===== verification/Sigstore_Verifier.thy ===== *)
theory Sigstore_Verifier
  imports Provider_Ifaces "HOL-Library.Multiset"
begin

text \<open>
  Signature verification (pkg/verifier/verifier.go and multi.go). The Sigstore library (trusted
  roots, bundles and the cryptographic verification) is a record of functions; pointers that may be
  nil are options.
\<close>

section \<open>encoding/hex\<close>

definition nil_dereference :: string where
  "nil_dereference = ''runtime error: invalid memory address or nil pointer dereference''"

definition hex_digit :: "char \<Rightarrow> nat option" where
  "hex_digit c =
     (let n = of_char c :: nat
      in if 48 \<le> n \<and> n \<le> 57 then Some (n - 48)
         else if 97 \<le> n \<and> n \<le> 102 then Some (n - 87)
         else if 65 \<le> n \<and> n \<le> 70 then Some (n - 55)
         else None)"

definition upper_hex :: "nat \<Rightarrow> char" where
  "upper_hex d = char_of (if d < 10 then 48 + d else 55 + d)"

text \<open>
  \<^verbatim>\<open>InvalidByteError\<close>: the byte in Go's \<^verbatim>\<open>%#U\<close> format, with the character itself (in UTF-8) when it
  is printable.
\<close>

definition invalid_byte_error :: "char \<Rightarrow> go_error" where
  "invalid_byte_error c =
     (let n = of_char c :: nat;
          shown = (if n < 128 then [c] else [char_of (192 + n div 64), char_of (128 + n mod 64)])
      in ErrorString (''encoding/hex: invalid byte: U+00'' @ [upper_hex (n div 16), upper_hex (n mod 16)] @
           (if 32 \<le> n \<and> n \<le> 126 \<or> 161 \<le> n \<and> n \<noteq> 173 then '' '' @ [CHR 39] @ shown @ [CHR 39] else '''')))"

fun hex_DecodeString :: "string \<Rightarrow> string result" where
  "hex_DecodeString [] = Inr []"
| "hex_DecodeString [c] =
     (case hex_digit c of
        None \<Rightarrow> Inl (invalid_byte_error c)
      | Some _ \<Rightarrow> Inl (ErrorString ''encoding/hex: odd length hex string''))"
| "hex_DecodeString (c # d # s) =
     (case hex_digit c of
        None \<Rightarrow> Inl (invalid_byte_error c)
      | Some a \<Rightarrow>
     (case hex_digit d of
        None \<Rightarrow> Inl (invalid_byte_error d)
      | Some b \<Rightarrow>
     (case hex_DecodeString s of
        Inl err \<Rightarrow> Inl err
      | Inr bytes \<Rightarrow> Inr (char_of (16 * a + b) # bytes))))"

section \<open>The Sigstore library\<close>

datatype VerifierOption =
    WithSignedCertificateTimestamps int
  | WithTransparencyLog int
  | WithObserverTimestamps int
  | WithSignedTimestamps int

datatype ArtifactPolicyOption = WithArtifactDigest string string

datatype PolicyOption = WithoutIdentitiesUnsafe

datatype PolicyBuilder = NewPolicy ArtifactPolicyOption "PolicyOption list"

record tuf_Options =
  Root :: string
  RepositoryBaseURL :: string
  DisableLocalCache :: bool

text \<open>
  \<open>'m\<close> is trusted material, \<open>'sv\<close> a Sigstore verifier, \<open>'b\<close> a bundle, \<open>'v\<close> a verification result.
  The verification returns a possibly nil result and a possibly nil error.
\<close>

record ('x, 'm, 'sv, 'b, 'v) Sigstore =
  DefaultRoot :: string
  NewLiveTrustedRootFromTarget :: "tuf_Options \<Rightarrow> string \<Rightarrow> ('x, 'm result) outside"
  NewVerifier :: "'m \<Rightarrow> VerifierOption list \<Rightarrow> 'sv result"
  sv_Verify :: "'sv \<Rightarrow> 'b \<Rightarrow> PolicyBuilder \<Rightarrow> ('x, 'v option \<times> go_error option) outside"

record Subject =
  GetName :: string
  GetDigest :: "(string \<times> string) list"

text \<open>
  Access to a bundle's statement; each step may panic on malformed content. A Go map is an
  association list with distinct keys, in the order in which it happens to be iterated.
\<close>

record ('b, 'sc, 'ec) BundleApi =
  nil_bundle :: "'b \<Rightarrow> bool"
  SignatureContent :: "'b \<Rightarrow> 'sc option result go"
  EnvelopeContent :: "'sc \<Rightarrow> 'ec option go"
  Statement :: "'ec \<Rightarrow> Subject option list option result go"

section \<open>Construction\<close>

record 'm Verifier =
  v_tr :: 'm
  v_vo :: "VerifierOption list"

definition tufRootPGI :: string where "tufRootPGI = ''https://tuf-repo-cdn.sigstore.dev''"
definition tufRootGH :: string where "tufRootGH = ''https://tuf-repo.github.com''"
definition defaultTR :: string where "defaultTR = ''trusted_root.json''"
definition maxBundleSubjects :: nat where "maxBundleSubjects = 5"

definition New ::
  "('x, 'm, 'sv, 'b, 'v) Sigstore \<Rightarrow> string \<Rightarrow> string \<Rightarrow> string \<Rightarrow> VerifierOption list \<Rightarrow> 'x world \<Rightarrow>
   'm Verifier result \<times> 'x world" where
  "New S rb tr tgt vo w =
     (case call (NewLiveTrustedRootFromTarget S
             \<lparr>Root = rb, RepositoryBaseURL = tr, DisableLocalCache = True\<rparr> tgt) w of
        (Inl err, w) \<Rightarrow> (Inl err, w)
      | (Inr m, w) \<Rightarrow> (Inr \<lparr>v_tr = m, v_vo = vo\<rparr>, w))"

definition PGIVerifier :: "('x, 'm, 'sv, 'b, 'v) Sigstore \<Rightarrow> 'x world \<Rightarrow> 'm Verifier result \<times> 'x world" where
  "PGIVerifier S w =
     New S (DefaultRoot S) tufRootPGI defaultTR
       [WithSignedCertificateTimestamps 1, WithTransparencyLog 1, WithObserverTimestamps 1] w"

text \<open>\<open>githubRoot\<close> is the TUF root file embedded at build time.\<close>

definition GHVerifier ::
  "('x, 'm, 'sv, 'b, 'v) Sigstore \<Rightarrow> string \<Rightarrow> string \<Rightarrow> 'x world \<Rightarrow> 'm Verifier result \<times> 'x world" where
  "GHVerifier S githubRoot td w =
     New S githubRoot tufRootGH
       (if td = '''' \<or> td = ''dotcom'' then defaultTR else td @ ''.'' @ defaultTR)
       [WithSignedTimestamps 1] w"

section \<open>The subjects of a bundle, for the log\<close>

definition subject_line :: "Subject \<Rightarrow> string" where
  "subject_line s =
     (if GetDigest s = [] then GetName s @ '': <no digest>''
      else
        (let algs = sort (map fst (GetDigest s));
             pairs = map (\<lambda>alg. alg @ ''='' @ (case map_of (GetDigest s) alg of None \<Rightarrow> '''' | Some d \<Rightarrow> d)) algs
         in GetName s @ '': '' @ Join pairs '', ''))"

definition cap_subjects :: "string list \<Rightarrow> string list" where
  "cap_subjects subjects =
     (if maxBundleSubjects < length subjects
      then take maxBundleSubjects subjects @
        [''... and '' @ Itoa (int (length subjects) - int maxBundleSubjects) @ '' more subjects'']
      else subjects)"

text \<open>The body of \<^verbatim>\<open>bundleSubjects\<close>, before the deferred \<^verbatim>\<open>recover\<close>.\<close>

definition bundleSubjects_body ::
  "('b, 'sc, 'ec) BundleApi \<Rightarrow> 'b \<Rightarrow> (string list option \<times> go_error option) go" where
  "bundleSubjects_body B b =
     (if nil_bundle B b then Ret (None, Some (ErrorString ''nil bundle''))
      else case SignatureContent B b of
        Panic m \<Rightarrow> Panic m
      | Ret (Inl err) \<Rightarrow> Ret (None, Some err)
      | Ret (Inr None) \<Rightarrow> Ret (None, Some (ErrorString ''bundle does not contain signature content''))
      | Ret (Inr (Some sc)) \<Rightarrow>
     (case EnvelopeContent B sc of
        Panic m \<Rightarrow> Panic m
      | Ret None \<Rightarrow> Ret (None, Some (ErrorString ''bundle does not contain dsse envelope''))
      | Ret (Some ec) \<Rightarrow>
     (case Statement B ec of
        Panic m \<Rightarrow> Panic m
      | Ret (Inl err) \<Rightarrow> Ret (None, Some err)
      | Ret (Inr statement) \<Rightarrow>
          (if statement = None \<or> statement = Some [] then Ret (Some [], None)
           else Ret (Some (cap_subjects (map subject_line (somes (the statement)))), None)))))"

definition bundleSubjects ::
  "('b, 'sc, 'ec) BundleApi \<Rightarrow> 'b \<Rightarrow> string list option \<times> go_error option" where
  "bundleSubjects B b =
     (case bundleSubjects_body B b of
        Ret x \<Rightarrow> x
      | Panic m \<Rightarrow> (None, Some (ErrorString (''panic extracting bundle subjects: '' @ m))))"

section \<open>Verification\<close>

definition image_policy :: "Hash \<Rightarrow> string \<Rightarrow> PolicyBuilder" where
  "image_policy h digest = NewPolicy (WithArtifactDigest (Algorithm h) digest) [WithoutIdentitiesUnsafe]"

definition VerifyOne ::
  "('x, 'm, 'sv, 'b, 'v) Sigstore \<Rightarrow> 'm Verifier \<Rightarrow> 'b \<Rightarrow> Hash option \<Rightarrow> 'x world \<Rightarrow>
   ('v option \<times> go_error option) go \<times> 'x world" where
  "VerifyOne S v b h w =
     (case NewVerifier S (v_tr v) (v_vo v) of
        Inl err \<Rightarrow> (Ret (None, Some err), w)
      | Inr sv \<Rightarrow>
     (case h of
        None \<Rightarrow> (Panic nil_dereference, w)
      | Some h \<Rightarrow>
     (case hex_DecodeString (Hex h) of
        Inl err \<Rightarrow> (Ret (None, Some err), w)
      | Inr digest \<Rightarrow>
          (case call (sv_Verify S sv b (image_policy h digest)) w of (r, w) \<Rightarrow> (Ret r, w)))))"

text \<open>The log line of a bundle that did not verify; it reads the digest of the image.\<close>

definition log_unverified ::
  "string \<Rightarrow> ('b, 'sc, 'ec) BundleApi \<Rightarrow> 'b \<Rightarrow> Hash option \<Rightarrow> go_error option \<Rightarrow> 'x world \<Rightarrow>
   unit go \<times> 'x world" where
  "log_unverified msg B b h err w =
     (let (subjects, subjectsErr) = bundleSubjects B b
      in case h of
        None \<Rightarrow> (Panic nil_dereference, w)
      | Some h \<Rightarrow>
          (Ret (), slog LevelError msg
            ([(''image_digest'', LStr (Hex h)), (''error'', LErr err), (''bundle_subjects'', LStrs subjects)] @
             (if subjectsErr \<noteq> None then [(''bundle_subjects_error'', LErr subjectsErr)] else [])) w))"

fun Verify_loop ::
  "('x, 'm, 'sv, 'b, 'v) Sigstore \<Rightarrow> ('b, 'sc, 'ec) BundleApi \<Rightarrow> 'm Verifier \<Rightarrow> Hash option \<Rightarrow>
   'b list \<Rightarrow> 'v option list \<Rightarrow> 'x world \<Rightarrow> 'v option list go \<times> 'x world" where
  "Verify_loop S B v h [] res w = (Ret res, w)"
| "Verify_loop S B v h (b # bs) res w =
     (case VerifyOne S v b h w of
        (Panic m, w) \<Rightarrow> (Panic m, w)
      | (Ret (r, None), w) \<Rightarrow> Verify_loop S B v h bs (res @ [r]) w
      | (Ret (r, Some err), w) \<Rightarrow>
          (case log_unverified ''failed to verify signature'' B b h (Some err) w of
             (Panic m, w) \<Rightarrow> (Panic m, w)
           | (Ret _, w) \<Rightarrow> Verify_loop S B v h bs res w))"

definition returned :: "'a go \<times> 'w \<Rightarrow> 'a result go \<times> 'w" where
  "returned x = (case x of (Ret a, w) \<Rightarrow> (Ret (Inr a), w) | (Panic m, w) \<Rightarrow> (Panic m, w))"

definition Verify ::
  "('x, 'm, 'sv, 'b, 'v) Sigstore \<Rightarrow> ('b, 'sc, 'ec) BundleApi \<Rightarrow> 'm Verifier \<Rightarrow> ('x, 'b, 'v option) verify_op" where
  "Verify S B v bundles h w = returned (Verify_loop S B v h bundles [] w)"

section \<open>Several trust roots\<close>

definition NewMulti :: "'m Verifier list \<Rightarrow> 'm Verifier list" where
  "NewMulti v = v"

text \<open>
  The inner loop over the trust roots: whether one of them verified the bundle, and the loop's
  variables \<^verbatim>\<open>r\<close> and \<^verbatim>\<open>err\<close> after it.
\<close>

fun try_verifiers ::
  "('x, 'm, 'sv, 'b, 'v) Sigstore \<Rightarrow> 'm Verifier list \<Rightarrow> 'b \<Rightarrow> Hash option \<Rightarrow> 'v option \<Rightarrow>
   go_error option \<Rightarrow> 'x world \<Rightarrow> (bool \<times> 'v option \<times> go_error option) go \<times> 'x world" where
  "try_verifiers S [] b h r err w = (Ret (False, r, err), w)"
| "try_verifiers S (v # vs) b h r err w =
     (case VerifyOne S v b h w of
        (Panic m, w) \<Rightarrow> (Panic m, w)
      | (Ret (r, None), w) \<Rightarrow> (Ret (True, r, None), w)
      | (Ret (r, Some e), w) \<Rightarrow> try_verifiers S vs b h r (Some e) w)"

fun Multi_loop ::
  "('x, 'm, 'sv, 'b, 'v) Sigstore \<Rightarrow> ('b, 'sc, 'ec) BundleApi \<Rightarrow> 'm Verifier list \<Rightarrow> Hash option \<Rightarrow>
   'b list \<Rightarrow> 'v option list \<Rightarrow> go_error option \<Rightarrow> 'x world \<Rightarrow> 'v option list go \<times> 'x world" where
  "Multi_loop S B V h [] res err w = (Ret res, w)"
| "Multi_loop S B V h (b # bs) res err w =
     (case try_verifiers S V b h None err w of
        (Panic m, w) \<Rightarrow> (Panic m, w)
      | (Ret (verified, r, err), w) \<Rightarrow>
          (let res = (if verified then res @ [r] else res)
           in if r = None then
                (case log_unverified ''multi: verifying signature failed'' B b h err w of
                   (Panic m, w) \<Rightarrow> (Panic m, w)
                 | (Ret _, w) \<Rightarrow> Multi_loop S B V h bs res err w)
              else Multi_loop S B V h bs res err w))"

definition Multi_Verify ::
  "('x, 'm, 'sv, 'b, 'v) Sigstore \<Rightarrow> ('b, 'sc, 'ec) BundleApi \<Rightarrow> 'm Verifier list \<Rightarrow> ('x, 'b, 'v option) verify_op" where
  "Multi_Verify S B V bundles h w = returned (Multi_loop S B V h bundles [] None w)"

section \<open>Facts about one bundle\<close>

lemma VerifyOne_cases:
  fixes S :: "('x, 'm, 'sv, 'b, 'v) Sigstore"
  obtains (verified) r w' where "VerifyOne S v b (Some h) w = (Ret (r, None), w')"
  | (failed) r e w' where "VerifyOne S v b (Some h) w = (Ret (r, Some e), w')"
proof -
  have "\<exists>y w'. VerifyOne S v b (Some h) w = (Ret y, w')"
    by (simp add: VerifyOne_def split: sum.split prod.split)
  then obtain y w' where y: "VerifyOne S v b (Some h) w = (Ret y, w')" by blast
  show thesis
  proof (cases y)
    case (Pair r oe)
    with y that show ?thesis by (cases oe) auto
  qed
qed

lemma VerifyOne_metrics: "VerifyOne S v b h w = (r, w') \<Longrightarrow> metrics w' = metrics w"
  by (auto simp: VerifyOne_def dest: call_frame split: sum.splits option.splits prod.splits)

lemma call_same_outside:
  assumes "same_outside w u" "call f w = (r, w')"
  obtains u' where "call f u = (r, u')" "same_outside w' u'"
  using assms by (auto simp: call_def same_outside_def split: prod.splits)

lemma VerifyOne_same_outside:
  assumes same: "same_outside w u" and run: "VerifyOne S v b h w = (r, w')"
  obtains u' where "VerifyOne S v b h u = (r, u')" "same_outside w' u'"
proof (cases "NewVerifier S (v_tr v) (v_vo v)")
  case (Inr sv)
  show thesis
  proof (cases h)
    case (Some hh)
    show thesis
    proof (cases "hex_DecodeString (Hex hh)")
      case (Inr digest)
      from run Some Inr \<open>NewVerifier _ _ _ = Inr sv\<close> obtain y
        where y: "call (sv_Verify S sv b (image_policy hh digest)) w = (y, w')" "r = Ret y"
        by (auto simp: VerifyOne_def split: prod.splits)
      from call_same_outside [OF same y(1)] obtain u'
        where "call (sv_Verify S sv b (image_policy hh digest)) u = (y, u')" "same_outside w' u'" .
      with that Some Inr \<open>NewVerifier _ _ _ = Inr sv\<close> y show ?thesis by (simp add: VerifyOne_def)
    qed (use that same run Some Inr in \<open>auto simp: VerifyOne_def\<close>)
  qed (use that same run Inr in \<open>auto simp: VerifyOne_def\<close>)
qed (use that same run in \<open>auto simp: VerifyOne_def\<close>)

lemma log_unverified_some:
  obtains l where "log_unverified msg B b (Some h) err w = (Ret (), w\<lparr>logs := logs w @ [l]\<rparr>)"
  by (cases "bundleSubjects B b") (auto simp: log_unverified_def slog_def)

lemma log_unverified_none: "log_unverified msg B b None err w = (Panic nil_dereference, w)"
  by (simp add: log_unverified_def)

text \<open>
  What it means that a trust root accepts a bundle for an image: the Sigstore verifier built from the
  root's material and options verified the bundle, without an error, against a policy that is bound
  to the bytes of the image's digest.
\<close>

definition accepts ::
  "('x, 'm, 'sv, 'b, 'v) Sigstore \<Rightarrow> 'm Verifier \<Rightarrow> 'b \<Rightarrow> Hash \<Rightarrow> 'v option \<Rightarrow> bool" where
  "accepts S v b h r \<longleftrightarrow>
     (\<exists>sv digest t x t' x'. NewVerifier S (v_tr v) (v_vo v) = Inr sv \<and>
        hex_DecodeString (Hex h) = Inr digest \<and>
        sv_Verify S sv b (NewPolicy (WithArtifactDigest (Algorithm h) digest) [WithoutIdentitiesUnsafe]) t x =
          ((r, None), t', x'))"

definition rejects :: "('x, 'm, 'sv, 'b, 'v) Sigstore \<Rightarrow> 'm Verifier \<Rightarrow> 'b \<Rightarrow> Hash \<Rightarrow> bool" where
  "rejects S v b h \<longleftrightarrow> (\<exists>w r e w'. VerifyOne S v b (Some h) w = (Ret (r, Some e), w'))"

lemma VerifyOne_accepts:
  "VerifyOne S v b (Some h) w = (Ret (r, None), w') \<Longrightarrow> accepts S v b h r"
  unfolding accepts_def
  by (fastforce simp: VerifyOne_def image_policy_def call_def split: sum.splits prod.splits)

lemma VerifyOne_rejects:
  "VerifyOne S v b (Some h) w = (Ret (r, Some e), w') \<Longrightarrow> rejects S v b h"
  by (auto simp: rejects_def)

text \<open>
  The verdict on one bundle: the result of the first trust root, in order, that accepts it, or
  nothing when every root rejects it.
\<close>

fun bundle_verdict ::
  "('x, 'm, 'sv, 'b, 'v) Sigstore \<Rightarrow> 'm Verifier list \<Rightarrow> Hash \<Rightarrow> 'b \<Rightarrow> 'v option option \<Rightarrow> bool" where
  "bundle_verdict S V h b None \<longleftrightarrow> (\<forall>v \<in> set V. rejects S v b h)"
| "bundle_verdict S V h b (Some r) \<longleftrightarrow>
     (\<exists>i < length V. accepts S (V ! i) b h r \<and> (\<forall>j < i. rejects S (V ! j) b h))"

lemma bundle_verdict_Cons:
  "accepts S v b h r \<Longrightarrow> bundle_verdict S (v # V) h b (Some r)"
  "rejects S v b h \<Longrightarrow> bundle_verdict S V h b verdict \<Longrightarrow> bundle_verdict S (v # V) h b verdict"
proof -
  show "rejects S v b h \<Longrightarrow> bundle_verdict S V h b verdict \<Longrightarrow> bundle_verdict S (v # V) h b verdict"
  proof (cases verdict)
    case (Some r)
    assume rej: "rejects S v b h" and "bundle_verdict S V h b verdict"
    with Some obtain i where "i < length V" "accepts S (V ! i) b h r" "\<forall>j < i. rejects S (V ! j) b h"
      by auto
    with rej Some show ?thesis
      by (auto simp: nth_Cons split: nat.splits intro!: exI [of _ "Suc i"])
  qed auto
qed (auto intro!: exI [of _ 0])

lemma try_verifiers_verdict:
  obtains ok r e w' where "try_verifiers S V b (Some h) r0 e0 w = (Ret (ok, r, e), w')"
    and "bundle_verdict S V h b (if ok then Some r else None)" and "metrics w' = metrics w"
    and "V = [] \<Longrightarrow> \<not> ok \<and> r = r0"
proof -
  have "\<exists>ok r e w'. try_verifiers S V b (Some h) r0 e0 w = (Ret (ok, r, e), w') \<and>
    bundle_verdict S V h b (if ok then Some r else None) \<and> metrics w' = metrics w \<and>
    (V = [] \<longrightarrow> \<not> ok \<and> r = r0)"
  proof (induction V arbitrary: r0 e0 w)
    case (Cons v V)
    show ?case
    proof (cases S v b h w rule: VerifyOne_cases)
      case (verified r w')
      then show ?thesis
        using bundle_verdict_Cons(1) [OF VerifyOne_accepts [OF verified]] VerifyOne_metrics [OF verified]
        by auto
    next
      case (failed r e w')
      from Cons.IH [of r "Some e" w'] obtain ok r1 e1 w1 where
        "try_verifiers S V b (Some h) r (Some e) w' = (Ret (ok, r1, e1), w1)"
        "bundle_verdict S V h b (if ok then Some r1 else None)" "metrics w1 = metrics w'" by blast
      then show ?thesis
        using failed bundle_verdict_Cons(2) [OF VerifyOne_rejects [OF failed]] VerifyOne_metrics [OF failed]
        by (intro exI [of _ ok] exI [of _ r1] exI [of _ e1] exI [of _ w1])
           (simp del: bundle_verdict.simps)
    qed
  qed (auto intro!: exI [of _ False])
  then show thesis using that by blast
qed

section \<open>Verification of a set of bundles\<close>

lemma Multi_loop_verdicts:
  "\<exists>verdicts w'. Multi_loop S B V (Some h) bs res err w = (Ret (res @ somes verdicts), w') \<and>
     list_all2 (bundle_verdict S V h) bs verdicts \<and> metrics w' = metrics w"
proof (induction bs arbitrary: res err w)
  case (Cons b bs)
  obtain ok r e w1 where t: "try_verifiers S V b (Some h) None err w = (Ret (ok, r, e), w1)"
    "bundle_verdict S V h b (if ok then Some r else None)" "metrics w1 = metrics w"
    by (rule try_verifiers_verdict)
  obtain l where l: "log_unverified ''multi: verifying signature failed'' B b (Some h) e w1 =
      (Ret (), w1\<lparr>logs := logs w1 @ [l]\<rparr>)"
    by (rule log_unverified_some)
  let ?res = "if ok then res @ [r] else res"
  let ?w = "if r = None then w1\<lparr>logs := logs w1 @ [l]\<rparr> else w1"
  from Cons [of ?res e ?w] obtain verdicts w' where
    v: "Multi_loop S B V (Some h) bs ?res e ?w = (Ret (?res @ somes verdicts), w')"
      "list_all2 (bundle_verdict S V h) bs verdicts" "metrics w' = metrics ?w" by blast
  have "Multi_loop S B V (Some h) (b # bs) res err w = Multi_loop S B V (Some h) bs ?res e ?w"
    using t(1) l by (simp add: Let_def)
  with v t show ?case
    by (intro exI [of _ "(if ok then Some r else None) # verdicts"] exI [of _ w'])
       simp
qed simp

lemma Verify_loop_verdicts:
  "\<exists>verdicts w'. Verify_loop S B v (Some h) bs res w = (Ret (res @ somes verdicts), w') \<and>
     list_all2 (bundle_verdict S [v] h) bs verdicts \<and> metrics w' = metrics w"
proof (induction bs arbitrary: res w)
  case (Cons b bs)
  show ?case
  proof (cases S v b h w rule: VerifyOne_cases)
    case (verified r w1)
    from Cons [of "res @ [r]" w1] obtain verdicts w' where
      "Verify_loop S B v (Some h) bs (res @ [r]) w1 = (Ret (res @ r # somes verdicts), w')"
      "list_all2 (bundle_verdict S [v] h) bs verdicts" "metrics w' = metrics w1" by auto
    with verified VerifyOne_metrics [OF verified] VerifyOne_accepts [OF verified] show ?thesis
      by (intro exI [of _ "Some r # verdicts"] exI [of _ w']) simp
  next
    case (failed r e w1)
    obtain l where l: "log_unverified ''failed to verify signature'' B b (Some h) (Some e) w1 =
        (Ret (), w1\<lparr>logs := logs w1 @ [l]\<rparr>)"
      by (rule log_unverified_some)
    from Cons [of res "w1\<lparr>logs := logs w1 @ [l]\<rparr>"] obtain verdicts w' where
      "Verify_loop S B v (Some h) bs res (w1\<lparr>logs := logs w1 @ [l]\<rparr>) =
         (Ret (res @ somes verdicts), w')"
      "list_all2 (bundle_verdict S [v] h) bs verdicts" "metrics w' = metrics w1" by auto
    with failed l VerifyOne_metrics [OF failed] VerifyOne_rejects [OF failed] show ?thesis
      by (intro exI [of _ "None # verdicts"] exI [of _ w']) simp
  qed
qed simp

text \<open>
  C7. The verifier with several trust roots: for an image digest it returns on every set of bundles,
  never with an error, and its results are exactly, in order, those of the bundles that some trust
  root accepts; each is the result of the first root, in configuration order, that accepts the
  bundle, for a policy bound to the bytes of the image's digest. A bundle without a result was
  rejected by every root.
\<close>

theorem Multi_Verify_verdicts:
  "\<exists>verdicts w'. Multi_Verify S B V bundles (Some h) w = (Ret (Inr (somes verdicts)), w') \<and>
     list_all2 (bundle_verdict S V h) bundles verdicts"
  using Multi_loop_verdicts [of S B V h bundles "[]" None w]
  by (auto simp: Multi_Verify_def returned_def)

text \<open>The results of the multi verifier: one accepted bundle behind each.\<close>

lemma Multi_Verify_accepted:
  assumes "Multi_Verify S B V bs (Some h) w = (Ret (Inr res), w')" and "r \<in> set res"
  obtains b v where "b \<in> set bs" "v \<in> set V" "accepts S v b h r"
proof -
  from Multi_loop_verdicts [of S B V h bs "[]" None w] assms(1) obtain verdicts
    where "res = somes verdicts" "list_all2 (bundle_verdict S V h) bs verdicts"
    by (auto simp: Multi_Verify_def returned_def)
  moreover from this(1) assms(2) have "Some r \<in> set verdicts" by (simp add: set_somes)
  ultimately obtain b where "b \<in> set bs" "bundle_verdict S V h b (Some r)"
    by (blast elim: list_all2_in2)
  then show thesis using that by (auto dest: nth_mem)
qed

text \<open>Without a digest the first bundle makes the verification panic.\<close>

lemma VerifyOne_None:
  "VerifyOne S v b None w = (Panic nil_dereference, w) \<or> (\<exists>e. VerifyOne S v b None w = (Ret (None, Some e), w))"
  by (simp add: VerifyOne_def split: sum.split)

lemma try_verifiers_None:
  "try_verifiers S V b None None e w = (Panic nil_dereference, w) \<or>
   (\<exists>e'. try_verifiers S V b None None e w = (Ret (False, None, e'), w))"
proof (induction V arbitrary: e)
  case (Cons v V)
  from VerifyOne_None [of S v b w] show ?case
  proof
    assume "\<exists>e. VerifyOne S v b None w = (Ret (None, Some e), w)"
    then obtain e' where "VerifyOne S v b None w = (Ret (None, Some e'), w)" ..
    with Cons [of "Some e'"] show ?thesis by simp
  qed simp
qed simp

lemma Multi_loop_None: "Multi_loop S B V None (b # bs) res e w = (Panic nil_dereference, w)"
  using try_verifiers_None [of S V b e w] by (auto simp: log_unverified_none)

lemma Multi_Verify_None: "Multi_Verify S B V (b # bs) None w = (Panic nil_dereference, w)"
  by (simp add: Multi_Verify_def Multi_loop_None returned_def del: Multi_loop.simps)

lemma Verify_loop_None: "Verify_loop S B v None (b # bs) res w = (Panic nil_dereference, w)"
  using VerifyOne_None [of S v b w] by (auto simp: log_unverified_none)

text \<open>The contract of both verifiers, from the verdicts on their bundles.\<close>

lemma loop_contract:
  assumes some: "\<And>h bs w. \<exists>verdicts w'. loop (Some h) bs w = (Ret (somes verdicts), w') \<and>
      list_all2 (P h) bs verdicts \<and> metrics w' = metrics w"
    and none: "\<And>b bs w. loop None (b # bs) w = (Panic nil_dereference, w)"
    and empty: "\<And>w. loop None [] w = (Ret [], w)"
  shows "bundle_verifier (\<lambda>bs h w. returned (loop h bs w))"
proof
  fix h :: "Hash option" and bs w
  assume "h \<noteq> None"
  then show "\<exists>r w'. returned (loop h bs w) = (Ret r, w')"
    using some [of "the h" bs w] by (auto simp: returned_def)
next
  fix h bs w res w'
  assume run: "returned (loop h bs w) = (Ret (Inr res), w')"
  show "length res \<le> length bs"
  proof (cases h)
    case None
    with run none empty show ?thesis by (cases bs) (auto simp: returned_def)
  next
    case (Some hh)
    with run some [of hh bs w] show ?thesis
      by (auto simp: returned_def length_somes dest!: list_all2_lengthD)
  qed
next
  fix h bs w r w'
  assume run: "returned (loop h bs w) = (r, w')"
  show "metrics w' = metrics w"
  proof (cases h)
    case None
    with run none empty show ?thesis by (cases bs) (auto simp: returned_def)
  next
    case (Some hh)
    with run some [of hh bs w] show ?thesis by (auto simp: returned_def)
  qed
qed

interpretation multi_verifier: bundle_verifier "Multi_Verify S B V"
proof -
  have "bundle_verifier (\<lambda>bs h w. returned (Multi_loop S B V h bs [] None w))"
    by (rule loop_contract [where P = "bundle_verdict S V"])
       (use Multi_loop_verdicts [of S B V _ _ "[]" None] Multi_loop_None [of S B V] in auto)
  then show "bundle_verifier (Multi_Verify S B V)" by (simp add: Multi_Verify_def [abs_def])
qed

interpretation single_verifier: bundle_verifier "Verify S B v"
proof -
  have "bundle_verifier (\<lambda>bs h w. returned (Verify_loop S B v h bs [] w))"
    by (rule loop_contract [where P = "bundle_verdict S [v]"])
       (use Verify_loop_verdicts [of S B v _ _ "[]"] Verify_loop_None [of S B v] in auto)
  then show "bundle_verifier (Verify S B v)" by (simp add: Verify_def [abs_def])
qed

section \<open>One trust root\<close>

text \<open>
  What the library documents of a verification: a result exactly when there is no error.
\<close>

definition result_xor_error :: "('x, 'm, 'sv, 'b, 'v) Sigstore \<Rightarrow> bool" where
  "result_xor_error S \<longleftrightarrow>
     (\<forall>sv b p t x r e t' x'. sv_Verify S sv b p t x = ((r, e), t', x') \<longrightarrow> (r = None) = (e \<noteq> None))"

lemma call_result:
  assumes "result_xor_error S" "call (sv_Verify S sv b p) w = ((r, e), w')"
  shows "(r = None) = (e \<noteq> None)"
proof -
  obtain t' x' where "sv_Verify S sv b p (clock w) (ext w) = ((r, e), t', x')"
    using assms(2) by (auto simp: call_def split: prod.splits)
  with assms(1) show ?thesis unfolding result_xor_error_def by blast
qed

lemma VerifyOne_result:
  assumes "result_xor_error S" "VerifyOne S v b h w = (Ret (r, e), w')"
  shows "(r = None) = (e \<noteq> None)"
  using assms(2) call_result [OF assms(1)]
  by (simp add: VerifyOne_def split: sum.splits option.splits prod.splits) fastforce+

lemma same_outside_slog: "same_outside w u \<Longrightarrow> same_outside w (u\<lparr>logs := l\<rparr>)"
  "same_outside w u \<Longrightarrow> same_outside (w\<lparr>logs := l\<rparr>) u"
  by (simp_all add: same_outside_def)

lemma Multi_loop_single:
  assumes law: "result_xor_error S"
  shows "same_outside w u \<Longrightarrow> Verify_loop S B v h bs res w = (r, w') \<Longrightarrow>
    \<exists>u'. Multi_loop S B [v] h bs res e u = (r, u') \<and> same_outside w' u'"
proof (induction bs arbitrary: res e w u)
  case (Cons b bs)
  obtain y w1 where y: "VerifyOne S v b h w = (y, w1)" by force
  from VerifyOne_same_outside [OF Cons.prems(1) y] obtain u1
    where u1: "VerifyOne S v b h u = (y, u1)" "same_outside w1 u1" .
  show ?case
  proof (cases y)
    case (Panic m)
    with Cons.prems(2) y u1 show ?thesis by auto
  next
    case (Ret re)
    obtain rr ee where re: "re = (rr, ee)" by (cases re)
    note nil = VerifyOne_result [OF law, OF y [unfolded Ret re]]
    show ?thesis
    proof (cases ee)
      case None
      with nil Cons.prems(2) y u1 Ret re Cons.IH [OF u1(2), of "res @ [rr]" None] show ?thesis
        by (auto simp: Let_def)
    next
      case (Some err)
      with nil have "rr = None" by simp
      show ?thesis
      proof (cases h)
        case None
        with Cons.prems(2) y u1 Ret re Some \<open>rr = None\<close> show ?thesis
          by (auto simp: log_unverified_none)
      next
        case (Some hh)
        obtain l where l: "log_unverified ''failed to verify signature'' B b h ee w1 =
            (Ret (), w1\<lparr>logs := logs w1 @ [l]\<rparr>)"
          unfolding Some by (rule log_unverified_some)
        obtain l' where l': "log_unverified ''multi: verifying signature failed'' B b h ee u1 =
            (Ret (), u1\<lparr>logs := logs u1 @ [l']\<rparr>)"
          unfolding Some by (rule log_unverified_some)
        have "same_outside (w1\<lparr>logs := logs w1 @ [l]\<rparr>) (u1\<lparr>logs := logs u1 @ [l']\<rparr>)"
          using u1(2) by (simp add: same_outside_def)
        from Cons.IH [OF this, of res "Some err"] l l' Cons.prems(2) y u1(1) Ret re
          \<open>ee = Some err\<close> \<open>rr = None\<close> show ?thesis by simp
      qed
    qed
  qed
qed auto

text \<open>
  With one trust root the two verifiers agree: wrapping a verifier in a multi verifier changes
  neither the results (or the panic) nor the effect on the outside, only the text of the log line.
\<close>

theorem Multi_Verify_single:
  assumes "result_xor_error S"
  shows "fst (Multi_Verify S B (NewMulti [v]) bundles h w) = fst (Verify S B v bundles h w) \<and>
    same_outside (snd (Verify S B v bundles h w)) (snd (Multi_Verify S B (NewMulti [v]) bundles h w))"
proof -
  obtain r w' where r: "Verify_loop S B v h bundles [] w = (r, w')" by force
  from Multi_loop_single [OF assms _ r, of w None] obtain u'
    where "Multi_loop S B [v] h bundles [] None w = (r, u')" "same_outside w' u'"
    by (auto simp: same_outside_def)
  with r show ?thesis by (cases r) (simp_all add: Multi_Verify_def Verify_def NewMulti_def returned_def)
qed

section \<open>The logged subjects\<close>

text \<open>
  Logging the subjects of an untrusted bundle is safe and bounded: whatever the accessors of the
  bundle do, panic included, the function returns, either with an error and no subjects or with at
  most six lines.
\<close>

theorem bundleSubjects_bounded:
  "case bundleSubjects B b of
     (Some subjects, err) \<Rightarrow> err = None \<and> length subjects \<le> maxBundleSubjects + 1
   | (None, err) \<Rightarrow> err \<noteq> None"
  by (auto simp: bundleSubjects_def bundleSubjects_body_def cap_subjects_def Let_def
      split: go.splits sum.splits option.splits prod.splits if_splits)

text \<open>
  The logged line of a subject does not depend on the order in which the map of its digests is
  iterated.
\<close>

theorem subject_line_deterministic:
  assumes "distinct (map fst d)" and "mset d = mset d'"
  shows "subject_line \<lparr>GetName = n, GetDigest = d\<rparr> = subject_line \<lparr>GetName = n, GetDigest = d'\<rparr>"
proof -
  have "sort (map fst d) = sort (map fst d')"
    using assms(2) by (intro properties_for_sort) (simp_all add: mset_map)
  moreover have "map_of d = map_of d'"
    using assms by (metis distinct_map map_of_inject_set mset_eq_imp_distinct_iff mset_eq_setD mset_map)
  moreover have "d = [] \<longleftrightarrow> d' = []" using assms(2) by (metis mset_zero_iff)
  ultimately show ?thesis by (simp add: subject_line_def)
qed

section \<open>A concrete library\<close>

text \<open>
  Trusted material is the name of a signer, a bundle is a signer with the digest it signed and the
  algorithm, and a bundle verifies when both match the policy.
\<close>

type_synonym sample_bundle = "string \<times> string \<times> string"

definition sample_sigstore :: "(unit, string, string, sample_bundle, sample_bundle) Sigstore" where
  "sample_sigstore = \<lparr>
     DefaultRoot = ''root'',
     NewLiveTrustedRootFromTarget = (\<lambda>opts tgt t x.
       (if tgt = ''missing.trusted_root.json'' then Inl (ErrorString ''target not found'') else Inr tgt, t, x)),
     NewVerifier = (\<lambda>m vo. if vo = [] then Inl (ErrorString ''no options'') else Inr m),
     sv_Verify = (\<lambda>sv b p t x.
       (case p of NewPolicy (WithArtifactDigest alg digest) po \<Rightarrow>
          if b = (sv, alg, digest) then (Some b, None) else (None, Some (ErrorString ''no match'')), t, x))\<rparr>"

definition sample_api :: "(sample_bundle, unit, unit) BundleApi" where
  "sample_api = \<lparr>nil_bundle = (\<lambda>_. False), SignatureContent = (\<lambda>b. Ret (Inr (Some ()))),
     EnvelopeContent = (\<lambda>_. Panic nil_dereference), Statement = (\<lambda>_. Ret (Inr None))\<rparr>"

lemma sample_sigstore_law: "result_xor_error sample_sigstore"
  by (auto simp: result_xor_error_def sample_sigstore_def split: PolicyBuilder.splits
      ArtifactPolicyOption.splits if_splits)

definition sample_root :: "string \<Rightarrow> string Verifier" where
  "sample_root m = \<lparr>v_tr = m, v_vo = [WithSignedTimestamps 1]\<rparr>"

lemma sample_verify:
  "fst (Verify sample_sigstore sample_api (sample_root ''gh'')
      [(''gh'', ''sha256'', ''A''), (''evil'', ''sha256'', ''A'')]
      (Some \<lparr>Algorithm = ''sha256'', Hex = ''41''\<rparr>) (start_world ())) =
     Ret (Inr [Some (''gh'', ''sha256'', ''A'')])"
  by code_simp

theorem Multi_Verify_single_witness:
  "fst (Multi_Verify sample_sigstore sample_api (NewMulti [sample_root ''gh''])
      [(''gh'', ''sha256'', ''A''), (''evil'', ''sha256'', ''A'')]
      (Some \<lparr>Algorithm = ''sha256'', Hex = ''41''\<rparr>) (start_world ())) =
     Ret (Inr [Some (''gh'', ''sha256'', ''A'')])"
  using Multi_Verify_single [OF sample_sigstore_law, THEN conjunct1] sample_verify by (rule trans)

theorem subject_line_deterministic_witness:
  "subject_line \<lparr>GetName = ''app'', GetDigest = [(''sha512'', ''b''), (''sha256'', ''a'')]\<rparr> =
   subject_line \<lparr>GetName = ''app'', GetDigest = [(''sha256'', ''a''), (''sha512'', ''b'')]\<rparr>"
  by (rule subject_line_deterministic) simp_all

end
