(* ===== verification/Provider.thy ===== *)
theory Provider
  imports Provider_Ifaces Conn_Trace Go_Quote Sigstore_Verifier
begin

text \<open>
  The external data provider (pkg/provider/provider.go): \<^verbatim>\<open>Validate\<close> with its metrics, log lines and
  deferred request timer. Its three collaborators are a record of operations; what it uses of
  other packages (identifiers, image references, the printable characters of \<^verbatim>\<open>%q\<close>, the hook calls that
  the HTTP client makes during a fetch) is a second record.
\<close>

section \<open>Data\<close>

definition apiVersion :: string where
  "apiVersion = ''externaldata.gatekeeper.sh/v1beta1''"

record 'v Item =
  item_Key :: string
  item_Value :: "'v list option"
  item_Error :: string

text \<open>The response: the fields of its inner object carry the prefix \<^verbatim>\<open>resp\<close>.\<close>

record 'v ProviderResponse =
  resp_APIVersion :: string
  resp_Kind :: string
  resp_Items :: "'v Item list"
  resp_SystemError :: string

record ('x, 'k, 'r, 'o, 'b, 'v) Provider =
  p_v :: "('x, 'b, 'v) verify_op"
  p_kc :: "('x, 'k) keychain_op"
  p_bf :: "('x, 'r, 'o, 'b) fetch_op"
  p_GetRemoteOptions :: "'k \<Rightarrow> 'o list"

definition provider_New ::
  "('x, 'b, 'v) verify_op \<Rightarrow> ('x, 'k) keychain_op \<Rightarrow> ('x, 'r, 'o, 'b) fetch_op \<Rightarrow> ('k \<Rightarrow> 'o list) \<Rightarrow>
   ('x, 'k, 'r, 'o, 'b, 'v) Provider" where
  "provider_New v k bf opts = \<lparr>p_v = v, p_kc = k, p_bf = bf, p_GetRemoteOptions = opts\<rparr>"

record ('x, 'r) ProviderEnv =
  NewString :: "('x, string) outside"
  ParseReference :: "string \<Rightarrow> 'r result"
  printable :: "nat \<Rightarrow> bool"
  hooks :: "'x world \<Rightarrow> 'x world \<Rightarrow> events"
  env_TraceEnabled :: bool

definition ErrorResponse :: "string \<Rightarrow> 'v ProviderResponse" where
  "ErrorResponse s = \<lparr>resp_APIVersion = apiVersion, resp_Kind = ''ProviderResponse'',
     resp_Items = [], resp_SystemError = s\<rparr>"

definition maxImageCountLabel :: int where "maxImageCountLabel = 10"

definition imageCountLabel :: "int \<Rightarrow> string" where
  "imageCountLabel n =
     (if maxImageCountLabel < n then Itoa maxImageCountLabel @ ''+'' else Itoa n)"

definition error_item :: "string \<Rightarrow> string \<Rightarrow> 'v Item" where
  "error_item key e = \<lparr>item_Key = key, item_Value = None, item_Error = e\<rparr>"

definition value_item :: "string \<Rightarrow> 'v list \<Rightarrow> 'v Item" where
  "value_item key res = \<lparr>item_Key = key, item_Value = Some res, item_Error = ''''\<rparr>"

section \<open>One image\<close>

text \<open>
  How the body of the loop ends for one image: with an item and the next image, or with a response.
\<close>

datatype 'v image_end = Continue "'v Item" | Return "'v ProviderResponse"

text \<open>
  A step of \<^verbatim>\<open>Validate\<close>: its end or a panic, the value of \<^verbatim>\<open>systemErr\<close> after it, the world.
\<close>

type_synonym ('x, 'v) image_result = "'v image_end go \<times> bool \<times> 'x world"

text \<open>The fetch failed: metrics and log, then a per-image verdict or the end of the request.\<close>

definition is_bundle_invalid :: "go_error \<Rightarrow> bool" where
  "is_bundle_invalid err =
     (case as_fetch err of None \<Rightarrow> False | Some fe \<Rightarrow> fe_Kind fe = KindBundleInvalid)"

definition fetch_failed ::
  "('x, 'r) ProviderEnv \<Rightarrow> attrs \<Rightarrow> attrs \<Rightarrow> int \<Rightarrow> int \<Rightarrow> string \<Rightarrow> 'v Item list \<Rightarrow> go_error \<Rightarrow> duration \<Rightarrow>
   attrs \<Rightarrow> 'x world \<Rightarrow> ('x, 'v) image_result" where
  "fetch_failed E reqLog imgLog imageCount i key results err dur traced w0 =
     (let (reason, step, attempts) = Classify err;
          w = meter (AttestationsPullTimer_update (observe_vec [''failure'', reason, step, Itoa attempts] dur)) w0;
          w = meter (AttestationsRetrieveFail_update (inc_vec [reason, step, Itoa (FailureStatus err)])) w;
          fields = [(''reason'', LStr reason), (''step'', LStr step), (''attempts'', LInt attempts),
            (''attempt_trail'', LStr (AttemptTrail err)), (''duration_s'', LDur dur), (''error'', LErr (Some err))];
          w = slog LevelError ''validate: error fetching bundles'' (imgLog @ fields @ traced) w
      in if is_bundle_invalid err
         then (Ret (Continue (error_item key (''error_fetching_bundle_'' @ reason))), False, w)
         else
           (Ret (Return \<lparr>resp_APIVersion = apiVersion, resp_Kind = ''ProviderResponse'', resp_Items = results,
              resp_SystemError = ''ERROR: BundleFromName('' @ Quote (printable E) key @ ''): reason='' @ reason @
                '' step='' @ step\<rparr>), True,
            slog LevelError ''validate: aborting request''
              (reqLog @ [(''reason'', LStr reason), (''step'', LStr step), (''image_index'', LInt (i + 1)),
                (''images_processed'', LInt (int (length results))),
                (''images_skipped'', LInt (imageCount - (i + 1)))]) w))"

text \<open>The bundles were fetched and there are some: verify them.\<close>

definition verify_bundles ::
  "('x, 'k, 'r, 'o, 'b, 'v) Provider \<Rightarrow> ('x, 'r) ProviderEnv \<Rightarrow> attrs \<Rightarrow> string \<Rightarrow> 'b BundleResult \<Rightarrow>
   'x world \<Rightarrow> ('x, 'v) image_result" where
  "verify_bundles P E imgLog key result w0 =
     (case p_v P (Bundles result) (Hash result) w0 of
        (Panic m, w) \<Rightarrow> (Panic m, False, w)
      | (Ret (Inl err), w) \<Rightarrow>
          (let w = meter (AttestationsVerTimer_update (\<lambda>os. (clock w - clock w0) # os)) w
           in case Hash result of
                None \<Rightarrow> (Panic nil_dereference, True, w)
              | Some h \<Rightarrow>
                  (Ret (Return (ErrorResponse
                     (''ERROR: VerifyImageSignatures('' @ Quote (printable E) key @ ''): '' @ Error err))), True,
                   slog LevelError ''validate: verification error''
                     (imgLog @ [(''image_digest'', LStr (Hex h)), (''error'', LErr (Some err))]) w))
      | (Ret (Inr res), w) \<Rightarrow>
          (let w = meter (AttestationsVerTimer_update (\<lambda>os. (clock w - clock w0) # os)) w;
               w = meter (AttestationsVerOk_update (\<lambda>n. n + length res)) w;
               w = (if 0 < int (length (Bundles result)) - int (length res)
                    then meter (AttestationsVerFail_update (\<lambda>n. n + (length (Bundles result) - length res))) w
                    else w)
           in if 0 < length res
              then (Ret (Continue (value_item key res)), False,
                    slog LevelInfo ''validate: found valid signatures''
                      (imgLog @ [(''count'', LInt (int (length res)))]) w)
              else (Ret (Continue (error_item key ''invalid_signature'')), False,
                    slog LevelInfo ''validate: no valid signatures'' imgLog w)))"

text \<open>The fetch succeeded.\<close>

definition fetched ::
  "('x, 'k, 'r, 'o, 'b, 'v) Provider \<Rightarrow> ('x, 'r) ProviderEnv \<Rightarrow> attrs \<Rightarrow> string \<Rightarrow> 'b BundleResult \<Rightarrow>
   duration \<Rightarrow> 'x world \<Rightarrow> ('x, 'v) image_result" where
  "fetched P E imgLog key result dur w0 =
     (let w = meter (AttestationsPullTimer_update
                (observe_vec [''success'', ''none'', ''none'', Itoa (Attempts result)] dur)) w0;
          w = meter (AttestationsRetrieved_update (\<lambda>n. n + length (Bundles result))) w;
          w = slog LevelInfo ''validate: fetched OCI bundles''
                (imgLog @ [(''count'', LInt (int (length (Bundles result)))), (''duration_s'', LDur dur),
                   (''attempts'', LInt (Attempts result))] @
                 (if 1 < Attempts result
                  then [(''attempt_trail'', LStr (BundleResult_AttemptTrail result))] else [])) w
      in if length (Bundles result) = 0
         then (Ret (Continue (error_item key ''image_unsigned'')), False,
               slog LevelInfo ''validate: no bundles'' imgLog (meter (AttestationsMissing_update Suc) w))
         else verify_bundles P E imgLog key result w)"

definition validate_image ::
  "('x, 'k, 'r, 'o, 'b, 'v) Provider \<Rightarrow> ('x, 'r) ProviderEnv \<Rightarrow> Context \<Rightarrow> 'o list \<Rightarrow> attrs \<Rightarrow> int \<Rightarrow> int \<Rightarrow>
   string \<Rightarrow> 'v Item list \<Rightarrow> 'x world \<Rightarrow> ('x, 'v) image_result" where
  "validate_image P E ctx ro reqLog imageCount i key results w0 =
     (let imgLog = reqLog @ [(''image'', LStr key), (''image_index'', LInt (i + 1))];
          w = slog LevelInfo ''validate: verify signature'' imgLog w0
      in case ParseReference E key of
           Inl err \<Rightarrow>
             (Ret (Continue (error_item key ''invalid_reference'')), False,
              slog LevelError ''validate: error parsing reference'' (imgLog @ [(''error'', LErr (Some err))]) w)
         | Inr ref \<Rightarrow>
             (case p_bf P ctx ref ro w of
                (Panic m, w') \<Rightarrow> (Panic m, False, w')
              | (Ret (result, Some err), w') \<Rightarrow>
                  fetch_failed E reqLog imgLog imageCount i key results err (clock w' - clock w)
                    (if env_TraceEnabled E then Fields (trace_run (hooks E w w') NewTraceCollector) else []) w'
              | (Ret (result, None), w') \<Rightarrow> fetched P E imgLog key result (clock w' - clock w) w'))"

section \<open>The request\<close>

fun validate_images ::
  "('x, 'k, 'r, 'o, 'b, 'v) Provider \<Rightarrow> ('x, 'r) ProviderEnv \<Rightarrow> Context \<Rightarrow> 'o list \<Rightarrow> attrs \<Rightarrow> int \<Rightarrow> int \<Rightarrow>
   string list \<Rightarrow> 'v Item list \<Rightarrow> 'x world \<Rightarrow> 'v ProviderResponse go \<times> bool \<times> 'x world" where
  "validate_images P E ctx ro reqLog imageCount i [] results w =
     (Ret \<lparr>resp_APIVersion = apiVersion, resp_Kind = ''ProviderResponse'', resp_Items = results,
        resp_SystemError = ''''\<rparr>, False, w)"
| "validate_images P E ctx ro reqLog imageCount i (key # keys) results w =
     (case validate_image P E ctx ro reqLog imageCount i key results w of
        (Panic m, systemErr, w) \<Rightarrow> (Panic m, systemErr, w)
      | (Ret (Return resp), systemErr, w) \<Rightarrow> (Ret resp, systemErr, w)
      | (Ret (Continue item), systemErr, w) \<Rightarrow>
          validate_images P E ctx ro reqLog imageCount (i + 1) keys (results @ [item]) w)"

text \<open>The body of \<^verbatim>\<open>Validate\<close> after the deferred function is registered.\<close>

definition validate_body ::
  "('x, 'k, 'r, 'o, 'b, 'v) Provider \<Rightarrow> ('x, 'r) ProviderEnv \<Rightarrow> Context \<Rightarrow> string list \<Rightarrow> 'x world \<Rightarrow>
   'v ProviderResponse go \<times> bool \<times> 'x world" where
  "validate_body P E ctx keys w0 =
     (let imageCount = int (length keys);
          (requestID, w) = call (NewString E) w0;
          reqLog = [(''request_id'', LStr requestID), (''image_count'', LInt imageCount)];
          w = slog LevelInfo ''validate: received request'' reqLog w
      in case p_kc P ctx w of
           (Inl err, w) \<Rightarrow>
             (Ret (ErrorResponse (''ERROR: KeyChain: '' @ Error err)), True,
              slog LevelError ''validate: error retrieving key chain'' (reqLog @ [(''error'', LErr (Some err))]) w)
         | (Inr kc, w) \<Rightarrow> validate_images P E ctx (p_GetRemoteOptions P kc) reqLog imageCount 0 keys [] w)"

definition Validate ::
  "('x, 'k, 'r, 'o, 'b, 'v) Provider \<Rightarrow> ('x, 'r) ProviderEnv \<Rightarrow> Context \<Rightarrow> string list \<Rightarrow> 'x world \<Rightarrow>
   'v ProviderResponse go \<times> 'x world" where
  "Validate P E ctx keys w0 =
     (case validate_body P E ctx keys w0 of
        (r, systemErr, w) \<Rightarrow>
          (r, meter (AttestationsReqTimer_update
                (observe_vec [imageCountLabel (int (length keys)), if systemErr then ''failure'' else ''success'']
                   (clock w - clock w0))) w))"

section \<open>The specification: verdicts\<close>

text \<open>
  What the provider promises, without metrics, log and loop: every image has a verdict, decided by
  its reference, its fetch and its verification, and the response is a function of the verdicts.
\<close>

datatype 'v verdict =
    InvalidReference
  | InvalidBundle
  | Unsigned
  | InvalidSignature
  | Verified "'v list"
  | FetchFailure string string
  | VerifyFailure go_error

inductive image_verdict ::
  "('x, 'k, 'r, 'o, 'b, 'v) Provider \<Rightarrow> ('x, 'r) ProviderEnv \<Rightarrow> Context \<Rightarrow> 'o list \<Rightarrow> string \<Rightarrow> 'v verdict \<Rightarrow> bool"
  for P E ctx ro where
  bad_reference: "ParseReference E key = Inl err \<Longrightarrow> image_verdict P E ctx ro key InvalidReference"
| bad_bundle: "ParseReference E key = Inr ref \<Longrightarrow> p_bf P ctx ref ro w = (Ret (result, Some err), w') \<Longrightarrow>
    is_bundle_invalid err \<Longrightarrow> image_verdict P E ctx ro key InvalidBundle"
| fetch_failure: "ParseReference E key = Inr ref \<Longrightarrow> p_bf P ctx ref ro w = (Ret (result, Some err), w') \<Longrightarrow>
    \<not> is_bundle_invalid err \<Longrightarrow>
    image_verdict P E ctx ro key (FetchFailure (fst (Classify err)) (fst (snd (Classify err))))"
| unsigned: "ParseReference E key = Inr ref \<Longrightarrow> p_bf P ctx ref ro w = (Ret (result, None), w') \<Longrightarrow>
    Bundles result = [] \<Longrightarrow> image_verdict P E ctx ro key Unsigned"
| verify_failure: "ParseReference E key = Inr ref \<Longrightarrow> p_bf P ctx ref ro w = (Ret (result, None), w') \<Longrightarrow>
    Bundles result \<noteq> [] \<Longrightarrow> p_v P (Bundles result) (Hash result) w1 = (Ret (Inl err), w2) \<Longrightarrow>
    image_verdict P E ctx ro key (VerifyFailure err)"
| invalid_signature: "ParseReference E key = Inr ref \<Longrightarrow> p_bf P ctx ref ro w = (Ret (result, None), w') \<Longrightarrow>
    Bundles result \<noteq> [] \<Longrightarrow> p_v P (Bundles result) (Hash result) w1 = (Ret (Inr []), w2) \<Longrightarrow>
    image_verdict P E ctx ro key InvalidSignature"
| verified: "ParseReference E key = Inr ref \<Longrightarrow> p_bf P ctx ref ro w = (Ret (result, None), w') \<Longrightarrow>
    Bundles result \<noteq> [] \<Longrightarrow> p_v P (Bundles result) (Hash result) w1 = (Ret (Inr res), w2) \<Longrightarrow>
    res \<noteq> [] \<Longrightarrow> image_verdict P E ctx ro key (Verified res)"

inductive_cases verified_verdictE: "image_verdict P E ctx ro key (Verified res)"

text \<open>The item, or the response, that a verdict stands for.\<close>

fun verdict_end :: "('x, 'r) ProviderEnv \<Rightarrow> string \<Rightarrow> 'v Item list \<Rightarrow> 'v verdict \<Rightarrow> 'v image_end" where
  "verdict_end E key results InvalidReference = Continue (error_item key ''invalid_reference'')"
| "verdict_end E key results InvalidBundle = Continue (error_item key ''error_fetching_bundle_bundle_invalid'')"
| "verdict_end E key results Unsigned = Continue (error_item key ''image_unsigned'')"
| "verdict_end E key results InvalidSignature = Continue (error_item key ''invalid_signature'')"
| "verdict_end E key results (Verified res) = Continue (value_item key res)"
| "verdict_end E key results (FetchFailure reason step) =
     Return \<lparr>resp_APIVersion = apiVersion, resp_Kind = ''ProviderResponse'', resp_Items = results,
       resp_SystemError = ''ERROR: BundleFromName('' @ Quote (printable E) key @ ''): reason='' @ reason @
         '' step='' @ step\<rparr>"
| "verdict_end E key results (VerifyFailure err) =
     Return (ErrorResponse (''ERROR: VerifyImageSignatures('' @ Quote (printable E) key @ ''): '' @ Error err))"

fun respond :: "('x, 'r) ProviderEnv \<Rightarrow> (string \<times> 'v verdict) list \<Rightarrow> 'v Item list \<Rightarrow> 'v ProviderResponse" where
  "respond E [] results = \<lparr>resp_APIVersion = apiVersion, resp_Kind = ''ProviderResponse'',
     resp_Items = results, resp_SystemError = ''''\<rparr>"
| "respond E ((key, v) # kvs) results =
     (case verdict_end E key results v of
        Continue item \<Rightarrow> respond E kvs (results @ [item])
      | Return resp \<Rightarrow> resp)"

fun aborts :: "'v verdict \<Rightarrow> bool" where
  "aborts (FetchFailure reason step) = True"
| "aborts (VerifyFailure err) = True"
| "aborts _ = False"

lemma verdict_end_Return: "verdict_end E key results v = Return resp \<Longrightarrow> aborts v"
  by (cases v) auto

lemma verdict_end_Continue: "verdict_end E key results v = Continue item \<Longrightarrow> \<not> aborts v"
  by (cases v) auto

section \<open>The code meets the specification\<close>

lemma Classify_bundle_invalid: "is_bundle_invalid err \<Longrightarrow> fst (Classify err) = ''bundle_invalid''"
  by (auto simp: is_bundle_invalid_def Classify_def kind_defs split: option.splits)

lemma fetch_failed_end:
  assumes "fetch_failed E reqLog imgLog n i key results err dur traced w = (r, se, w')"
  shows "r = Ret (verdict_end E key results
      (if is_bundle_invalid err then InvalidBundle
       else FetchFailure (fst (Classify err)) (fst (snd (Classify err)))))"
    and "se \<longleftrightarrow> \<not> is_bundle_invalid err"
  using assms Classify_bundle_invalid [of err]
  by (auto simp: fetch_failed_def Let_def split: prod.splits if_splits)

lemma verify_bundles_end:
  assumes "verify_bundles P E imgLog key result w = (Ret e, se, w')"
  obtains err w2 where "p_v P (Bundles result) (Hash result) w = (Ret (Inl err), w2)"
      "e = verdict_end E key results (VerifyFailure err)" "se"
  | w2 where "p_v P (Bundles result) (Hash result) w = (Ret (Inr []), w2)"
      "e = verdict_end E key results InvalidSignature" "\<not> se"
  | res w2 where "p_v P (Bundles result) (Hash result) w = (Ret (Inr res), w2)" "res \<noteq> []"
      "e = verdict_end E key results (Verified res)" "\<not> se"
  using assms
  by (auto simp: verify_bundles_def Let_def split: prod.splits go.splits sum.splits option.splits if_splits)

lemma validate_image_verdict:
  assumes run: "validate_image P E ctx ro reqLog n i key results w = (Ret e, se, w')"
  obtains v where "image_verdict P E ctx ro key v" "e = verdict_end E key results v" "se = aborts v"
proof (cases "ParseReference E key")
  case (Inl err)
  with run have "e = verdict_end E key results InvalidReference" "\<not> se"
    by (auto simp: validate_image_def Let_def)
  with that [OF bad_reference [OF Inl]] show ?thesis by simp
next
  case (Inr ref)
  define w1 where "w1 = slog LevelInfo ''validate: verify signature''
    (reqLog @ [(''image'', LStr key), (''image_index'', LInt (i + 1))]) w"
  from run Inr obtain result oe w2 where f: "p_bf P ctx ref ro w1 = (Ret (result, oe), w2)"
    by (auto simp: validate_image_def Let_def w1_def split: prod.splits go.splits)
  show ?thesis
  proof (cases oe)
    case (Some err)
    with run Inr f obtain traced where
      "fetch_failed E reqLog (reqLog @ [(''image'', LStr key), (''image_index'', LInt (i + 1))]) n i key
        results err (clock w2 - clock w1) traced w2 = (Ret e, se, w')"
      by (auto simp: validate_image_def Let_def w1_def)
    from fetch_failed_end [OF this] that [OF bad_bundle [OF Inr f [unfolded Some]]]
      that [OF fetch_failure [OF Inr f [unfolded Some]]] show ?thesis
      by (cases "is_bundle_invalid err") auto
  next
    case None
    note unsigned = that [OF image_verdict.unsigned [OF Inr f [unfolded None]]]
      and vf = that [OF verify_failure [OF Inr f [unfolded None]]]
      and inv = that [OF invalid_signature [OF Inr f [unfolded None]]]
      and ver = that [OF verified [OF Inr f [unfolded None]]]
    from run Inr f None obtain imgLog dur where d: "fetched P E imgLog key result dur w2 = (Ret e, se, w')"
      by (auto simp: validate_image_def Let_def w1_def)
    show ?thesis
    proof (cases "Bundles result = []")
      case True
      with d unsigned show ?thesis by (auto simp: fetched_def Let_def)
    next
      case False
      with d obtain w3 where "verify_bundles P E imgLog key result w3 = (Ret e, se, w')"
        by (auto simp: fetched_def Let_def)
      then show ?thesis
        by (cases rule: verify_bundles_end [where results = results])
           (auto intro: vf [OF False] inv [OF False] ver [OF False])
    qed
  qed
qed

text \<open>The verdicts that a run of the loop has decided: it stops at the first one that aborts.\<close>

definition decided ::
  "('x, 'k, 'r, 'o, 'b, 'v) Provider \<Rightarrow> ('x, 'r) ProviderEnv \<Rightarrow> Context \<Rightarrow> 'o list \<Rightarrow> string list \<Rightarrow>
   'v verdict list \<Rightarrow> bool" where
  "decided P E ctx ro keys vs \<longleftrightarrow>
     length vs \<le> length keys \<and> list_all2 (image_verdict P E ctx ro) (take (length vs) keys) vs \<and>
     (\<forall>v \<in> set (butlast vs). \<not> aborts v) \<and> (length vs < length keys \<longrightarrow> vs \<noteq> [] \<and> aborts (last vs))"

lemma decided_Cons:
  "image_verdict P E ctx ro key v \<Longrightarrow> aborts v \<Longrightarrow> decided P E ctx ro (key # keys) [v]"
  "image_verdict P E ctx ro key v \<Longrightarrow> \<not> aborts v \<Longrightarrow> decided P E ctx ro keys vs \<Longrightarrow>
    decided P E ctx ro (key # keys) (v # vs)"
  by (auto simp: decided_def)

lemma validate_images_verdicts:
  assumes "validate_images P E ctx ro reqLog n i keys results w = (Ret resp, se, w')"
  shows "\<exists>vs. decided P E ctx ro keys vs \<and> resp = respond E (zip keys vs) results \<and>
    (se \<longleftrightarrow> vs \<noteq> [] \<and> aborts (last vs))"
  using assms
proof (induction keys arbitrary: i results w)
  case Nil
  then show ?case by (auto simp: decided_def intro!: exI [of _ "[]"])
next
  case (Cons key keys)
  from Cons.prems obtain e se1 w1 where
    one: "validate_image P E ctx ro reqLog n i key results w = (Ret e, se1, w1)"
    by (auto split: prod.splits go.splits)
  then obtain v where v: "image_verdict P E ctx ro key v" "e = verdict_end E key results v" "se1 = aborts v"
    by (rule validate_image_verdict)
  show ?case
  proof (cases e)
    case (Return r)
    then have r: "verdict_end E key results v = Return r" using v(2) by simp
    from Cons.prems one Return have "resp = r" "se = se1" by auto
    with r v verdict_end_Return [OF r] decided_Cons(1) [OF v(1)] show ?thesis
      by (intro exI [of _ "[v]"]) simp
  next
    case (Continue item)
    with Cons.prems one have "validate_images P E ctx ro reqLog n (i + 1) keys (results @ [item]) w1 =
        (Ret resp, se, w')" by simp
    from Cons.IH [OF this] obtain vs where vs: "decided P E ctx ro keys vs"
      "resp = respond E (zip keys vs) (results @ [item])" "se \<longleftrightarrow> vs \<noteq> [] \<and> aborts (last vs)" by blast
    moreover have "verdict_end E key results v = Continue item" using v(2) Continue by simp
    ultimately show ?thesis
      using verdict_end_Continue [of E key results v item] decided_Cons(2) [OF v(1)]
      by (intro exI [of _ "v # vs"]) simp
  qed
qed

lemma Validate_verdicts:
  assumes run: "Validate P E ctx keys w = (Ret resp, w')"
  obtains (keychain) err w1 w2 where "p_kc P ctx w1 = (Inl err, w2)"
      "resp = ErrorResponse (''ERROR: KeyChain: '' @ Error err)"
  | (verdicts) kc w1 w2 vs where "p_kc P ctx w1 = (Inr kc, w2)"
      "decided P E ctx (p_GetRemoteOptions P kc) keys vs" "resp = respond E (zip keys vs) []"
proof -
  from run obtain se w1 where body: "validate_body P E ctx keys w = (Ret resp, se, w1)"
    by (auto simp: Validate_def split: prod.splits)
  obtain requestID w2 where id: "call (NewString E) w = (requestID, w2)" by force
  define reqLog where "reqLog = [(''request_id'', LStr requestID), (''image_count'', LInt (int (length keys)))]"
  define w3 where "w3 = slog LevelInfo ''validate: received request'' reqLog w2"
  obtain kr w4 where kr: "p_kc P ctx w3 = (kr, w4)" by force
  show thesis
  proof (cases kr)
    case (Inl err)
    with body id kr have "resp = ErrorResponse (''ERROR: KeyChain: '' @ Error err)"
      by (simp add: validate_body_def Let_def reqLog_def w3_def)
    with keychain kr Inl show ?thesis by blast
  next
    case (Inr kc)
    with body id kr have "validate_images P E ctx (p_GetRemoteOptions P kc) reqLog (int (length keys)) 0 keys [] w4 =
        (Ret resp, se, w1)"
      by (simp add: validate_body_def Let_def reqLog_def w3_def)
    from validate_images_verdicts [OF this] kr Inr verdicts show ?thesis by blast
  qed
qed

text \<open>
  C3. \<^verbatim>\<open>Validate\<close> refines its specification: unless the keychain could not be read, the response it
  returns is the one that the images' verdicts determine, taken in the order of the request up to
  the first verdict that aborts it (a fetch failure other than an invalid bundle, or a verifier
  error), and every verdict is one that the reference, the fetch and the verification of that image
  justify.
\<close>

theorem Validate_refines:
  assumes "Validate P E ctx keys w = (Ret resp, w')"
  shows "(\<exists>err w1 w2. p_kc P ctx w1 = (Inl err, w2) \<and> resp = ErrorResponse (''ERROR: KeyChain: '' @ Error err)) \<or>
    (\<exists>kc w1 w2 vs. p_kc P ctx w1 = (Inr kc, w2) \<and> decided P E ctx (p_GetRemoteOptions P kc) keys vs \<and>
      resp = respond E (zip keys vs) [])"
  using assms by (rule Validate_verdicts) blast+

section \<open>What a response says\<close>

text \<open>A well-formed item: a non-empty value and no error, or no value and one of four errors.\<close>

definition item_errors :: "string list" where
  "item_errors = [''invalid_reference'', ''error_fetching_bundle_bundle_invalid'', ''image_unsigned'',
     ''invalid_signature'']"

definition wf_item :: "'v Item \<Rightarrow> bool" where
  "wf_item it =
     (case item_Value it of
        None \<Rightarrow> item_Error it \<in> set item_errors
      | Some res \<Rightarrow> res \<noteq> [] \<and> item_Error it = '''')"

lemma verdict_item:
  assumes "verdict_end E key results v = Continue it"
  shows "item_Key it = key" and "(\<forall>res. v = Verified res \<longrightarrow> res \<noteq> []) \<Longrightarrow> wf_item it"
    and "item_Value it = Some res \<longleftrightarrow> v = Verified res"
  using assms by (cases v; auto simp: wf_item_def item_errors_def error_item_def value_item_def)+

lemma verdict_error:
  assumes "verdict_end E key results v = Return resp"
  shows "resp_SystemError resp \<noteq> ''''" and "resp_Items resp = results \<or> resp_Items resp = []"
  using assms by (cases v; auto simp: ErrorResponse_def)+

lemma respond_no_abort:
  "\<forall>v \<in> set (map snd kvs). \<not> aborts v \<Longrightarrow>
   resp_SystemError (respond E kvs results) = '''' \<and>
   map item_Key (resp_Items (respond E kvs results)) = map item_Key results @ map fst kvs"
proof (induction E kvs results rule: respond.induct)
  case (2 E key v kvs results)
  show ?case
  proof (cases "verdict_end E key results v")
    case (Continue it)
    with 2 verdict_item(1) [OF Continue] show ?thesis by simp
  next
    case (Return resp)
    with 2 verdict_end_Return [OF Return] show ?thesis by simp
  qed
qed simp

lemma respond_abort:
  assumes "\<exists>v \<in> set (map snd kvs). aborts v"
  shows "resp_SystemError (respond E kvs results) \<noteq> '''' \<and>
    prefix (map item_Key (resp_Items (respond E kvs results))) (map item_Key results @ map fst (butlast kvs))"
  using assms
proof (induction E kvs results rule: respond.induct)
  case (2 E key v kvs results)
  show ?case
  proof (cases "verdict_end E key results v")
    case (Continue it)
    with 2 verdict_item(1) [OF Continue] verdict_end_Continue [OF Continue] show ?thesis
      by (cases kvs) auto
  next
    case (Return resp)
    with verdict_error [OF Return] show ?thesis by auto
  qed
qed simp

lemma respond_items:
  assumes "it \<in> set (resp_Items (respond E kvs results))" and "it \<notin> set results"
  obtains key v items where "(key, v) \<in> set kvs" "verdict_end E key items v = Continue it"
proof -
  have "it \<in> set results \<or> (\<exists>(key, v) \<in> set kvs. \<exists>items. verdict_end E key items v = Continue it)"
    using assms(1)
  proof (induction E kvs results rule: respond.induct)
    case (2 E key v kvs results)
    show ?case
    proof (cases "verdict_end E key results v")
      case (Continue it')
      with 2 show ?thesis by fastforce
    next
      case (Return resp)
      with 2 verdict_error(2) [OF Return] show ?thesis by auto
    qed
  qed simp
  with assms(2) that show thesis by blast
qed

text \<open>What the decided verdicts say of the request's keys.\<close>

lemma decided_keys:
  assumes "decided P E ctx ro keys vs"
  shows "map fst (zip keys vs) = take (length vs) keys" and "map snd (zip keys vs) = vs"
    and "(key, v) \<in> set (zip keys vs) \<Longrightarrow> image_verdict P E ctx ro key v"
    and "(\<forall>v \<in> set vs. \<not> aborts v) \<Longrightarrow> length vs = length keys"
proof -
  from assms have len: "length vs \<le> length keys"
    and all: "list_all2 (image_verdict P E ctx ro) (take (length vs) keys) vs"
    by (simp_all add: decided_def)
  then show "map fst (zip keys vs) = take (length vs) keys" "map snd (zip keys vs) = vs"
    by (simp_all add: map_fst_zip_take map_snd_zip_take)
  show "image_verdict P E ctx ro key v" if "(key, v) \<in> set (zip keys vs)"
    using that all by (auto simp: list_all2_conv_all_nth in_set_zip)
  show "length vs = length keys" if "\<forall>v \<in> set vs. \<not> aborts v"
    using that assms by (fastforce simp: decided_def)
qed

lemma decided_item:
  assumes "decided P E ctx ro keys vs" and "it \<in> set (resp_Items (respond E (zip keys vs) []))"
  obtains v items where "image_verdict P E ctx ro (item_Key it) v"
    "verdict_end E (item_Key it) items v = Continue it" "item_Key it \<in> set keys"
proof -
  from assms(2) obtain key v items
    where kv: "(key, v) \<in> set (zip keys vs)" "verdict_end E key items v = Continue it"
    by (auto elim: respond_items)
  with that decided_keys(3) [OF assms(1) kv(1)] verdict_item(1) [OF kv(2)] show thesis
    by (auto dest: set_zip_leftD)
qed

lemma Validate_item:
  assumes "Validate P E ctx keys w = (Ret resp, w')" and "it \<in> set (resp_Items resp)"
  obtains ro v items where "image_verdict P E ctx ro (item_Key it) v"
    "verdict_end E (item_Key it) items v = Continue it" "item_Key it \<in> set keys"
  using assms(1)
proof (cases rule: Validate_verdicts)
  case (keychain err)
  with assms(2) show ?thesis by (simp add: ErrorResponse_def)
next
  case (verdicts kc w1 w2 vs)
  with assms(2) decided_item [OF verdicts(2)] that show ?thesis by metis
qed

lemma verdict_not_empty: "image_verdict P E ctx ro key (Verified res) \<Longrightarrow> res \<noteq> []"
  by (auto elim: verified_verdictE)

text \<open>
  C5. The shape of a response. Without a system error it has exactly one item per key of the request,
  in the order of the request; with one, the items are those of a proper prefix of the keys (or
  none). Every item is well formed: a non-empty list of verification results and no error, or no
  value and one of the four documented errors.
\<close>

theorem Validate_items:
  assumes "Validate P E ctx keys w = (Ret resp, w')"
  shows "(if resp_SystemError resp = '''' then map item_Key (resp_Items resp) = keys
      else resp_Items resp = [] \<or> strict_prefix (map item_Key (resp_Items resp)) keys) \<and>
    (\<forall>it \<in> set (resp_Items resp). wf_item it)"
proof
  show "\<forall>it \<in> set (resp_Items resp). wf_item it"
    by (auto elim!: Validate_item [OF assms] dest: verdict_item(2) verdict_not_empty)
  show "if resp_SystemError resp = '''' then map item_Key (resp_Items resp) = keys
      else resp_Items resp = [] \<or> strict_prefix (map item_Key (resp_Items resp)) keys"
    using assms
  proof (cases rule: Validate_verdicts)
    case (verdicts kc w1 w2 vs)
    note ks = decided_keys [OF verdicts(2)]
    show ?thesis
    proof (cases "\<exists>v \<in> set vs. aborts v")
      case False
      with respond_no_abort [of "zip keys vs" E "[]"] ks verdicts(3) show ?thesis by simp
    next
      case True
      then have "vs \<noteq> []" by auto
      with ks(1) have lt: "strict_prefix (take (length vs - 1) keys) keys"
        using verdicts(2) by (cases vs) (auto simp: strict_prefix_def decided_def take_is_prefix)
      have "map fst (butlast (zip keys vs)) = take (length vs - 1) keys"
        using ks(1) verdicts(2) by (simp add: map_butlast decided_def butlast_take)
      with True respond_abort [of "zip keys vs" E "[]"] ks(2) verdicts(3) lt show ?thesis
        by (auto intro: prefix_order.le_less_trans)
    qed
  qed (simp add: ErrorResponse_def)
qed

text \<open>
  C4. The provider fails closed: an item that carries verification results belongs to an image of
  the request whose reference parsed, whose bundles were fetched without an error, and for which
  the verifier returned exactly these results, without an error, for those bundles and the digest
  the fetch reported.
\<close>

theorem Validate_fails_closed:
  assumes "Validate P E ctx keys w = (Ret resp, w')" and "it \<in> set (resp_Items resp)"
    and "item_Value it = Some res"
  shows "item_Key it \<in> set keys \<and> res \<noteq> [] \<and>
    (\<exists>ref ro w1 result w2 w3 w4. ParseReference E (item_Key it) = Inr ref \<and>
      p_bf P ctx ref ro w1 = (Ret (result, None), w2) \<and> Bundles result \<noteq> [] \<and>
      p_v P (Bundles result) (Hash result) w3 = (Ret (Inr res), w4))"
  using assms(1,2)
proof (rule Validate_item)
  fix ro v items
  assume v: "image_verdict P E ctx ro (item_Key it) v" "verdict_end E (item_Key it) items v = Continue it"
    and key: "item_Key it \<in> set keys"
  with assms(3) verdict_item(3) [OF v(2)] have "v = Verified res" by simp
  with v(1) key show ?thesis by (blast elim: verified_verdictE)
qed

text \<open>
  C6. A fetch failure is never turned into a verdict that a caller would cache: when every fetch of an
  image fails for a reason other than an invalid bundle (a time-out, a 404, a throttled request),
  a response to a request with that image carries a system error and no item for it.
\<close>

theorem Validate_no_transient_verdict:
  assumes "Validate P E ctx keys w = (Ret resp, w')" and "key \<in> set keys"
    and "ParseReference E key = Inr ref"
    and fails: "\<And>ro w1 result oe w2. p_bf P ctx ref ro w1 = (Ret (result, oe), w2) \<Longrightarrow>
      \<exists>err. oe = Some err \<and> \<not> is_bundle_invalid err"
  shows "resp_SystemError resp \<noteq> '''' \<and> key \<notin> item_Key ` set (resp_Items resp)"
proof -
  have abort: "aborts v" if "image_verdict P E ctx ro key v" for ro v
    using that by (cases rule: image_verdict.cases) (use assms(3) fails in fastforce)+
  have "key \<notin> item_Key ` set (resp_Items resp)"
  proof
    assume "key \<in> item_Key ` set (resp_Items resp)"
    then obtain it where it: "it \<in> set (resp_Items resp)" "key = item_Key it" by auto
    from Validate_item [OF assms(1) it(1)] obtain ro v items
      where "image_verdict P E ctx ro key v" "verdict_end E key items v = Continue it"
      unfolding it(2) by blast
    then show False using abort verdict_end_Continue by blast
  qed
  moreover have "resp_SystemError resp \<noteq> ''''"
    using assms(1)
  proof (cases rule: Validate_verdicts)
    case (verdicts kc w1 w2 vs)
    note ks = decided_keys [OF verdicts(2)]
    have "\<exists>v \<in> set vs. aborts v"
    proof (rule ccontr)
      assume none: "\<not> (\<exists>v \<in> set vs. aborts v)"
      with ks(4) have "length vs = length keys" by auto
      with ks(1) assms(2) obtain v where "(key, v) \<in> set (zip keys vs)"
        by (metis in_set_impl_in_set_zip1)
      with none ks(3) abort show False by (meson set_zip_rightD)
    qed
    with respond_abort [of "zip keys vs" E "[]"] ks(2) verdicts(3) show ?thesis by simp
  qed (simp add: ErrorResponse_def)
  ultimately show ?thesis by simp
qed

section \<open>Metrics\<close>

text \<open>How the counters of a request relate to the items of its response.\<close>

definition verified_results :: "'v Item \<Rightarrow> nat" where
  "verified_results it = (case item_Value it of None \<Rightarrow> 0 | Some res \<Rightarrow> length res)"

definition unsigned_items :: "'v Item \<Rightarrow> nat" where
  "unsigned_items it = (if item_Error it = ''image_unsigned'' then 1 else 0)"

text \<open>
  The books of a request are balanced when every retrieved attestation was counted as verified or as
  failed, the verified ones are the results of the items, and the missing ones the unsigned items.
\<close>

definition balanced :: "Metrics \<Rightarrow> Metrics \<Rightarrow> 'v Item list \<Rightarrow> bool" where
  "balanced m m' items \<longleftrightarrow>
     AttestationsVerOk m' = AttestationsVerOk m + sum_list (map verified_results items) \<and>
     AttestationsMissing m' = AttestationsMissing m + sum_list (map unsigned_items items) \<and>
     AttestationsRetrieved m' + AttestationsVerOk m + AttestationsVerFail m =
       AttestationsRetrieved m + AttestationsVerOk m' + AttestationsVerFail m'"

lemma balanced_refl: "balanced m m []"
  by (simp add: balanced_def)

lemma balanced_trans: "balanced m m1 items \<Longrightarrow> balanced m1 m2 items' \<Longrightarrow> balanced m m2 (items @ items')"
  by (simp add: balanced_def)

text \<open>The provider on collaborators that keep the laws of its interfaces.\<close>

locale provider_parts =
  V: bundle_verifier v + K: keychain_source k + F: bundle_fetcher f
  for v :: "('x, 'b, 'v) verify_op" and k :: "('x, 'k) keychain_op" and f :: "('x, 'r, 'o, 'b) fetch_op"
begin

lemma fetch_failed_metrics:
  assumes "fetch_failed E reqLog imgLog n i key results err dur traced w = (r, se, w')"
  shows "AttestationsReqTimer (metrics w') = AttestationsReqTimer (metrics w)"
    and "r = Ret (Continue it) \<Longrightarrow> balanced (metrics w) (metrics w') [it]"
  using assms Classify_bundle_invalid [of err]
  by (auto simp: fetch_failed_def Let_def balanced_def verified_results_def unsigned_items_def error_item_def
      split: prod.splits if_splits)

lemma verify_facts:
  "v bs h w = (Ret (Inr res), w') \<Longrightarrow> metrics w' = metrics w \<and> length res \<le> length bs"
  "v bs h w = (Ret (Inl err), w') \<Longrightarrow> metrics w' = metrics w"
  "v bs h w = (Panic m, w') \<Longrightarrow> metrics w' = metrics w"
  by (auto intro: V.verify_metrics V.verify_at_most)

lemma verify_bundles_metrics:
  assumes "verify_bundles (provider_New v k f opts) E imgLog key result w = (r, se, w')"
  shows "AttestationsReqTimer (metrics w') = AttestationsReqTimer (metrics w)"
    and "r = Ret (Continue it) \<Longrightarrow>
      AttestationsVerOk (metrics w') = AttestationsVerOk (metrics w) + verified_results it \<and>
      unsigned_items it = 0 \<and> AttestationsMissing (metrics w') = AttestationsMissing (metrics w) \<and>
      AttestationsRetrieved (metrics w') = AttestationsRetrieved (metrics w) \<and>
      AttestationsVerOk (metrics w') + AttestationsVerFail (metrics w') =
        AttestationsVerOk (metrics w) + AttestationsVerFail (metrics w) + length (Bundles result)"
  using assms
  by (auto simp: verify_bundles_def provider_New_def Let_def verified_results_def unsigned_items_def
      error_item_def value_item_def split: prod.splits go.splits sum.splits option.splits if_splits
      dest!: verify_facts)

lemma fetched_metrics:
  assumes "fetched (provider_New v k f opts) E imgLog key result dur w = (r, se, w')"
  shows "AttestationsReqTimer (metrics w') = AttestationsReqTimer (metrics w)"
    and "r = Ret (Continue it) \<Longrightarrow> balanced (metrics w) (metrics w') [it]"
  using assms
  by (auto simp: fetched_def Let_def balanced_def verified_results_def unsigned_items_def error_item_def
      split: if_splits dest: verify_bundles_metrics)

text \<open>The image's step after the reference has been parsed.\<close>

lemma validate_image_fetch:
  assumes "validate_image (provider_New v k f opts) E ctx ro reqLog n i key results w = (r, se, w')"
    and "ParseReference E key = Inr ref"
  obtains (panic) p w1 where "f ctx ref ro w1 = (Panic p, w')" "r = Panic p" "\<not> se" "metrics w' = metrics w"
      "clock w1 = clock w"
  | (failed) imgLog result err dur traced w1 w2
    where "fetch_failed E reqLog imgLog n i key results err dur traced w2 = (r, se, w')"
      "f ctx ref ro w1 = (Ret (result, Some err), w2)" "metrics w2 = metrics w" "clock w1 = clock w"
  | (success) imgLog result dur w1 w2
    where "fetched (provider_New v k f opts) E imgLog key result dur w2 = (r, se, w')"
      "f ctx ref ro w1 = (Ret (result, None), w2)" "metrics w2 = metrics w" "clock w1 = clock w"
proof -
  define imgLog where "imgLog = reqLog @ [(''image'', LStr key), (''image_index'', LInt (i + 1))]"
  define w1 where "w1 = slog LevelInfo ''validate: verify signature'' imgLog w"
  obtain x w2 where f: "f ctx ref ro w1 = (x, w2)" by force
  have m: "metrics w2 = metrics w" using F.fetch_metrics [OF f] by (simp add: w1_def)
  show thesis
  proof (cases x)
    case (Panic p)
    with panic f m assms show ?thesis
      by (simp add: validate_image_def Let_def w1_def imgLog_def provider_New_def)
  next
    case (Ret y)
    then obtain result oe where "x = Ret (result, oe)" by (cases y) simp
    with failed success f m assms show ?thesis
      by (cases oe) (simp_all add: validate_image_def Let_def w1_def imgLog_def provider_New_def)
  qed
qed

lemma validate_image_metrics:
  assumes "validate_image (provider_New v k f opts) E ctx ro reqLog n i key results w = (r, se, w')"
  shows "AttestationsReqTimer (metrics w') = AttestationsReqTimer (metrics w) \<and>
    (\<forall>it. r = Ret (Continue it) \<longrightarrow> balanced (metrics w) (metrics w') [it])"
proof (cases "ParseReference E key")
  case (Inl err)
  with assms show ?thesis
    by (auto simp: validate_image_def Let_def balanced_def verified_results_def unsigned_items_def error_item_def)
next
  case (Inr ref)
  with assms show ?thesis
    by (cases rule: validate_image_fetch) (auto dest: fetch_failed_metrics fetched_metrics)
qed

lemma validate_images_metrics:
  assumes "validate_images (provider_New v k f opts) E ctx ro reqLog n i keys results w = (r, se, w')"
  shows "AttestationsReqTimer (metrics w') = AttestationsReqTimer (metrics w) \<and>
    (\<forall>resp. r = Ret resp \<longrightarrow> \<not> se \<longrightarrow>
      (\<exists>items. resp_Items resp = results @ items \<and> balanced (metrics w) (metrics w') items))"
  using assms
proof (induction keys arbitrary: i results w)
  case Nil
  then show ?case by (auto simp: balanced_refl)
next
  case (Cons key keys)
  obtain r1 se1 w1 where
    one: "validate_image (provider_New v k f opts) E ctx ro reqLog n i key results w = (r1, se1, w1)"
    by (metis prod_cases3)
  note m = validate_image_metrics [OF one]
  show ?case
  proof (cases r1)
    case (Panic p)
    with Cons.prems one m show ?thesis by auto
  next
    case (Ret e)
    show ?thesis
    proof (cases e)
      case (Return resp)
      from validate_image_verdict [OF one [unfolded Ret]] obtain u
        where "e = verdict_end E key results u" "se1 = aborts u" by blast
      with Return verdict_end_Return have se1 by metis
      with Cons.prems one m Ret Return show ?thesis by simp
    next
      case (Continue it)
      with Cons.prems one Ret have "validate_images (provider_New v k f opts) E ctx ro reqLog n (i + 1) keys
          (results @ [it]) w1 = (r, se, w')" by simp
      from Cons.IH [OF this] m Ret Continue balanced_trans show ?thesis by fastforce
    qed
  qed
qed

text \<open>With a keychain source that answers, the body is the loop over the images.\<close>

lemma validate_body_images:
  assumes "validate_body (provider_New v k f opts) E ctx keys w = (r, se, w')"
  obtains ro reqLog w1 where "metrics w1 = metrics w"
    "validate_images (provider_New v k f opts) E ctx ro reqLog (int (length keys)) 0 keys [] w1 = (r, se, w')"
    "clock w1 = clock (snd (call (NewString E) w))"
proof -
  obtain rid w1 where id: "call (NewString E) w = (rid, w1)" by force
  define reqLog where "reqLog = [(''request_id'', LStr rid), (''image_count'', LInt (int (length keys)))]"
  define w2 where "w2 = slog LevelInfo ''validate: received request'' reqLog w1"
  from K.keychain_answers obtain kc where kc: "k ctx w2 = (Inr kc, w2)" by blast
  have "metrics w2 = metrics w" using call_frame(1) [OF id] by (simp add: w2_def)
  moreover from assms id kc have "validate_images (provider_New v k f opts) E ctx (opts kc) reqLog
      (int (length keys)) 0 keys [] w2 = (r, se, w')"
    by (simp add: validate_body_def Let_def reqLog_def w2_def provider_New_def)
  moreover have "clock w2 = clock (snd (call (NewString E) w))" by (simp add: id w2_def)
  ultimately show thesis by (rule that)
qed

lemma validate_images_systemErr:
  assumes "validate_images (provider_New v k f opts) E ctx ro reqLog n i keys [] w = (Ret resp, se, w')"
  shows "se \<longleftrightarrow> resp_SystemError resp \<noteq> ''''"
proof -
  from validate_images_verdicts [OF assms] obtain vs where
    vs: "decided (provider_New v k f opts) E ctx ro keys vs" "resp = respond E (zip keys vs) []"
      "se \<longleftrightarrow> vs \<noteq> [] \<and> aborts (last vs)" by blast
  have "(\<exists>u \<in> set vs. aborts u) \<longleftrightarrow> vs \<noteq> [] \<and> aborts (last vs)"
    using vs(1) by (cases vs rule: rev_cases) (auto simp: decided_def)
  with respond_abort [of "zip keys vs" E "[]"] respond_no_abort [of "zip keys vs" E "[]"]
    decided_keys(2) [OF vs(1)] vs show ?thesis by auto
qed

text \<open>The request timer and the books of a request that was answered.\<close>

lemma Validate_metrics:
  assumes "Validate (provider_New v k f opts) E ctx keys w = (Ret resp, w')"
  shows "AttestationsReqTimer (metrics w') =
      observe_vec [imageCountLabel (int (length keys)),
        if resp_SystemError resp = '''' then ''success'' else ''failure''] (clock w' - clock w)
        (AttestationsReqTimer (metrics w))"
    and "resp_SystemError resp = '''' \<Longrightarrow> balanced (metrics w) (metrics w') (resp_Items resp)"
proof -
  from assms obtain se w1 where body: "validate_body (provider_New v k f opts) E ctx keys w = (Ret resp, se, w1)"
    and w': "w' = meter (AttestationsReqTimer_update (observe_vec [imageCountLabel (int (length keys)),
      if se then ''failure'' else ''success''] (clock w1 - clock w))) w1"
    by (auto simp: Validate_def split: prod.splits)
  from body obtain ro reqLog w0 where m0: "metrics w0 = metrics w"
    and run: "validate_images (provider_New v k f opts) E ctx ro reqLog (int (length keys)) 0 keys [] w0 =
      (Ret resp, se, w1)" by (rule validate_body_images)
  from validate_images_metrics [OF run] validate_images_systemErr [OF run] m0 w'
  show "AttestationsReqTimer (metrics w') =
      observe_vec [imageCountLabel (int (length keys)),
        if resp_SystemError resp = '''' then ''success'' else ''failure''] (clock w' - clock w)
        (AttestationsReqTimer (metrics w))"
    and "resp_SystemError resp = '''' \<Longrightarrow> balanced (metrics w) (metrics w') (resp_Items resp)"
    by (auto simp: balanced_def)
qed

text \<open>A request panics only when one of its fetches does, and the timer then reports a success.\<close>

lemma verify_bundles_returns:
  assumes "verify_bundles (provider_New v k f opts) E imgLog key result w = (Panic p, se, w')"
  shows "Hash result = None"
proof (rule ccontr)
  assume "Hash result \<noteq> None"
  with V.verify_returns [of "Hash result" "Bundles result" w] assms show False
    by (auto simp: verify_bundles_def provider_New_def Let_def split: sum.splits option.splits if_splits)
qed

lemma validate_image_panic:
  assumes "validate_image (provider_New v k f opts) E ctx ro reqLog n i key results w = (Panic p, se, w')"
  shows "\<not> se \<and> (\<exists>ref w1 w2. f ctx ref ro w1 = (Panic p, w2))"
proof (cases "ParseReference E key")
  case (Inl err)
  with assms show ?thesis by (simp add: validate_image_def Let_def)
next
  case (Inr ref)
  with assms show ?thesis
  proof (cases rule: validate_image_fetch)
    case (success imgLog result dur w1 w2)
    then obtain w3 where vb: "verify_bundles (provider_New v k f opts) E imgLog key result w3 = (Panic p, se, w')"
      and "Bundles result \<noteq> []"
      by (auto simp: fetched_def Let_def split: if_splits)
    with F.fetch_hash [OF success(2)] verify_bundles_returns [OF vb] show ?thesis by simp
  qed (auto simp: fetch_failed_def Let_def split: prod.splits if_splits)
qed

lemma Validate_panic:
  assumes "Validate (provider_New v k f opts) E ctx keys w = (Panic p, w')"
  shows "(\<exists>ref ro w1 w2. f ctx ref ro w1 = (Panic p, w2)) \<and>
    AttestationsReqTimer (metrics w') =
      observe_vec [imageCountLabel (int (length keys)), ''success''] (clock w' - clock w)
        (AttestationsReqTimer (metrics w))"
proof -
  have images: "\<not> se \<and> (\<exists>ref w1 w2. f ctx ref ro w1 = (Panic p, w2))"
    if "validate_images (provider_New v k f opts) E ctx ro reqLog n i keys results w = (Panic p, se, w')"
    for ro reqLog n i results w se w'
    using that
    by (induction keys arbitrary: i results w)
       (auto split: prod.splits go.splits image_end.splits dest: validate_image_panic)
  from assms obtain se w1 where body: "validate_body (provider_New v k f opts) E ctx keys w = (Panic p, se, w1)"
    and w': "w' = meter (AttestationsReqTimer_update (observe_vec [imageCountLabel (int (length keys)),
      if se then ''failure'' else ''success''] (clock w1 - clock w))) w1"
    by (auto simp: Validate_def split: prod.splits)
  from body obtain ro reqLog w0 where m0: "metrics w0 = metrics w"
    and run: "validate_images (provider_New v k f opts) E ctx ro reqLog (int (length keys)) 0 keys [] w0 =
      (Panic p, se, w1)" by (rule validate_body_images)
  from images [OF run] validate_images_metrics [OF run] m0 w' show ?thesis by auto
qed

end

section \<open>The image count label\<close>

lemma imageCountLabel_range: "imageCountLabel (int n) \<in> set (map (\<lambda>i. Itoa (int i)) [0..<11] @ [''10+''])"
proof -
  have "Itoa 10 = ''10''" by code_simp
  then show ?thesis by (auto simp: imageCountLabel_def maxImageCountLabel_def simp del: upt_Suc)
qed

text \<open>
  The image-count label of the request timer is bounded whatever the request holds (eleven exact
  labels and one for all larger counts), and exact up to the cap: two counts up to ten have the
  same label only if they are equal, and no count above ten shares a label with one up to ten.
\<close>

theorem imageCountLabel_bounded:
  "imageCountLabel (int n) \<in> set (map (\<lambda>i. Itoa (int i)) [0..<11] @ [''10+'']) \<and>
   (imageCountLabel (int m) = imageCountLabel (int n) \<longleftrightarrow> m = n \<or> 10 < m \<and> 10 < n)"
proof -
  have ten: "Itoa 10 = ''10''" by code_simp
  have "digit_char d \<noteq> CHR ''+''" if "d < 10" for d
    using that by (simp add: digit_char_eq)
  then have plus: "CHR ''+'' \<notin> set (nat_str i)" for i
    using nat_str_digits by metis
  have ne: "Itoa (int i) \<noteq> ''10+''" for i
    using plus [of i] by (auto simp: Itoa_def)
  show ?thesis
    by (auto simp: imageCountLabel_def maxImageCountLabel_def ten ne ne [symmetric] simp del: upt_Suc)
qed

end
