(* ===== verification/Float64.thy ===== *)
theory Float64
  imports Complex_Main
begin

text \<open>
  The part of Go's \<^verbatim>\<open>float64\<close> arithmetic that the time-out derivation uses: conversion from an integer,
  multiplication and conversion to an integer, in IEEE 754 binary64 with rounding to nearest, ties
  to even. A value is a pair (m, e) standing for m times 2 to the e; values stay far from the
  limits of the exponent range here, so overflow and subnormal numbers are left out.
\<close>

type_synonym float64 = "int \<times> int"

fun nbits :: "nat \<Rightarrow> nat" where
  "nbits n = (if n = 0 then 0 else Suc (nbits (n div 2)))"

declare nbits.simps [simp del]

lemma nbits_numeral [simp]:
  "nbits 0 = 0" "nbits (Suc 0) = 1" "nbits 1 = 1"
  "nbits (numeral (num.Bit0 k)) = Suc (nbits (numeral k))"
  "nbits (numeral (num.Bit1 k)) = Suc (nbits (numeral k))"
  by (simp_all add: nbits.simps [of 0] nbits.simps [of 1] nbits.simps [of "Suc 0"]
      nbits.simps [of "numeral (num.Bit0 k)"] nbits.simps [of "numeral (num.Bit1 k)"])

definition round_shift :: "nat \<Rightarrow> nat \<Rightarrow> nat" where
  "round_shift n s =
     (let q = n div 2 ^ s; r = n mod 2 ^ s
      in if 2 * r < 2 ^ s then q
         else if 2 ^ s < 2 * r then q + 1
         else if even q then q else q + 1)"

definition f64_round :: "int \<times> int \<Rightarrow> float64" where
  "f64_round x =
     (case x of (m, e) \<Rightarrow>
        let s = nbits (nat \<bar>m\<bar>) - 53
        in if s = 0 then (m, e) else (sgn m * int (round_shift (nat \<bar>m\<bar>) s), e + int s))"

definition f64_of_int :: "int \<Rightarrow> float64" where
  "f64_of_int i = f64_round (i, 0)"

definition f64_mult :: "float64 \<Rightarrow> float64 \<Rightarrow> float64" where
  "f64_mult x y = f64_round (fst x * fst y, snd x + snd y)"

definition f64_to_int :: "float64 \<Rightarrow> int" where
  "f64_to_int x =
     (if 0 \<le> snd x then fst x * 2 ^ nat (snd x)
      else sgn (fst x) * (\<bar>fst x\<bar> div 2 ^ nat (- snd x)))"

definition f64_val :: "float64 \<Rightarrow> real" where
  "f64_val x = real_of_int (fst x) * 2 powi snd x"

section \<open>Rounding errors\<close>

lemma nbits_lower: "0 < n \<Longrightarrow> 2 ^ (nbits n - 1) \<le> n"
proof (induction n rule: nbits.induct)
  case (1 n)
  show ?case
  proof (cases "n div 2 = 0")
    case True
    with "1.prems" show ?thesis by (simp add: nbits.simps)
  next
    case False
    then have "2 ^ (nbits (n div 2) - 1) \<le> n div 2" using 1 by auto
    moreover obtain b where b: "nbits (n div 2) = Suc b"
      using False by (simp add: nbits.simps [of "n div 2"])
    ultimately have "2 ^ nbits (n div 2) \<le> n" by simp
    then show ?thesis using "1.prems" by (simp add: nbits.simps [of n])
  qed
qed

lemma round_shift_error: "2 * \<bar>int (round_shift n s) * 2 ^ s - int n\<bar> \<le> 2 ^ s"
proof -
  have n: "int n = int (n div 2 ^ s) * 2 ^ s + int (n mod 2 ^ s)"
    using arg_cong [OF div_mult_mod_eq [of n "2 ^ s"], of int] by (simp del: div_mult_mod_eq)
  have r: "int (n mod 2 ^ s) < 2 ^ s" and "0 \<le> int (n mod 2 ^ s)"
    by (simp_all add: of_nat_less_iff [of _ "2 ^ s", simplified])
  have cmp: "2 * (n mod 2 ^ s) < 2 ^ s \<longleftrightarrow> 2 * int (n mod 2 ^ s) < 2 ^ s"
    "2 ^ s < 2 * (n mod 2 ^ s) \<longleftrightarrow> 2 ^ s < 2 * int (n mod 2 ^ s)"
    using of_nat_less_iff [where 'a = int, of "2 * (n mod 2 ^ s)" "2 ^ s"]
      of_nat_less_iff [where 'a = int, of "2 ^ s" "2 * (n mod 2 ^ s)"]
    by (simp_all del: of_nat_less_iff)
  show ?thesis
    unfolding n using r \<open>0 \<le> int (n mod 2 ^ s)\<close>
    by (auto simp: round_shift_def Let_def cmp algebra_simps)
qed

lemma f64_round_error:
  "\<bar>f64_val (f64_round (m, e)) - real_of_int m * 2 powi e\<bar> \<le> \<bar>real_of_int m\<bar> * 2 powi e / 2 ^ 53"
proof (cases "nbits (nat \<bar>m\<bar>) \<le> 53")
  case True
  then show ?thesis by (simp add: f64_round_def f64_val_def)
next
  case False
  define n s where "n = nat \<bar>m\<bar>" and "s = nbits n - 53"
  have s: "0 < s" "nbits n - 1 = s + 52" using False by (simp_all add: n_def s_def)
  have "m \<noteq> 0" using False by (auto simp: nbits.simps)
  then have "0 < n" by (simp add: n_def)
  then have "2 ^ (s + 52) \<le> n" using nbits_lower [of n] s by simp
  then have "real (2 ^ (s + 52)) \<le> real n" by (simp only: of_nat_le_iff)
  then have small: "(2::real) ^ s \<le> real n / 2 ^ 52"
    by (simp add: power_add field_simps)
  have "2 * \<bar>int (round_shift n s) * 2 ^ s - int n\<bar> \<le> 2 ^ s" by (rule round_shift_error)
  then have "real_of_int (2 * \<bar>int (round_shift n s) * 2 ^ s - int n\<bar>) \<le> real_of_int (2 ^ s)"
    by (simp only: of_int_le_iff)
  then have err: "\<bar>real (round_shift n s) * 2 ^ s - real n\<bar> \<le> real n / 2 ^ 53"
    using small by simp
  have m: "real_of_int m = real_of_int (sgn m) * real n" by (simp add: n_def sgn_if)
  have v: "f64_val (f64_round (m, e)) = real_of_int (sgn m) * (real (round_shift n s) * 2 ^ s) * 2 powi e"
    using s False by (simp add: f64_round_def f64_val_def Let_def n_def [symmetric] s_def [symmetric]
        power_int_add algebra_simps)
  have "\<bar>f64_val (f64_round (m, e)) - real_of_int m * 2 powi e\<bar> =
      \<bar>real (round_shift n s) * 2 ^ s - real n\<bar> * 2 powi e"
    using \<open>m \<noteq> 0\<close> unfolding v m
    by (simp add: abs_mult sgn_if flip: left_diff_distrib right_diff_distrib)
  also have "\<dots> \<le> real n / 2 ^ 53 * 2 powi e"
    using err by (rule mult_right_mono) simp
  finally show ?thesis by (simp add: n_def)
qed

text \<open>The relative error of one rounding.\<close>

definition f64_eps :: real where
  "f64_eps = 1 / 2 ^ 53"

lemma f64_eps_bounds: "0 < f64_eps" "f64_eps < 1"
  by (simp_all add: f64_eps_def)

lemma relative_error:
  fixes v x :: real
  assumes "\<bar>v - x\<bar> \<le> \<bar>x\<bar> / 2 ^ 53" and "0 \<le> x"
  shows "x * (1 - f64_eps) \<le> v" and "v \<le> x * (1 + f64_eps)"
proof -
  have "\<bar>x\<bar> / 2 ^ 53 = x * f64_eps" using assms(2) by (simp add: f64_eps_def)
  with assms have "\<bar>v - x\<bar> \<le> x * f64_eps" by (simp only:)
  then show "x * (1 - f64_eps) \<le> v" and "v \<le> x * (1 + f64_eps)"
    by (auto simp: abs_le_iff right_diff_distrib distrib_left)
qed

lemma f64_of_int_bounds:
  assumes "0 \<le> i"
  shows "real_of_int i * (1 - f64_eps) \<le> f64_val (f64_of_int i)"
    and "f64_val (f64_of_int i) \<le> real_of_int i * (1 + f64_eps)"
  using relative_error [of "f64_val (f64_of_int i)" "real_of_int i"] f64_round_error [of i 0] assms
  by (simp_all add: f64_of_int_def)

lemma f64_mult_bounds:
  assumes "0 \<le> f64_val x * f64_val y"
  shows "f64_val x * f64_val y * (1 - f64_eps) \<le> f64_val (f64_mult x y)"
    and "f64_val (f64_mult x y) \<le> f64_val x * f64_val y * (1 + f64_eps)"
proof -
  have "\<bar>f64_val (f64_mult x y) - f64_val x * f64_val y\<bar> \<le> \<bar>f64_val x * f64_val y\<bar> / 2 ^ 53"
    using f64_round_error [of "fst x * fst y" "snd x + snd y"]
    by (simp add: f64_mult_def f64_val_def power_int_add abs_mult mult_ac)
  from relative_error [OF this assms]
  show "f64_val x * f64_val y * (1 - f64_eps) \<le> f64_val (f64_mult x y)"
    and "f64_val (f64_mult x y) \<le> f64_val x * f64_val y * (1 + f64_eps)" .
qed

lemma f64_to_int_floor:
  assumes "0 \<le> fst x"
  shows "real_of_int (f64_to_int x) \<le> f64_val x" and "f64_val x < real_of_int (f64_to_int x) + 1"
proof -
  have "real_of_int (f64_to_int x) \<le> f64_val x \<and> f64_val x < real_of_int (f64_to_int x) + 1"
  proof (cases "0 \<le> snd x")
    case True
    then show ?thesis by (simp add: f64_to_int_def f64_val_def power_int_def)
  next
    case False
    define k where "k = nat (- snd x)"
    have val: "f64_val x = real_of_int (fst x) / 2 ^ k"
      using False unfolding f64_val_def power_int_def k_def
      by (simp only: if_False power_inverse divide_inverse)
    have "f64_to_int x = fst x div 2 ^ k"
      using False assms by (cases "fst x = 0") (simp_all add: f64_to_int_def k_def)
    then have "f64_to_int x = \<lfloor>f64_val x\<rfloor>"
      using floor_divide_of_int_eq [where 'a = real, of "fst x" "2 ^ k"] by (simp add: val)
    then show ?thesis by linarith
  qed
  then show "real_of_int (f64_to_int x) \<le> f64_val x" and "f64_val x < real_of_int (f64_to_int x) + 1"
    by auto
qed

lemma f64_round_nonneg: "0 \<le> m \<Longrightarrow> 0 \<le> fst (f64_round (m, e))"
  by (simp add: f64_round_def Let_def sgn_if)

end
