(* ===== verification/Registry_Transport.thy ===== *)
theory Registry_Transport
  imports Go_Prelude Float64
begin

text \<open>
  The fetcher's package variables and the HTTP transport derived from them
  (pkg/fetcher/bundle.go): the per-phase connection time-outs, the dialer, the transport and the
  options handed to the registry client. The stock transport of the registry client is a
  parameter; what is cloned from it unchanged is the field \<open>t_rest\<close>.
\<close>

section \<open>Package variables\<close>

record Dialer =
  d_Timeout :: duration
  d_KeepAlive :: duration

record 't Transport =
  t_DialContext :: Dialer
  t_TLSHandshakeTimeout :: duration
  t_ResponseHeaderTimeout :: duration
  t_IdleConnTimeout :: duration
  t_MaxIdleConns :: int
  t_MaxIdleConnsPerHost :: int
  t_rest :: 't

record 't FetcherVars =
  UserAgentString :: string
  MaxAttempts :: int
  Timeout :: duration
  Delay :: duration
  RetryThrottled :: bool
  DialTimeoutOverride :: duration
  TLSHandshakeTimeoutOverride :: duration
  ResponseHeaderTimeoutOverride :: duration
  DialKeepAlive :: duration
  IdleConnTimeout :: duration
  MaxIdleConns :: int
  MaxIdleConnsPerHost :: int
  TraceEnabled :: bool
  registryTransport :: "'t Transport"

section \<open>Phase time-outs\<close>

text \<open>The constants 0.6 and 0.8 as the nearest binary64 values.\<close>

definition dialTimeoutFraction :: float64 where
  "dialTimeoutFraction = (5404319552844595, -53)"

definition tlsHandshakeTimeoutFraction :: float64 where
  "tlsHandshakeTimeoutFraction = (5404319552844595, -53)"

definition responseHeaderTimeoutFraction :: float64 where
  "responseHeaderTimeoutFraction = (7205759403792794, -53)"

definition minPhaseTimeout :: duration where
  "minPhaseTimeout = 250 * Millisecond"

lemmas fraction_defs [go_defs] =
  dialTimeoutFraction_def tlsHandshakeTimeoutFraction_def responseHeaderTimeoutFraction_def
  minPhaseTimeout_def

definition pickPhaseTimeout :: "duration \<Rightarrow> duration \<Rightarrow> float64 \<Rightarrow> duration" where
  "pickPhaseTimeout override bundleTimeout fraction =
     (if 0 < override then override
      else
        (let derived = f64_to_int (f64_mult (f64_of_int bundleTimeout) fraction)
         in if derived < minPhaseTimeout then minPhaseTimeout else derived))"

definition resolveTransportTimeouts ::
  "'t FetcherVars \<Rightarrow> duration \<Rightarrow> duration \<times> duration \<times> duration" where
  "resolveTransportTimeouts vars bundleTimeout =
     (pickPhaseTimeout (DialTimeoutOverride vars) bundleTimeout dialTimeoutFraction,
      pickPhaseTimeout (TLSHandshakeTimeoutOverride vars) bundleTimeout tlsHandshakeTimeoutFraction,
      pickPhaseTimeout (ResponseHeaderTimeoutOverride vars) bundleTimeout responseHeaderTimeoutFraction)"

section \<open>Dialer and transport\<close>

definition newRegistryDialer :: "'t FetcherVars \<Rightarrow> duration \<Rightarrow> Dialer" where
  "newRegistryDialer vars timeout = \<lparr>d_Timeout = timeout, d_KeepAlive = DialKeepAlive vars\<rparr>"

definition newRegistryTransport :: "'t Transport \<Rightarrow> 't FetcherVars \<Rightarrow> 't Transport" where
  "newRegistryTransport DefaultTransport vars =
     (case resolveTransportTimeouts vars (Timeout vars) of (dial, tlsHandshake, responseHeader) \<Rightarrow>
        DefaultTransport\<lparr>
          t_DialContext := newRegistryDialer vars dial,
          t_TLSHandshakeTimeout := tlsHandshake,
          t_ResponseHeaderTimeout := responseHeader,
          t_IdleConnTimeout := IdleConnTimeout vars,
          t_MaxIdleConns := MaxIdleConns vars,
          t_MaxIdleConnsPerHost := MaxIdleConnsPerHost vars\<rparr>)"

definition ConfigureTransport :: "'t Transport \<Rightarrow> 't FetcherVars \<Rightarrow> 't FetcherVars" where
  "ConfigureTransport DefaultTransport vars =
     vars\<lparr>registryTransport := newRegistryTransport DefaultTransport vars\<rparr>"

text \<open>The variables' initial values; \<^verbatim>\<open>goos\<close> and \<^verbatim>\<open>goarch\<close> are the platform's constants.\<close>

definition initial_vars :: "string \<Rightarrow> string \<Rightarrow> 't Transport \<Rightarrow> 't FetcherVars" where
  "initial_vars goos goarch DefaultTransport =
     ConfigureTransport DefaultTransport \<lparr>
       UserAgentString =
         ''artifact-attestations-opa-provider/dev ('' @ goos @ ''; '' @ goarch @ '')'',
       MaxAttempts = 3, Timeout = 3 * Second, Delay = 0, RetryThrottled = False,
       DialTimeoutOverride = 0, TLSHandshakeTimeoutOverride = 0, ResponseHeaderTimeoutOverride = 0,
       DialKeepAlive = 10 * Second, IdleConnTimeout = 10 * Second,
       MaxIdleConns = 25, MaxIdleConnsPerHost = 25, TraceEnabled = True,
       registryTransport = DefaultTransport\<rparr>"

text \<open>
  The options of the registry client that the fetcher uses: \<open>'k\<close> is the keychain type, \<open>'h\<close> the type
  of the client's handles (here a puller).
\<close>

datatype ('c, 'k, 't, 'h) RemoteOption =
    WithUserAgent string
  | WithAuthFromKeychain 'k
  | WithTransport "'t Transport"
  | WithContext 'c
  | Reuse 'h

definition GetRemoteOptions :: "'t FetcherVars \<Rightarrow> 'k \<Rightarrow> ('c, 'k, 't, 'h) RemoteOption list" where
  "GetRemoteOptions vars kc =
     [WithUserAgent (UserAgentString vars), WithAuthFromKeychain kc, WithTransport (registryTransport vars)]"

section \<open>Bounds of the phase time-outs\<close>

lemma derived_bounds:
  assumes "0 \<le> T" and "0 \<le> fst f"
  shows "real_of_int (f64_to_int (f64_mult (f64_of_int T) f)) \<le> T * f64_val f * (1 + f64_eps) ^ 2"
    and "T * f64_val f * (1 - f64_eps) ^ 2 < real_of_int (f64_to_int (f64_mult (f64_of_int T) f)) + 1"
proof -
  define x where "x = f64_val (f64_of_int T)"
  define p where "p = f64_val (f64_mult (f64_of_int T) f)"
  note u = f64_eps_bounds
  have f: "0 \<le> f64_val f" using assms(2) by (simp add: f64_val_def)
  note x = f64_of_int_bounds [OF assms(1), folded x_def]
  have "0 \<le> T * (1 - f64_eps)" using assms(1) u by simp
  then have "0 \<le> x" using x(1) by linarith
  then have "0 \<le> f64_val (f64_of_int T) * f64_val f" using f by (simp add: x_def)
  note p = f64_mult_bounds [OF this, folded x_def p_def]
  have "x * f64_val f * (1 + f64_eps) \<le> T * (1 + f64_eps) * f64_val f * (1 + f64_eps)"
    using x(2) f u by (intro mult_right_mono) auto
  with p(2) have hi: "p \<le> T * f64_val f * (1 + f64_eps) ^ 2" by (simp add: power2_eq_square mult_ac)
  have "T * (1 - f64_eps) * f64_val f * (1 - f64_eps) \<le> x * f64_val f * (1 - f64_eps)"
    using x(1) f u by (intro mult_right_mono) auto
  with p(1) have lo: "T * f64_val f * (1 - f64_eps) ^ 2 \<le> p" by (simp add: power2_eq_square mult_ac)
  have "0 \<le> fst (f64_mult (f64_of_int T) f)"
    unfolding f64_mult_def using assms
    by (intro f64_round_nonneg mult_nonneg_nonneg) (simp_all add: f64_of_int_def f64_round_nonneg)
  from f64_to_int_floor [OF this, folded p_def] hi lo
  show "real_of_int (f64_to_int (f64_mult (f64_of_int T) f)) \<le> T * f64_val f * (1 + f64_eps) ^ 2"
    and "T * f64_val f * (1 - f64_eps) ^ 2 < real_of_int (f64_to_int (f64_mult (f64_of_int T) f)) + 1"
    by linarith+
qed

lemma f64_val_neg53: "f64_val (m, -53) = real_of_int m / 2 ^ 53"
  by (simp only: f64_val_def fst_conv snd_conv power_int_minus power_int_numeral divide_inverse)

text \<open>A fraction of at most 0.9 keeps the derived time-out below the budget.\<close>

lemma derived_below_budget:
  assumes "0 < T" and "0 \<le> fst f" and "f64_val f \<le> 9 / 10"
  shows "f64_to_int (f64_mult (f64_of_int T) f) < T"
proof -
  have "real_of_int (f64_to_int (f64_mult (f64_of_int T) f)) \<le> T * f64_val f * (1 + f64_eps) ^ 2"
    using assms by (intro derived_bounds) auto
  also have "\<dots> = T * (f64_val f * (1 + f64_eps) ^ 2)" by simp
  also have "\<dots> \<le> T * (9 / 10 * (1 + f64_eps) ^ 2)"
    using assms by (intro mult_left_mono mult_right_mono) auto
  also have "\<dots> < real_of_int T * 1"
    using assms(1) by (intro mult_strict_left_mono) (simp_all add: f64_eps_def power2_eq_square)
  finally show ?thesis by simp
qed

lemma pickPhaseTimeout_bounds:
  assumes "minPhaseTimeout < T" and "0 \<le> fst f" and "f64_val f \<le> 9 / 10" and "override \<le> 0"
  shows "minPhaseTimeout \<le> pickPhaseTimeout override T f" and "pickPhaseTimeout override T f < T"
proof -
  have "0 < T" using assms(1) by (simp add: go_defs)
  from derived_below_budget [OF this assms(2,3)] assms
  show "minPhaseTimeout \<le> pickPhaseTimeout override T f" and "pickPhaseTimeout override T f < T"
    by (auto simp: pickPhaseTimeout_def Let_def)
qed

text \<open>
  C30. Without overrides every phase of connection establishment (dial, TLS handshake, wait for the
  response headers) gets a time-out of at least 250ms and, for a per-attempt budget above 250ms,
  strictly below the budget, so a stall is abandoned while the attempt still has time left.
\<close>

theorem phase_timeouts_below_budget:
  assumes "minPhaseTimeout < T"
    and "DialTimeoutOverride vars = 0" "TLSHandshakeTimeoutOverride vars = 0"
      "ResponseHeaderTimeoutOverride vars = 0"
  shows "case resolveTransportTimeouts vars T of (dial, tlsHandshake, responseHeader) \<Rightarrow>
    minPhaseTimeout \<le> dial \<and> dial < T \<and> minPhaseTimeout \<le> tlsHandshake \<and> tlsHandshake < T \<and>
    minPhaseTimeout \<le> responseHeader \<and> responseHeader < T"
  using assms pickPhaseTimeout_bounds [OF assms(1)]
  by (auto simp: resolveTransportTimeouts_def dialTimeoutFraction_def f64_val_neg53
      tlsHandshakeTimeoutFraction_def responseHeaderTimeoutFraction_def)

lemma derived_near:
  assumes "0 \<le> T" "T \<le> 2 ^ 50" and "0 \<le> fst f" and "\<bar>f64_val f - q\<bar> \<le> f64_eps" and "0 \<le> q" "q \<le> 1"
  shows "\<bar>real_of_int (f64_to_int (f64_mult (f64_of_int T) f)) - q * T\<bar> < 2"
proof -
  define t where "t = T * f64_eps"
  note e = f64_eps_bounds
  have "real_of_int T \<le> 2 ^ 50" using assms(2) by (metis of_int_le_iff of_int_numeral of_int_power)
  then have t: "0 \<le> t" "t \<le> 1 / 8" using assms(1) by (simp_all add: t_def f64_eps_def)
  have f: "0 \<le> f64_val f" "f64_val f \<le> q + f64_eps" "q - f64_eps \<le> f64_val f"
    using assms(3,4) by (auto simp: f64_val_def)
  have et: "f64_eps * t \<le> t" "q * t \<le> t" "f64_val f * t \<le> 2 * t"
    using t e f assms(5,6) by (auto intro!: mult_left_le_one_le mult_right_mono)
  have "f64_eps * f64_eps \<le> f64_eps" using e by (intro mult_left_le_one_le) auto
  then have "(1 + f64_eps) ^ 2 \<le> 1 + 3 * f64_eps" "1 - 2 * f64_eps \<le> (1 - f64_eps) ^ 2"
    using e by (auto simp: power2_eq_square algebra_simps)
  then have "T * f64_val f * (1 + f64_eps) ^ 2 \<le> T * (q + f64_eps) * (1 + 3 * f64_eps)"
    and "T * f64_val f * (1 - 2 * f64_eps) \<le> T * f64_val f * (1 - f64_eps) ^ 2"
    using assms(1) f e by (auto intro!: mult_mono mult_left_mono)
  moreover have "T * (q + f64_eps) * (1 + 3 * f64_eps) = q * T + t + 3 * (q * t) + 3 * (f64_eps * t)"
    and "T * f64_val f * (1 - 2 * f64_eps) = T * f64_val f - 2 * (f64_val f * t)"
    by (simp_all add: t_def algebra_simps)
  moreover have "T * (q - f64_eps) \<le> T * f64_val f" using assms(1) f by (intro mult_left_mono) auto
  then have "q * T - t \<le> T * f64_val f" by (simp add: t_def algebra_simps)
  ultimately show ?thesis using derived_bounds [OF assms(1,3)] et t by (simp add: abs_less_iff)
qed

lemma pick_near:
  assumes "Second \<le> T" "T \<le> 2 ^ 50" and "0 \<le> fst f" and "\<bar>f64_val f - q\<bar> \<le> f64_eps"
    and "1 / 2 \<le> q" "q \<le> 1"
  shows "\<bar>real_of_int (pickPhaseTimeout 0 T f) - q * T\<bar> < 2"
proof -
  have T: "10 ^ 9 \<le> T" using assms(1) by (simp add: go_defs)
  have near: "\<bar>real_of_int (f64_to_int (f64_mult (f64_of_int T) f)) - q * T\<bar> < 2"
    using T assms by (intro derived_near) auto
  have "real_of_int (10 ^ 9) \<le> real_of_int T" using T by (simp only: of_int_le_iff)
  then have "1 / 2 * 10 ^ 9 \<le> q * T" using assms(5) by (intro mult_mono) auto
  with near have "\<not> f64_to_int (f64_mult (f64_of_int T) f) < minPhaseTimeout"
    by (simp add: go_defs abs_less_iff)
  with near show ?thesis by (simp add: pickPhaseTimeout_def)
qed

text \<open>
  The derived time-outs are the documented fractions: for budgets from one second to 13 days the
  dial and TLS time-outs differ from three fifths, and the response-header time-out from four
  fifths, of the budget by less than two nanoseconds, in spite of the rounding of the
  floating-point arithmetic.
\<close>

theorem phase_timeouts_are_fractions:
  assumes "Second \<le> T" and "T \<le> 2 ^ 50"
    and "DialTimeoutOverride vars = 0" "TLSHandshakeTimeoutOverride vars = 0"
      "ResponseHeaderTimeoutOverride vars = 0"
  shows "case resolveTransportTimeouts vars T of (dial, tlsHandshake, responseHeader) \<Rightarrow>
    \<bar>real_of_int dial - 3 / 5 * T\<bar> < 2 \<and> \<bar>real_of_int tlsHandshake - 3 / 5 * T\<bar> < 2 \<and>
    \<bar>real_of_int responseHeader - 4 / 5 * T\<bar> < 2"
proof -
  have "\<bar>f64_val dialTimeoutFraction - 3 / 5\<bar> \<le> f64_eps"
    "\<bar>f64_val tlsHandshakeTimeoutFraction - 3 / 5\<bar> \<le> f64_eps"
    "\<bar>f64_val responseHeaderTimeoutFraction - 4 / 5\<bar> \<le> f64_eps"
    by (simp_all add: fraction_defs f64_val_neg53 f64_eps_def)
  from this [THEN pick_near [OF assms(1,2), rotated]] assms show ?thesis
    by (simp add: resolveTransportTimeouts_def fraction_defs)
qed

section \<open>Concrete budgets\<close>

definition no_transport :: "unit Transport" where
  "no_transport = \<lparr>t_DialContext = \<lparr>d_Timeout = 30 * Second, d_KeepAlive = 30 * Second\<rparr>,
     t_TLSHandshakeTimeout = 10 * Second, t_ResponseHeaderTimeout = 0, t_IdleConnTimeout = 90 * Second,
     t_MaxIdleConns = 100, t_MaxIdleConnsPerHost = 50, t_rest = ()\<rparr>"

lemma initial_overrides [simp]:
  "DialTimeoutOverride (initial_vars goos goarch dt) = 0"
  "TLSHandshakeTimeoutOverride (initial_vars goos goarch dt) = 0"
  "ResponseHeaderTimeoutOverride (initial_vars goos goarch dt) = 0"
  by (simp_all add: initial_vars_def ConfigureTransport_def)

lemma resolve_2500ms:
  "resolveTransportTimeouts (initial_vars goos goarch no_transport) (2500 * Millisecond) =
     (1500 * Millisecond, 1500 * Millisecond, 2000 * Millisecond)"
  by (simp add: resolveTransportTimeouts_def pickPhaseTimeout_def f64_of_int_def f64_mult_def
      f64_to_int_def f64_round_def round_shift_def fraction_defs duration_defs)

theorem phase_timeouts_below_budget_witness:
  "resolveTransportTimeouts (initial_vars ''linux'' ''amd64'' no_transport) (2500 * Millisecond) =
     (1500 * Millisecond, 1500 * Millisecond, 2000 * Millisecond) \<and>
   minPhaseTimeout \<le> 1500 * Millisecond \<and> 2000 * Millisecond < 2500 * Millisecond"
  using phase_timeouts_below_budget [of "2500 * Millisecond" "initial_vars ''linux'' ''amd64'' no_transport"]
  by (simp add: resolve_2500ms) (simp add: go_defs)

theorem phase_timeouts_are_fractions_witness:
  "resolveTransportTimeouts (initial_vars ''linux'' ''amd64'' no_transport) (2500 * Millisecond) =
     (1500 * Millisecond, 1500 * Millisecond, 2000 * Millisecond) \<and>
   \<bar>real_of_int (1500 * Millisecond) - 3 / 5 * real_of_int (2500 * Millisecond)\<bar> < 2"
proof -
  have "Second \<le> 2500 * Millisecond" "2500 * Millisecond \<le> 2 ^ 50" by (simp_all add: go_defs)
  from phase_timeouts_are_fractions [OF this, of "initial_vars ''linux'' ''amd64'' no_transport"]
  show ?thesis by (simp add: resolve_2500ms)
qed

end
