(* ===== verification/Registry_Fetch.thy ===== *)
theory Registry_Fetch
  imports Provider_Ifaces Registry_Transport
begin

text \<open>
  One fetch attempt against an OCI registry and the retried fetch built on it:
  \<^verbatim>\<open>DoBundleFromName\<close> and \<^verbatim>\<open>BundleFromName\<close> of pkg/fetcher/bundle.go. The registry client
  (go-containerregistry) and the bundle decoder (sigstore-go) are a record of functions: every
  call that does I/O is a function on the outside world, handles of the client (pullers, indexes,
  images, layers, readers) have the type \<open>'h\<close> and references the type \<open>'r\<close>.
\<close>

section \<open>The registry client\<close>

record Descriptor =
  Digest :: Hash
  ArtifactType :: string

type_synonym ('k, 't, 'h) options = "(Context, 'k, 't, 'h) RemoteOption list"

record ('x, 'k, 't, 'h, 'r, 'b) Remote =
  NewPuller :: "('k, 't, 'h) options \<Rightarrow> 'h result"
  Get :: "'r \<Rightarrow> ('k, 't, 'h) options \<Rightarrow> ('x, Descriptor result) outside"
  Referrers :: "'r \<Rightarrow> ('k, 't, 'h) options \<Rightarrow> ('x, 'h result) outside"
  IndexManifest :: "'h \<Rightarrow> ('x, Descriptor list result) outside"
  Image :: "'r \<Rightarrow> ('k, 't, 'h) options \<Rightarrow> ('x, 'h result) outside"
  Layers :: "'h \<Rightarrow> ('x, 'h list result) outside"
  Uncompressed :: "'h \<Rightarrow> ('x, 'h result) outside"
  ReadAll :: "'h \<Rightarrow> ('x, string result) outside"
  Context_Digest :: "'r \<Rightarrow> string \<Rightarrow> 'r"
  Hash_String :: "Hash \<Rightarrow> string"
  UnmarshalJSON :: "string \<Rightarrow> 'b result"

section \<open>One attempt\<close>

definition bundle_artifact_type :: string where
  "bundle_artifact_type = ''application/vnd.dev.sigstore.bundle''"

definition is_bundle :: "Descriptor \<Rightarrow> bool" where
  "is_bundle d = HasPrefix (ArtifactType d) bundle_artifact_type"

definition decode_error :: "go_error \<Rightarrow> FetchError" where
  "decode_error err = FetchError StepDecode KindBundleInvalid 0 [] 0 False (Some err)"

text \<open>
  The body of the loop for a referrer that is a bundle: fetch the referrer image, read its first
  layer and decode it. Indexing the layers panics when there are none.
\<close>

definition fetch_referrer ::
  "('x, 'k, 't, 'h, 'r, 'b) Remote \<Rightarrow> bool \<Rightarrow> 'r \<Rightarrow> ('k, 't, 'h) options \<Rightarrow> Descriptor \<Rightarrow> 'x world \<Rightarrow>
   'b result go \<times> 'x world" where
  "fetch_referrer R rt ref opts refDesc w =
     (case call (Image R (Context_Digest R ref (Hash_String R (Digest refDesc))) opts) w of
        (Inl err, w) \<Rightarrow> (Ret (Inl (FetchErr (newBlobError rt err))), w)
      | (Inr refImg, w) \<Rightarrow>
     (case call (Layers R refImg) w of
        (Inl err, w) \<Rightarrow> (Ret (Inl (FetchErr (newBlobError rt err))), w)
      | (Inr [], w) \<Rightarrow> (Panic ''index out of range [0] with length 0'', w)
      | (Inr (layer # _), w) \<Rightarrow>
     (case call (Uncompressed R layer) w of
        (Inl err, w) \<Rightarrow> (Ret (Inl (FetchErr (newBlobError rt err))), w)
      | (Inr layer0, w) \<Rightarrow>
     (case call (ReadAll R layer0) w of
        (Inl err, w) \<Rightarrow> (Ret (Inl (FetchErr (newBlobError rt err))), w)
      | (Inr bundleBytes, w) \<Rightarrow>
     (case UnmarshalJSON R bundleBytes of
        Inl err \<Rightarrow> (Ret (Inl (FetchErr (decode_error err))), w)
      | Inr b \<Rightarrow> (Ret (Inr b), w))))))"

fun fetch_referrers ::
  "('x, 'k, 't, 'h, 'r, 'b) Remote \<Rightarrow> bool \<Rightarrow> 'r \<Rightarrow> ('k, 't, 'h) options \<Rightarrow> Descriptor list \<Rightarrow>
   'b list \<Rightarrow> 'x world \<Rightarrow> 'b list result go \<times> 'x world" where
  "fetch_referrers R rt ref opts [] bundles w = (Ret (Inr bundles), w)"
| "fetch_referrers R rt ref opts (refDesc # refDescs) bundles w =
     (if \<not> is_bundle refDesc then fetch_referrers R rt ref opts refDescs bundles w
      else
        (case fetch_referrer R rt ref opts refDesc w of
           (Ret (Inr b), w) \<Rightarrow> fetch_referrers R rt ref opts refDescs (bundles @ [b]) w
         | (Ret (Inl err), w) \<Rightarrow> (Ret (Inl err), w)
         | (Panic m, w) \<Rightarrow> (Panic m, w)))"

definition DoBundleFromName ::
  "('x, 'k, 't, 'h, 'r, 'b) Remote \<Rightarrow> bool \<Rightarrow> 'r \<Rightarrow> ('k, 't, 'h) options \<Rightarrow> ('x, 'b) bundleAttempt" where
  "DoBundleFromName R rt ref ro ctx w =
     (let opts0 = ro @ [WithContext ctx]
      in case NewPuller R opts0 of
        Inl err \<Rightarrow> (Ret (Inl (FetchErr (newDescriptorError rt err))), w)
      | Inr puller \<Rightarrow>
     (let opts = opts0 @ [Reuse puller]
      in case call (Get R ref opts) w of
        (Inl err, w) \<Rightarrow> (Ret (Inl (FetchErr (newDescriptorError rt err))), w)
      | (Inr desc, w) \<Rightarrow>
     (case call (Referrers R (Context_Digest R ref (Hash_String R (Digest desc))) opts) w of
        (Inl err, w) \<Rightarrow> (Ret (Inl (FetchErr (newReferrersError rt err))), w)
      | (Inr referrers, w) \<Rightarrow>
     (case call (IndexManifest R referrers) w of
        (Inl err, w) \<Rightarrow> (Ret (Inl (FetchErr (newReferrersError rt err))), w)
      | (Inr manifests, w) \<Rightarrow>
     (case fetch_referrers R rt ref opts manifests [] w of
        (Ret (Inr bundles), w) \<Rightarrow>
          (Ret (Inr (if bundles = [] then ([], None) else (bundles, Some (Digest desc)))), w)
      | (Ret (Inl err), w) \<Rightarrow> (Ret (Inl err), w)
      | (Panic m, w) \<Rightarrow> (Panic m, w))))))"

section \<open>The retried fetch\<close>

definition BundleFromName ::
  "('x, 'k, 't, 'h, 'r, 'b) Remote \<Rightarrow> scheduler \<Rightarrow> 't FetcherVars \<Rightarrow> Context \<Rightarrow> 'r \<Rightarrow>
   ('k, 't, 'h) options \<Rightarrow> 'x world \<Rightarrow> ('b BundleResult \<times> FetchError option) go \<times> 'x world" where
  "BundleFromName R sched vars ctx ref ro w =
     retryBundle sched ctx (MaxAttempts vars) (Timeout vars) (Delay vars)
       (DoBundleFromName R (RetryThrottled vars) ref ro) w"

text \<open>
  \<^verbatim>\<open>DefaultBundleFetcher\<close> forwards to the package's functions. Its result type is \<^verbatim>\<open>error\<close>, so a fetch
  error becomes an error value.
\<close>

definition DefaultBundleFetcher_BundleFromName ::
  "('x, 'k, 't, 'h, 'r, 'b) Remote \<Rightarrow> scheduler \<Rightarrow> 't FetcherVars \<Rightarrow>
   ('x, 'r, (Context, 'k, 't, 'h) RemoteOption, 'b) fetch_op" where
  "DefaultBundleFetcher_BundleFromName R sched vars ctx ref ro w =
     (case BundleFromName R sched vars ctx ref ro w of
        (Ret (r, oe), w) \<Rightarrow> (Ret (r, map_option FetchErr oe), w)
      | (Panic m, w) \<Rightarrow> (Panic m, w))"

definition DefaultBundleFetcher_GetRemoteOptions ::
  "'t FetcherVars \<Rightarrow> 'k \<Rightarrow> ('c, 'k, 't, 'h) RemoteOption list" where
  "DefaultBundleFetcher_GetRemoteOptions vars kc = GetRemoteOptions vars kc"

section \<open>What an attempt returns\<close>

lemma taxonomy_errors [simp]:
  "taxonomy_error (FetchErr (newDescriptorError rt err))"
  "taxonomy_error (FetchErr (newReferrersError rt err))"
  "taxonomy_error (FetchErr (newBlobError rt err))"
  "taxonomy_error (FetchErr (decode_error err))"
  by (simp_all add: new_error_defs taxonomy_newFetchError)
     (simp add: taxonomy_error_def decode_error_def)

lemma fetch_referrer_error:
  "fetch_referrer R rt ref opts d w = (Ret (Inl err), w') \<Longrightarrow> taxonomy_error err"
  by (auto simp: fetch_referrer_def split: sum.splits prod.splits list.splits)

lemma fetch_referrers_error:
  "fetch_referrers R rt ref opts ds bs w = (Ret (Inl err), w') \<Longrightarrow> taxonomy_error err"
  by (induction R rt ref opts ds bs w rule: fetch_referrers.induct)
     (auto split: if_splits sum.splits prod.splits go.splits dest: fetch_referrer_error)

lemma DoBundleFromName_error:
  "DoBundleFromName R rt ref ro ctx w = (Ret (Inl err), w') \<Longrightarrow> taxonomy_error err"
  by (auto simp: DoBundleFromName_def Let_def split: sum.splits prod.splits go.splits
      dest: fetch_referrers_error)

lemma fetch_referrers_bundles:
  assumes "fetch_referrers R rt ref opts ds bs w = (Ret (Inr bs'), w')"
  shows "\<exists>new. bs' = bs @ new \<and>
    list_all2 (\<lambda>d b. \<exists>w w'. fetch_referrer R rt ref opts d w = (Ret (Inr b), w')) (filter is_bundle ds) new"
  using assms
proof (induction R rt ref opts ds bs w rule: fetch_referrers.induct)
  case (2 R rt ref opts d ds bs w)
  show ?case
  proof (cases "is_bundle d")
    case False
    with 2 show ?thesis by simp
  next
    case True
    with "2.prems" obtain b w1 where one: "fetch_referrer R rt ref opts d w = (Ret (Inr b), w1)"
      and rest: "fetch_referrers R rt ref opts ds (bs @ [b]) w1 = (Ret (Inr bs'), w')"
      by (auto split: prod.splits go.splits sum.splits)
    from "2.IH"(2) [OF _ one [symmetric] refl refl rest] True one show ?thesis by auto
  qed
qed simp

lemma DoBundleFromName_stages:
  assumes "DoBundleFromName R rt ref ro ctx w = (Ret (Inr (bs, h)), w')"
  obtains puller desc idx manifests w1 w2 w3 where
    "NewPuller R (ro @ [WithContext ctx]) = Inr puller"
    and "call (Get R ref (ro @ [WithContext ctx] @ [Reuse puller])) w = (Inr desc, w1)"
    and "call (Referrers R (Context_Digest R ref (Hash_String R (Digest desc)))
           (ro @ [WithContext ctx] @ [Reuse puller])) w1 = (Inr idx, w2)"
    and "call (IndexManifest R idx) w2 = (Inr manifests, w3)"
    and "fetch_referrers R rt ref (ro @ [WithContext ctx] @ [Reuse puller]) manifests [] w3 = (Ret (Inr bs), w')"
    and "h = (if bs = [] then None else Some (Digest desc))"
  using assms
  by (auto simp: DoBundleFromName_def Let_def split: sum.splits prod.splits go.splits if_splits)

text \<open>
  C16. A successful attempt returns exactly the bundles of the image: one decoded bundle per referrer
  whose artifact type is a Sigstore bundle, in the order of the referrers manifest, and nothing for
  any other referrer; the hash is the digest of the image's descriptor, and it is absent exactly
  when there are no bundles.
\<close>

theorem DoBundleFromName_bundles:
  assumes "DoBundleFromName R rt ref ro ctx w = (Ret (Inr (bs, h)), w')"
  shows "\<exists>puller desc idx manifests w1 w2 w3. NewPuller R (ro @ [WithContext ctx]) = Inr puller \<and>
    call (Get R ref (ro @ [WithContext ctx] @ [Reuse puller])) w = (Inr desc, w1) \<and>
    call (Referrers R (Context_Digest R ref (Hash_String R (Digest desc)))
      (ro @ [WithContext ctx] @ [Reuse puller])) w1 = (Inr idx, w2) \<and>
    call (IndexManifest R idx) w2 = (Inr manifests, w3) \<and>
    list_all2 (\<lambda>d b. \<exists>v v'. fetch_referrer R rt ref (ro @ [WithContext ctx] @ [Reuse puller]) d v =
        (Ret (Inr b), v')) (filter is_bundle manifests) bs \<and>
    h = (if bs = [] then None else Some (Digest desc))"
proof -
  obtain puller desc idx manifests w1 w2 w3 where st:
    "NewPuller R (ro @ [WithContext ctx]) = Inr puller"
    "call (Get R ref (ro @ [WithContext ctx] @ [Reuse puller])) w = (Inr desc, w1)"
    "call (Referrers R (Context_Digest R ref (Hash_String R (Digest desc)))
      (ro @ [WithContext ctx] @ [Reuse puller])) w1 = (Inr idx, w2)"
    "call (IndexManifest R idx) w2 = (Inr manifests, w3)"
    "fetch_referrers R rt ref (ro @ [WithContext ctx] @ [Reuse puller]) manifests [] w3 = (Ret (Inr bs), w')"
    "h = (if bs = [] then None else Some (Digest desc))"
    by (rule DoBundleFromName_stages [OF assms])
  from fetch_referrers_bundles [OF st(5)] st show ?thesis by auto
qed

interpretation registry_attempt: bundle_attempt "DoBundleFromName R rt ref ro"
proof
  fix c w b h w'
  assume "DoBundleFromName R rt ref ro c w = (Ret (Inr (b, h)), w')" and "b \<noteq> []"
  then show "h \<noteq> None" by (auto elim: DoBundleFromName_stages)
next
  fix c w err w'
  assume "DoBundleFromName R rt ref ro c w = (Ret (Inl err), w')"
  then show "taxonomy_error err" by (rule DoBundleFromName_error)
qed

text \<open>
  C26. The error of a fetch is always in the taxonomy: whatever the registry does, the failure kind
  is one of the eleven documented ones and the step is one of the four documented ones or empty, so
  the metric labels derived from them stay bounded. A successful fetch that has bundles has a hash.
\<close>

theorem BundleFromName_contract:
  assumes "BundleFromName R sched vars ctx ref ro w = (Ret (r, oe), w')"
  shows "case oe of
      Some fe \<Rightarrow> fe_Kind fe \<in> set known_kinds \<and> fe_Step fe \<in> set known_steps
    | None \<Rightarrow> (Hash r = None \<longrightarrow> Bundles r = [])"
proof (cases oe)
  case None
  with registry_attempt.retried_hash assms show ?thesis by (force simp: BundleFromName_def)
next
  case (Some fe)
  with registry_attempt.retried_taxonomy assms show ?thesis by (force simp: BundleFromName_def)
qed

section \<open>Where bundles come from\<close>

text \<open>Where a bundle of a successful attempt comes from.\<close>

definition bundle_of_image ::
  "('x, 'k, 't, 'h, 'r, 'b) Remote \<Rightarrow> bool \<Rightarrow> 'r \<Rightarrow> Hash \<Rightarrow> 'b \<Rightarrow> bool" where
  "bundle_of_image R rt ref h b \<longleftrightarrow>
     (\<exists>opts desc idx manifests d w1 w2 w3 w4 w5 w6.
        call (Get R ref opts) w1 = (Inr desc, w2) \<and> Digest desc = h \<and>
        call (Referrers R (Context_Digest R ref (Hash_String R h)) opts) w2 = (Inr idx, w3) \<and>
        call (IndexManifest R idx) w3 = (Inr manifests, w4) \<and> d \<in> set manifests \<and> is_bundle d \<and>
        fetch_referrer R rt ref opts d w5 = (Ret (Inr b), w6))"

lemma DoBundleFromName_origin:
  assumes "DoBundleFromName R rt ref ro ctx w = (Ret (Inr (bs, Some h)), w')" and "b \<in> set bs"
  shows "bundle_of_image R rt ref h b"
  using assms(1)
proof (rule DoBundleFromName_stages)
  fix puller desc idx manifests w1 w2 w3
  let ?opts = "ro @ [WithContext ctx] @ [Reuse puller]"
  assume get: "call (Get R ref ?opts) w = (Inr desc, w1)"
    and refs: "call (Referrers R (Context_Digest R ref (Hash_String R (Digest desc))) ?opts) w1 = (Inr idx, w2)"
    and man: "call (IndexManifest R idx) w2 = (Inr manifests, w3)"
    and fetch: "fetch_referrers R rt ref ?opts manifests [] w3 = (Ret (Inr bs), w')"
    and h: "Some h = (if bs = [] then None else Some (Digest desc))"
  from fetch_referrers_bundles [OF fetch] assms(2) obtain d v v'
    where "d \<in> set (filter is_bundle manifests)" "fetch_referrer R rt ref ?opts d v = (Ret (Inr b), v')"
    by (auto elim: list_all2_in2)
  moreover have "Digest desc = h" using h by (simp split: if_splits)
  ultimately show ?thesis using get refs man unfolding bundle_of_image_def set_filter mem_Collect_eq by metis
qed

lemma BundleFromName_origin:
  assumes "BundleFromName R sched vars ctx ref ro w = (Ret (r, oe), w')" and "b \<in> set (Bundles r)"
    and "Hash r = Some h"
  shows "bundle_of_image R (RetryThrottled vars) ref h b"
proof (cases oe)
  case None
  with assms(1) obtain c v where "DoBundleFromName R (RetryThrottled vars) ref ro c v = (Ret (Inr (Bundles r, Hash r)), w')"
    unfolding BundleFromName_def by (blast elim: retryBundle_success)
  with assms(2,3) show ?thesis by (simp add: DoBundleFromName_origin)
next
  case (Some fe)
  with assms retryBundle_failed show ?thesis by (fastforce simp: BundleFromName_def)
qed

section \<open>The provider's view of the fetcher\<close>

lemma fetch_referrer_metrics: "fetch_referrer R rt ref opts d w = (r, w') \<Longrightarrow> metrics w' = metrics w"
  by (auto simp: fetch_referrer_def dest!: call_frame(1) split: sum.splits prod.splits list.splits)

lemma fetch_referrers_metrics:
  "fetch_referrers R rt ref opts ds bs w = (r, w') \<Longrightarrow> metrics w' = metrics w"
  by (induction R rt ref opts ds bs w rule: fetch_referrers.induct)
     (auto split: if_splits sum.splits prod.splits go.splits dest!: fetch_referrer_metrics)

lemma DoBundleFromName_metrics: "DoBundleFromName R rt ref ro c w = (r, w') \<Longrightarrow> metrics w' = metrics w"
  by (auto simp: DoBundleFromName_def Let_def split: sum.splits prod.splits go.splits
      dest!: call_frame(1) fetch_referrers_metrics)

lemma BundleFromName_metrics:
  assumes "BundleFromName R sched vars ctx ref ro w = (r, w')"
  shows "metrics w' = metrics w"
  using assms DoBundleFromName_metrics unfolding BundleFromName_def
  by (rule retryBundle_metrics)

lemma default_fetch_cases:
  assumes "DefaultBundleFetcher_BundleFromName R sched vars ctx ref ro w = (Ret (r, oe), w')"
  obtains oe' where "BundleFromName R sched vars ctx ref ro w = (Ret (r, oe'), w')"
    "oe = map_option FetchErr oe'"
  using assms by (auto simp: DefaultBundleFetcher_BundleFromName_def split: prod.splits go.splits)

interpretation default_fetcher: bundle_fetcher "DefaultBundleFetcher_BundleFromName R sched vars"
proof
  fix ctx ref ro w r w'
  assume "DefaultBundleFetcher_BundleFromName R sched vars ctx ref ro w = (Ret (r, None), w')"
    and "Bundles r \<noteq> []"
  then show "Hash r \<noteq> None"
    by (auto simp: BundleFromName_def elim!: default_fetch_cases dest: registry_attempt.retried_hash)
next
  fix ctx ref ro w r err w'
  assume "DefaultBundleFetcher_BundleFromName R sched vars ctx ref ro w = (Ret (r, Some err), w')"
  then obtain fe where "BundleFromName R sched vars ctx ref ro w = (Ret (r, Some fe), w')" "err = FetchErr fe"
    by (auto simp: DefaultBundleFetcher_BundleFromName_def split: prod.splits go.splits)
  moreover from this(1) have "fe_Kind fe \<in> set known_kinds \<and> fe_Step fe \<in> set known_steps"
    unfolding BundleFromName_def by (rule registry_attempt.retried_taxonomy)
  ultimately show "fst (Classify err) \<in> set known_kinds \<and> fst (snd (Classify err)) \<in> set known_steps"
    by (simp add: Classify_def)
next
  fix ctx ref ro w x w'
  assume "DefaultBundleFetcher_BundleFromName R sched vars ctx ref ro w = (x, w')"
  then show "metrics w' = metrics w"
    by (auto simp: DefaultBundleFetcher_BundleFromName_def split: prod.splits go.splits
        dest: BundleFromName_metrics)
qed

section \<open>Panics\<close>

text \<open>
  The only partial operation of an attempt is the index into the layers of a referrer image.
\<close>

definition layers_nonempty :: "('x, 'k, 't, 'h, 'r, 'b) Remote \<Rightarrow> bool" where
  "layers_nonempty R \<longleftrightarrow> (\<forall>h t x ls t' x'. Layers R h t x = (Inr ls, t', x') \<longrightarrow> ls \<noteq> [])"

lemma fetch_referrer_panic:
  assumes "fetch_referrer R rt ref opts d w = (Panic m, w')"
  shows "\<not> layers_nonempty R"
  using assms
  by (fastforce simp: fetch_referrer_def layers_nonempty_def call_def split: sum.splits prod.splits list.splits)

lemma fetch_referrers_panic:
  "fetch_referrers R rt ref opts ds bs w = (Panic m, w') \<Longrightarrow> \<not> layers_nonempty R"
  by (induction R rt ref opts ds bs w rule: fetch_referrers.induct)
     (auto split: if_splits sum.splits prod.splits go.splits dest: fetch_referrer_panic)

lemma DoBundleFromName_panic:
  "DoBundleFromName R rt ref ro ctx w = (Panic m, w') \<Longrightarrow> \<not> layers_nonempty R"
  by (auto simp: DoBundleFromName_def Let_def split: sum.splits prod.splits go.splits
      dest: fetch_referrers_panic)

text \<open>
  Against a registry that only serves images with at least one layer, a fetch never panics: it
  returns bundles or an error on every path.
\<close>

theorem BundleFromName_no_panic:
  assumes "layers_nonempty R"
  shows "\<exists>r oe w'. BundleFromName R sched vars ctx ref ro w = (Ret (r, oe), w')"
proof (cases "fst (BundleFromName R sched vars ctx ref ro w)")
  case (Ret x)
  then show ?thesis by (metis prod.collapse)
next
  case (Panic m)
  then obtain w' where "BundleFromName R sched vars ctx ref ro w = (Panic m, w')"
    by (metis prod.collapse)
  then obtain c v v' where "DoBundleFromName R (RetryThrottled vars) ref ro c v = (Panic m, v')"
    unfolding BundleFromName_def by (rule retryBundle_panic)
  with assms show ?thesis by (auto dest: DoBundleFromName_panic)
qed

text \<open>
  C38. A referrer image without layers makes an attempt panic: when the first referrer of the image
  is marked as a bundle and its image is served with an empty list of layers, the index of the
  first layer is out of range. Referrers are pushed by whoever can write to the repository.
\<close>

theorem DoBundleFromName_empty_layers_panics:
  assumes "NewPuller R (ro @ [WithContext ctx]) = Inr puller"
    and "call (Get R ref (ro @ [WithContext ctx] @ [Reuse puller])) w = (Inr desc, w1)"
    and "call (Referrers R (Context_Digest R ref (Hash_String R (Digest desc)))
           (ro @ [WithContext ctx] @ [Reuse puller])) w1 = (Inr idx, w2)"
    and "call (IndexManifest R idx) w2 = (Inr (d # ds), w3)"
    and "HasPrefix (ArtifactType d) ''application/vnd.dev.sigstore.bundle''"
    and "call (Image R (Context_Digest R ref (Hash_String R (Digest d)))
           (ro @ [WithContext ctx] @ [Reuse puller])) w3 = (Inr img, w4)"
    and "call (Layers R img) w4 = (Inr [], w5)"
  shows "DoBundleFromName R rt ref ro ctx w = (Panic ''index out of range [0] with length 0'', w5)"
  using assms
  by (simp add: DoBundleFromName_def fetch_referrer_def is_bundle_def bundle_artifact_type_def)

section \<open>Time\<close>

text \<open>
  What the fetch relies on of the registry client: a call made with a context in its options, or
  through a handle obtained with one, returns by the time that context is done. \<open>hctx\<close> gives the
  context a handle was obtained with.
\<close>

definition options_ctx :: "('k, 't, 'h) options \<Rightarrow> Context" where
  "options_ctx opts = foldl (\<lambda>c opt. case opt of WithContext c' \<Rightarrow> c' | _ \<Rightarrow> c) Background opts"

definition returns_by :: "('x, 'r) outside \<Rightarrow> Context \<Rightarrow> bool" where
  "returns_by f c \<longleftrightarrow>
     (\<forall>t x r t' x'. f t x = (r, t', x') \<longrightarrow> t \<le> t' \<and> (\<forall>d e. done_at c = Some (d, e) \<longrightarrow> t' \<le> max t d))"

definition handles_in :: "('x, 'h result) outside \<Rightarrow> ('h \<Rightarrow> Context) \<Rightarrow> Context \<Rightarrow> bool" where
  "handles_in f hctx c \<longleftrightarrow> (\<forall>t x h t' x'. f t x = (Inr h, t', x') \<longrightarrow> hctx h = c)"

definition remote_honours :: "('x, 'k, 't, 'h, 'r, 'b) Remote \<Rightarrow> ('h \<Rightarrow> Context) \<Rightarrow> bool" where
  "remote_honours R hctx \<longleftrightarrow>
     (\<forall>r opts. returns_by (Get R r opts) (options_ctx opts) \<and>
        returns_by (Referrers R r opts) (options_ctx opts) \<and> handles_in (Referrers R r opts) hctx (options_ctx opts) \<and>
        returns_by (Image R r opts) (options_ctx opts) \<and> handles_in (Image R r opts) hctx (options_ctx opts)) \<and>
     (\<forall>h. returns_by (IndexManifest R h) (hctx h) \<and> returns_by (Layers R h) (hctx h) \<and>
        (\<forall>t x ls t' x'. Layers R h t x = (Inr ls, t', x') \<longrightarrow> (\<forall>l. l \<in> set ls \<longrightarrow> hctx l = hctx h)) \<and>
        returns_by (Uncompressed R h) (hctx h) \<and> handles_in (Uncompressed R h) hctx (hctx h) \<and>
        returns_by (ReadAll R h) (hctx h))"

text \<open>The elapsed time of a stage: no negative time, and over when the context is done.\<close>

definition in_time :: "Context \<Rightarrow> 'x world \<Rightarrow> 'x world \<Rightarrow> bool" where
  "in_time c w w' \<longleftrightarrow>
     clock w \<le> clock w' \<and> (\<forall>d e. done_at c = Some (d, e) \<longrightarrow> clock w' \<le> max (clock w) d)"

lemma in_time_refl [simp]: "in_time c w w"
  by (simp add: in_time_def)

lemma in_time_trans [trans]: "in_time c w w1 \<Longrightarrow> in_time c w1 w2 \<Longrightarrow> in_time c w w2"
  by (fastforce simp: in_time_def)

lemma call_in_time: "returns_by f c \<Longrightarrow> call f w = (r, w') \<Longrightarrow> in_time c w w'"
  by (fastforce simp: call_def returns_by_def in_time_def split: prod.splits)

lemma call_handle: "handles_in f hctx c \<Longrightarrow> call f w = (Inr h, w') \<Longrightarrow> hctx h = c"
  by (fastforce simp: call_def handles_in_def split: prod.splits)

lemma options_ctx_last [simp]: "options_ctx (ro @ [WithContext c, Reuse p]) = c"
  by (simp add: options_ctx_def)

lemma honours_in_time:
  assumes "remote_honours R hctx"
  shows "call (Get R r opts) w = (x1, w') \<Longrightarrow> in_time (options_ctx opts) w w'"
    and "call (Referrers R r opts) w = (x2, w') \<Longrightarrow> in_time (options_ctx opts) w w'"
    and "call (Image R r opts) w = (x3, w') \<Longrightarrow> in_time (options_ctx opts) w w'"
    and "call (IndexManifest R h) w = (x4, w') \<Longrightarrow> in_time (hctx h) w w'"
    and "call (Layers R h) w = (x5, w') \<Longrightarrow> in_time (hctx h) w w'"
    and "call (Uncompressed R h) w = (x6, w') \<Longrightarrow> in_time (hctx h) w w'"
    and "call (ReadAll R h) w = (x7, w') \<Longrightarrow> in_time (hctx h) w w'"
  using assms unfolding remote_honours_def by (blast intro: call_in_time)+

lemma honours_handle:
  assumes "remote_honours R hctx"
  shows "call (Referrers R r opts) w = (Inr h1, w') \<Longrightarrow> hctx h1 = options_ctx opts"
    and "call (Image R r opts) w = (Inr h1, w') \<Longrightarrow> hctx h1 = options_ctx opts"
    and "call (Uncompressed R h) w = (Inr h1, w') \<Longrightarrow> hctx h1 = hctx h"
  using assms unfolding remote_honours_def by (blast intro: call_handle)+

lemma honours_layer:
  assumes "remote_honours R hctx" and "call (Layers R h) w = (Inr (l # ls), w')"
  shows "hctx l = hctx h"
proof -
  obtain t' x' where "Layers R h (clock w) (ext w) = (Inr (l # ls), t', x')"
    using assms(2) by (auto simp: call_def split: prod.splits)
  then show ?thesis using assms(1) unfolding remote_honours_def by (meson list.set_intros(1))
qed

text \<open>One destruction rule per result of a call: the time it took, and the context of its handle.\<close>

lemma honours_ok:
  assumes R: "remote_honours R hctx"
  shows "call (Referrers R r opts) w = (Inr h1, w') \<Longrightarrow> in_time (options_ctx opts) w w' \<and> hctx h1 = options_ctx opts"
    and "call (Image R r opts) w = (Inr h1, w') \<Longrightarrow> in_time (options_ctx opts) w w' \<and> hctx h1 = options_ctx opts"
    and "call (Layers R h) w = (Inr (l # ls), w') \<Longrightarrow> in_time (hctx h) w w' \<and> hctx l = hctx h"
    and "call (Uncompressed R h) w = (Inr h1, w') \<Longrightarrow> in_time (hctx h) w w' \<and> hctx h1 = hctx h"
  by (rule conjI, erule honours_in_time [OF R], erule honours_handle [OF R] honours_layer [OF R])+

lemma honours_err:
  assumes R: "remote_honours R hctx"
  shows "call (Referrers R r opts) w = (Inl e, w') \<Longrightarrow> in_time (options_ctx opts) w w'"
    and "call (Image R r opts) w = (Inl e, w') \<Longrightarrow> in_time (options_ctx opts) w w'"
    and "call (Layers R h) w = (Inl e, w') \<Longrightarrow> in_time (hctx h) w w'"
    and "call (Layers R h) w = (Inr [], w') \<Longrightarrow> in_time (hctx h) w w'"
    and "call (Uncompressed R h) w = (Inl e, w') \<Longrightarrow> in_time (hctx h) w w'"
  by (rule honours_in_time [OF R], assumption)+

lemmas honours_dest = honours_ok honours_err honours_in_time(1,4,7)

lemma fetch_referrer_in_time:
  assumes R: "remote_honours R hctx" and run: "fetch_referrer R rt ref opts d w = (r, w')"
  shows "in_time (options_ctx opts) w w'"
  using run unfolding fetch_referrer_def
  by (auto split: prod.splits sum.splits list.splits dest!: honours_dest [OF R];
      meson in_time_trans)

lemma fetch_referrers_in_time:
  "remote_honours R hctx \<Longrightarrow> fetch_referrers R rt ref opts ds bs w = (r, w') \<Longrightarrow>
   in_time (options_ctx opts) w w'"
  by (induction R rt ref opts ds bs w rule: fetch_referrers.induct)
     (auto split: if_splits sum.splits prod.splits go.splits
       dest!: fetch_referrer_in_time intro: in_time_trans)

lemma DoBundleFromName_in_time:
  assumes R: "remote_honours R hctx" and run: "DoBundleFromName R rt ref ro ctx w = (r, w')"
  shows "in_time ctx w w'"
  using run unfolding DoBundleFromName_def
  by (auto simp: Let_def split: sum.splits prod.splits go.splits
      dest!: honours_dest [OF R] fetch_referrers_in_time [OF R]; meson in_time_trans)

lemma DoBundleFromName_honours:
  "remote_honours R hctx \<Longrightarrow> honours_context (DoBundleFromName R rt ref ro)"
  by (fastforce simp: honours_context_def in_time_def dest: DoBundleFromName_in_time)

text \<open>
  The time a fetch can take. When every call of the registry client returns by the time its
  context is done, \<^verbatim>\<open>BundleFromName\<close> takes at most \<^verbatim>\<open>MaxAttempts\<close> times \<^verbatim>\<open>Timeout\<close> plus the delays between
  the attempts, whatever the registry does, and it is over when the caller's context is done.
\<close>

theorem BundleFromName_time_bound:
  assumes "BundleFromName R sched vars ctx ref ro w = (r, w')" and "remote_honours R hctx"
    and "1 \<le> MaxAttempts vars" "0 \<le> Timeout vars" "0 \<le> Delay vars"
  shows "clock w' \<le> clock w + MaxAttempts vars * Timeout vars + (MaxAttempts vars - 1) * Delay vars \<and>
    (\<forall>d e. done_at ctx = Some (d, e) \<longrightarrow> clock w' \<le> max (clock w) d)"
  using assms(1) DoBundleFromName_honours [OF assms(2)] assms(3-5)
  unfolding BundleFromName_def by (rule retryBundle_within_budget)

section \<open>A concrete registry\<close>

text \<open>
  A registry that serves the given referrers (digest, artifact type, contents of the layers), or,
  when \<open>stalls\<close> holds, never answers a descriptor request. A handle is the context it was obtained
  with and the contents it gives access to; a bundle is any non-empty text.
\<close>

type_synonym sample_handle = "Context \<times> string list"

definition sample_digest :: "string \<Rightarrow> Hash" where
  "sample_digest s = \<lparr>Algorithm = ''sha256'', Hex = s\<rparr>"

definition stall :: "Context \<Rightarrow> (unit, 'a result) outside" where
  "stall c t x =
     (case done_at c of
        None \<Rightarrow> (Inl (ErrorString ''no answer''), t, x)
      | Some (d, e) \<Rightarrow> (Inl (CtxError e), max t d, x))"

definition sample_remote ::
  "bool \<Rightarrow> (string \<times> string \<times> string list) list \<Rightarrow>
   (unit, unit, unit, sample_handle, string, string) Remote" where
  "sample_remote stalls refs = \<lparr>
     NewPuller = (\<lambda>opts. Inr (Background, [])),
     Get = (\<lambda>r opts. if stalls then stall (options_ctx opts)
        else (\<lambda>t x. (Inr \<lparr>Digest = sample_digest r, ArtifactType = ''''\<rparr>, t, x))),
     Referrers = (\<lambda>r opts t x. (Inr (options_ctx opts, []), t, x)),
     IndexManifest = (\<lambda>h t x.
       (Inr (map (\<lambda>(d, a, ls). \<lparr>Digest = sample_digest d, ArtifactType = a\<rparr>) refs), t, x)),
     Image = (\<lambda>r opts t x.
       (case map_of (map (\<lambda>(d, a, ls). (d, ls)) refs) r of
          None \<Rightarrow> Inl (TransportError ''MANIFEST_UNKNOWN'' 404 [])
        | Some ls \<Rightarrow> Inr (options_ctx opts, ls), t, x)),
     Layers = (\<lambda>(c, ls) t x. (Inr (map (\<lambda>l. (c, [l])) ls), t, x)),
     Uncompressed = (\<lambda>h t x. (Inr h, t, x)),
     ReadAll = (\<lambda>(c, ls) t x. (Inr (concat ls), t, x)),
     Context_Digest = (\<lambda>r s. s),
     Hash_String = Hex,
     UnmarshalJSON = (\<lambda>s. if s = '''' then Inl (ErrorString ''unexpected end of JSON input'') else Inr s)\<rparr>"

definition sample_refs :: "(string \<times> string \<times> string list) list" where
  "sample_refs =
     [(''d1'', ''application/vnd.dev.sigstore.bundle.v0.3+json'', [''b1'']),
      (''d2'', ''application/spdx+json'', [''sbom'']),
      (''d3'', ''application/vnd.dev.sigstore.bundle.v0.3+json'', [''b3'', ''x''])]"

definition empty_image_refs :: "(string \<times> string \<times> string list) list" where
  "empty_image_refs = [(''d1'', ''application/vnd.dev.sigstore.bundle.v0.3+json'', [])]"

lemmas remote_eval =
  sample_remote_def sample_refs_def empty_image_refs_def sample_digest_def DoBundleFromName_def
  fetch_referrer_def is_bundle_def bundle_artifact_type_def HasPrefix_def call_def options_ctx_def
  start_world_def stall_def

lemma sample_attempt:
  "DoBundleFromName (sample_remote False sample_refs) False ''img'' [] Background (start_world ()) =
     (Ret (Inr ([''b1'', ''b3''], Some \<lparr>Algorithm = ''sha256'', Hex = ''img''\<rparr>)), start_world ())"
  by (simp add: remote_eval)

theorem DoBundleFromName_bundles_witness:
  "\<exists>desc idx manifests w1 w2 w3.
     call (Get (sample_remote False sample_refs) ''img'' [WithContext Background, Reuse (Background, [])])
       (start_world ()) = (Inr desc, w1) \<and>
     call (IndexManifest (sample_remote False sample_refs) idx) w2 = (Inr manifests, w3) \<and>
     length (filter is_bundle manifests) = 2 \<and> Digest desc = \<lparr>Algorithm = ''sha256'', Hex = ''img''\<rparr>"
proof -
  have "NewPuller (sample_remote False sample_refs) ([] @ [WithContext Background]) = Inr (Background, [])"
    by (simp add: sample_remote_def)
  with DoBundleFromName_bundles [OF sample_attempt] show ?thesis
    by (fastforce dest: list_all2_lengthD)
qed

theorem BundleFromName_contract_witness:
  "\<exists>r w'. BundleFromName (sample_remote False sample_refs) (\<lambda>_. True)
       (initial_vars ''linux'' ''amd64'' no_transport) Background ''img'' [] (start_world ()) = (Ret (r, None), w') \<and>
     Bundles r = [''b1'', ''b3''] \<and> Hash r \<noteq> None"
proof -
  obtain r w' where run: "BundleFromName (sample_remote False sample_refs) (\<lambda>_. True)
       (initial_vars ''linux'' ''amd64'' no_transport) Background ''img'' [] (start_world ()) = (Ret (r, None), w')"
    and "Bundles r = [''b1'', ''b3'']"
    by (simp add: BundleFromName_def retry_eval remote_eval initial_vars_def ConfigureTransport_def)
  with BundleFromName_contract [OF run] show ?thesis by auto
qed

text \<open>The same registry behind a client that refuses images without layers.\<close>

definition layered_remote ::
  "(string \<times> string \<times> string list) list \<Rightarrow>
   (unit, unit, unit, sample_handle, string, string) Remote" where
  "layered_remote refs = (sample_remote False refs)\<lparr>
     Layers := (\<lambda>(c, ls) t x.
       (if ls = [] then Inl (ErrorString ''no layers'') else Inr (map (\<lambda>l. (c, [l])) ls), t, x))\<rparr>"

lemma layered_remote_nonempty: "layers_nonempty (layered_remote refs)"
  by (auto simp: layers_nonempty_def layered_remote_def split: if_splits)

theorem BundleFromName_no_panic_witness:
  "layers_nonempty (layered_remote empty_image_refs) \<and>
   (\<exists>r oe w'. BundleFromName (layered_remote empty_image_refs) (\<lambda>_. True)
     (initial_vars ''linux'' ''amd64'' no_transport) Background ''img'' [] (start_world ()) = (Ret (r, oe), w'))"
  using BundleFromName_no_panic [OF layered_remote_nonempty] layered_remote_nonempty by blast

theorem DoBundleFromName_empty_layers_panics_witness:
  "DoBundleFromName (sample_remote False empty_image_refs) False ''img'' [] Background (start_world ()) =
     (Panic ''index out of range [0] with length 0'', start_world ())"
  by (rule DoBundleFromName_empty_layers_panics [where puller = "(Background, [])" and idx = "(Background, [])"
        and img = "(Background, [])" and ds = "[]" and ?w1.0 = "start_world ()" and ?w2.0 = "start_world ()"
        and ?w3.0 = "start_world ()" and ?w4.0 = "start_world ()"
        and desc = "\<lparr>Digest = sample_digest ''img'', ArtifactType = ''''\<rparr>"
        and d = "\<lparr>Digest = sample_digest ''d1'',
                   ArtifactType = ''application/vnd.dev.sigstore.bundle.v0.3+json''\<rparr>"])
     (simp_all add: remote_eval)

lemma stall_returns: "returns_by (stall c) c"
  by (auto simp: returns_by_def stall_def split: option.splits)

lemma sample_remote_honours: "remote_honours (sample_remote stalls refs) fst"
  using stall_returns
  by (auto simp: remote_honours_def sample_remote_def returns_by_def handles_in_def split: option.splits)

theorem BundleFromName_time_bound_witness:
  "remote_honours (sample_remote True []) fst \<and>
   clock (snd (BundleFromName (sample_remote True []) (\<lambda>_. True)
     (initial_vars ''linux'' ''amd64'' no_transport) Background ''img'' [] (start_world ()))) \<le> 9 * Second"
proof -
  let ?vars = "initial_vars ''linux'' ''amd64'' no_transport"
  have "MaxAttempts ?vars = 3" "Timeout ?vars = 3 * Second" "Delay ?vars = 0"
    by (simp_all add: initial_vars_def ConfigureTransport_def)
  with BundleFromName_time_bound [OF prod.collapse [symmetric] sample_remote_honours [of True "[]"],
      where vars = ?vars and ro = "[]" and ref = "''img''" and w = "start_world ()" and ctx = Background
        and sched = "\<lambda>_. True"]
  show ?thesis using sample_remote_honours by (simp add: duration_defs)
qed


end
