(* ===== verification/App_Verifier.thy ===== *)
theory App_Verifier
  imports Sigstore_Verifier
begin

text \<open>
  Loading of the configured trust roots (internal/app/verifier.go). Reading a file is a parameter
  on the outside world.
\<close>

definition DotcomTrustDomain :: string where "DotcomTrustDomain = ''dotcom''"

record VerifierCfg =
  TufRoot :: string
  TufRepo :: string
  TufTargets :: "string list"
  TrustDomains :: "string list"
  UsePGI :: bool

type_synonym 'x file_reader = "string \<Rightarrow> ('x, string result) outside"

section \<open>The loaders\<close>

fun load_targets ::
  "('x, 'm, 'sv, 'b, 'v) Sigstore \<Rightarrow> string \<Rightarrow> string \<Rightarrow> string list \<Rightarrow> 'm Verifier list \<Rightarrow> 'x world \<Rightarrow>
   'm Verifier list result \<times> 'x world" where
  "load_targets S repo rb [] verifiers w = (Inr verifiers, w)"
| "load_targets S repo rb (target # targets) verifiers w =
     (case New S rb repo target [WithSignedTimestamps 1] w of
        (Inl err, w) \<Rightarrow> (Inl (WrapError ''failed to create verifier: '' err), w)
      | (Inr v, w) \<Rightarrow>
          load_targets S repo rb targets (verifiers @ [v])
            (slog LevelInfo ''loaded verifier'' [(''tuf_repo'', LStr repo), (''target'', LStr target)] w))"

definition LoadCustomVerifier ::
  "('x, 'm, 'sv, 'b, 'v) Sigstore \<Rightarrow> 'x file_reader \<Rightarrow> string \<Rightarrow> string \<Rightarrow> string list \<Rightarrow> 'x world \<Rightarrow>
   'm Verifier list result \<times> 'x world" where
  "LoadCustomVerifier S ReadFile repo root targets w =
     (case call (ReadFile root) w of
        (Inl err, w) \<Rightarrow> (Inl (WrapError ''failed to load verifier: '' err), w)
      | (Inr rb, w) \<Rightarrow>
     (case load_targets S repo rb targets [] w of
        (Inl err, w) \<Rightarrow> (Inl err, w)
      | (Inr verifiers, w) \<Rightarrow>
          (if verifiers = [] then (Inl (ErrorString ''no trust root found/provided''), w)
           else (Inr verifiers, w))))"

fun load_domains ::
  "('x, 'm, 'sv, 'b, 'v) Sigstore \<Rightarrow> string \<Rightarrow> string list \<Rightarrow> 'm Verifier list \<Rightarrow> 'x world \<Rightarrow>
   'm Verifier list result \<times> 'x world" where
  "load_domains S githubRoot [] verifiers w = (Inr verifiers, w)"
| "load_domains S githubRoot (td # tds) verifiers w =
     (case GHVerifier S githubRoot td w of
        (Inl err, w) \<Rightarrow> (Inl (WrapError ''failed to load GitHub verifier: '' err), w)
      | (Inr v, w) \<Rightarrow>
          load_domains S githubRoot tds (verifiers @ [v])
            (slog LevelInfo ''loaded verifier''
              [(''instance'', LStr ''GitHub Sigstore''), (''trust_domain'', LStr td)] w))"

definition LoadVerifiers ::
  "('x, 'm, 'sv, 'b, 'v) Sigstore \<Rightarrow> string \<Rightarrow> bool \<Rightarrow> string list \<Rightarrow> 'x world \<Rightarrow>
   'm Verifier list result \<times> 'x world" where
  "LoadVerifiers S githubRoot pgi tds0 w =
     (let tds = (if tds0 = [] then [DotcomTrustDomain] else tds0)
      in if pgi then
           (case PGIVerifier S w of
              (Inl err, w) \<Rightarrow> (Inl (WrapError ''failed to load PGI verifier: '' err), w)
            | (Inr v, w) \<Rightarrow>
                load_domains S githubRoot tds [v]
                  (slog LevelInfo ''loaded verifier'' [(''instance'', LStr ''public good Sigstore'')] w))
         else load_domains S githubRoot tds [] w)"

text \<open>The tail of \<^verbatim>\<open>CreateVerifier\<close>, after the optional custom verifiers.\<close>

definition add_default_verifiers ::
  "('x, 'm, 'sv, 'b, 'v) Sigstore \<Rightarrow> string \<Rightarrow> VerifierCfg \<Rightarrow> 'm Verifier list \<Rightarrow> 'x world \<Rightarrow>
   'm Verifier list result \<times> 'x world" where
  "add_default_verifiers S githubRoot cfg verifiers w =
     (case LoadVerifiers S githubRoot (UsePGI cfg) (TrustDomains cfg) w of
        (Inl err, w) \<Rightarrow> (Inl err, slog LevelError ''failed to load verifiers'' [(''error'', LErr (Some err))] w)
      | (Inr vv, w) \<Rightarrow> (Inr (NewMulti (verifiers @ vv)), w))"

definition CreateVerifier ::
  "('x, 'm, 'sv, 'b, 'v) Sigstore \<Rightarrow> 'x file_reader \<Rightarrow> string \<Rightarrow> VerifierCfg \<Rightarrow> 'x world \<Rightarrow>
   'm Verifier list result \<times> 'x world" where
  "CreateVerifier S ReadFile githubRoot cfg w =
     (if TufRepo cfg \<noteq> '''' \<and> TufRoot cfg \<noteq> '''' \<and> TufTargets cfg \<noteq> [] then
        (case LoadCustomVerifier S ReadFile (TufRepo cfg) (TufRoot cfg) (TufTargets cfg) w of
           (Inl err, w) \<Rightarrow>
             (Inl err, slog LevelError ''failed to load custom verifier'' [(''error'', LErr (Some err))] w)
         | (Inr vv, w) \<Rightarrow> add_default_verifiers S githubRoot cfg vv w)
      else add_default_verifiers S githubRoot cfg [] w)"

section \<open>What is loaded\<close>

text \<open>The verification options of the trust roots, in the order of the configuration.\<close>

definition expected_options :: "VerifierCfg \<Rightarrow> VerifierOption list list" where
  "expected_options cfg =
     (if TufRepo cfg \<noteq> '''' \<and> TufRoot cfg \<noteq> '''' \<and> TufTargets cfg \<noteq> []
      then replicate (length (TufTargets cfg)) [WithSignedTimestamps 1] else []) @
     (if UsePGI cfg
      then [[WithSignedCertificateTimestamps 1, WithTransparencyLog 1, WithObserverTimestamps 1]] else []) @
     replicate (if TrustDomains cfg = [] then 1 else length (TrustDomains cfg)) [WithSignedTimestamps 1]"

lemma New_options: "New S rb tr tgt vo w = (Inr v, w') \<Longrightarrow> v_vo v = vo"
  by (auto simp: New_def split: prod.splits sum.splits)

lemma load_targets_options:
  "load_targets S repo rb targets vs w = (Inr vs', w') \<Longrightarrow>
   map v_vo vs' = map v_vo vs @ replicate (length targets) [WithSignedTimestamps 1]"
proof (induction S repo rb targets vs w rule: load_targets.induct)
  case (2 S repo rb target targets vs w)
  then show ?case by (auto split: prod.splits sum.splits dest!: New_options)
qed auto

lemma load_domains_options:
  "load_domains S githubRoot tds vs w = (Inr vs', w') \<Longrightarrow>
   map v_vo vs' = map v_vo vs @ replicate (length tds) [WithSignedTimestamps 1]"
proof (induction S githubRoot tds vs w rule: load_domains.induct)
  case (2 S githubRoot td tds vs w)
  then show ?case by (auto simp: GHVerifier_def split: prod.splits sum.splits dest!: New_options)
qed auto

lemma LoadVerifiers_options:
  assumes "LoadVerifiers S githubRoot pgi tds w = (Inr vs, w')"
  shows "map v_vo vs =
    (if pgi then [[WithSignedCertificateTimestamps 1, WithTransparencyLog 1, WithObserverTimestamps 1]] else []) @
    replicate (if tds = [] then 1 else length tds) [WithSignedTimestamps 1]"
  using assms
  by (auto simp: LoadVerifiers_def PGIVerifier_def GHVerifier_def Let_def split: if_splits prod.splits
      sum.splits dest!: New_options load_domains_options)

lemma LoadCustomVerifier_options:
  assumes "LoadCustomVerifier S ReadFile repo root targets w = (Inr vs, w')"
  shows "map v_vo vs = replicate (length targets) [WithSignedTimestamps 1]"
  using assms
  by (auto simp: LoadCustomVerifier_def split: if_splits prod.splits sum.splits dest!: load_targets_options)

lemma add_default_verifiers_options:
  assumes "add_default_verifiers S githubRoot cfg vs w = (Inr vs', w')"
  shows "map v_vo vs' = map v_vo vs @
    (if UsePGI cfg
     then [[WithSignedCertificateTimestamps 1, WithTransparencyLog 1, WithObserverTimestamps 1]] else []) @
    replicate (if TrustDomains cfg = [] then 1 else length (TrustDomains cfg)) [WithSignedTimestamps 1]"
  using assms
  by (auto simp: add_default_verifiers_def NewMulti_def split: prod.splits sum.splits
      dest!: LoadVerifiers_options)

lemma CreateVerifier_options:
  assumes "CreateVerifier S ReadFile githubRoot cfg w = (Inr V, w')"
  shows "map v_vo V = expected_options cfg"
  using assms
  by (auto simp: CreateVerifier_def expected_options_def split: if_splits prod.splits sum.splits
      dest!: LoadCustomVerifier_options add_default_verifiers_options)


text \<open>Loading trust roots leaves the metrics alone.\<close>

lemma New_metrics: "New S rb tr tgt vo w = (r, w') \<Longrightarrow> metrics w' = metrics w"
  by (auto simp: New_def split: prod.splits sum.splits dest: call_frame(1))

lemma load_targets_metrics: "load_targets S repo rb targets vs w = (r, w') \<Longrightarrow> metrics w' = metrics w"
  by (induction S repo rb targets vs w rule: load_targets.induct)
     (auto split: prod.splits sum.splits dest!: New_metrics)

lemma load_domains_metrics: "load_domains S githubRoot tds vs w = (r, w') \<Longrightarrow> metrics w' = metrics w"
  by (induction S githubRoot tds vs w rule: load_domains.induct)
     (auto simp: GHVerifier_def split: prod.splits sum.splits dest!: New_metrics)

lemma add_default_verifiers_metrics:
  "add_default_verifiers S githubRoot cfg vs w = (r, w') \<Longrightarrow> metrics w' = metrics w"
  by (auto simp: add_default_verifiers_def LoadVerifiers_def PGIVerifier_def GHVerifier_def Let_def
      split: if_splits prod.splits sum.splits dest!: New_metrics load_domains_metrics)

lemma CreateVerifier_metrics:
  "CreateVerifier S ReadFile githubRoot cfg w = (r, w') \<Longrightarrow> metrics w' = metrics w"
  by (auto simp: CreateVerifier_def LoadCustomVerifier_def split: if_splits prod.splits sum.splits
      dest!: call_frame(1) load_targets_metrics add_default_verifiers_metrics)

definition sample_cfg :: VerifierCfg where
  "sample_cfg = \<lparr>TufRoot = '''', TufRepo = '''', TufTargets = [], TrustDomains = [''acme''], UsePGI = True\<rparr>"

lemma sample_cfg_loads:
  "\<exists>w'. CreateVerifier sample_sigstore (\<lambda>f t x. (Inr '''', t, x)) ''ghroot'' sample_cfg (start_world ()) =
     (Inr [\<lparr>v_tr = ''trusted_root.json'',
            v_vo = [WithSignedCertificateTimestamps 1, WithTransparencyLog 1, WithObserverTimestamps 1]\<rparr>,
           \<lparr>v_tr = ''acme.trusted_root.json'', v_vo = [WithSignedTimestamps 1]\<rparr>], w')"
  by (simp add: CreateVerifier_def add_default_verifiers_def LoadVerifiers_def PGIVerifier_def GHVerifier_def
      New_def NewMulti_def sample_sigstore_def sample_cfg_def defaultTR_def call_def)


end
