(* ===== verification/Refresh_Loop.thy ===== *)
theory Refresh_Loop
  imports Go_World
begin

text \<open>
  The background refresh loop that two components of the provider have, in pkg/authn/provider.go
  and in pkg/cainjector/injector.go: a goroutine that selects between its context and a ticker.
  Which of two ready cases Go takes is not determined, so the loop is a step relation; what one tick
  does is its parameter (whether the loop goes on, the component's state, the world).
\<close>

type_synonym ('s, 'x) ticker = "'s \<Rightarrow> 'x world \<Rightarrow> bool \<times> 's \<times> 'x world"

datatype ('s, 'x) loop_state = Running 's "'x world" | Stopped 's "'x world"

inductive refresh_step ::
  "('s, 'x) ticker \<Rightarrow> Context \<Rightarrow> ('s, 'x) loop_state \<Rightarrow> nat \<Rightarrow> ('s, 'x) loop_state \<Rightarrow> bool"
  for tick ctx where
  waiting: "clock w \<le> t \<Longrightarrow> refresh_step tick ctx (Running s w) 0 (Running s (w\<lparr>clock := t\<rparr>))"
| ctx_done: "ctx_Err ctx (clock w) \<noteq> None \<Longrightarrow> refresh_step tick ctx (Running s w) 0 (Stopped s w)"
| ticked: "tick s w = (True, s', w') \<Longrightarrow> refresh_step tick ctx (Running s w) (Suc 0) (Running s' w')"
| tick_returns: "tick s w = (False, s', w') \<Longrightarrow> refresh_step tick ctx (Running s w) (Suc 0) (Stopped s' w')"

inductive_cases refresh_stepE: "refresh_step tick ctx c n c'"

inductive_simps refresh_step_Stopped [simp]: "refresh_step tick ctx (Stopped s w) n c'"

text \<open>A run, with the number of ticks it took.\<close>

inductive refresh_run ::
  "('s, 'x) ticker \<Rightarrow> Context \<Rightarrow> ('s, 'x) loop_state \<Rightarrow> nat \<Rightarrow> ('s, 'x) loop_state \<Rightarrow> bool"
  for tick ctx where
  start: "refresh_run tick ctx c 0 c"
| step: "refresh_run tick ctx c n c1 \<Longrightarrow> refresh_step tick ctx c1 k c2 \<Longrightarrow> refresh_run tick ctx c (n + k) c2"

fun loop_world :: "('s, 'x) loop_state \<Rightarrow> 'x world" where
  "loop_world (Running s w) = w"
| "loop_world (Stopped s w) = w"

fun loop_store :: "('s, 'x) loop_state \<Rightarrow> 's" where
  "loop_store (Running s w) = s"
| "loop_store (Stopped s w) = s"

text \<open>A state invariant of the tick is an invariant of the loop.\<close>

lemma refresh_run_invariant:
  assumes "refresh_run tick ctx c n c'" and "P (loop_store c)"
    and "\<And>s w b s' w'. P s \<Longrightarrow> tick s w = (b, s', w') \<Longrightarrow> P s'"
  shows "P (loop_store c')"
  using assms(1,2)
proof (induction rule: refresh_run.induct)
  case (step c n c1 k c2)
  from step.hyps(2) step.IH [OF step.prems] assms(3) show ?case
    by (cases rule: refresh_step.cases) auto
qed simp

section \<open>The contract of a refresher\<close>

text \<open>
  A tick either succeeds, or counts one failure and keeps the component's state, or ends the loop
  because the context is done.
\<close>

locale refresher =
  fixes tick :: "('s, 'x) ticker" and ctx :: Context and fails :: "Metrics \<Rightarrow> nat"
  assumes tick_counts: "tick s w = (b, s', w') \<Longrightarrow>
      fails (metrics w') = fails (metrics w) \<or>
      fails (metrics w') = Suc (fails (metrics w)) \<and> s' = s \<and> b"
    and tick_stops: "tick s w = (False, s', w') \<Longrightarrow> ctx_Err ctx (clock w') \<noteq> None \<and> s' = s"
begin

lemma step_counts:
  assumes "refresh_step tick ctx c k c'"
  shows "fails (metrics (loop_world c)) \<le> fails (metrics (loop_world c'))"
    and "fails (metrics (loop_world c')) \<le> fails (metrics (loop_world c)) + k"
    and "fails (metrics (loop_world c')) = fails (metrics (loop_world c)) + k \<Longrightarrow> loop_store c' = loop_store c"
  using assms by (auto elim!: refresh_stepE dest!: tick_counts dest: tick_stops)

text \<open>
  The failure counter grows by at most one per tick, and when every tick failed the component still
  has the state it had.
\<close>

lemma run_counts:
  assumes "refresh_run tick ctx c n c'"
  shows "fails (metrics (loop_world c)) \<le> fails (metrics (loop_world c')) \<and>
    fails (metrics (loop_world c')) \<le> fails (metrics (loop_world c)) + n \<and>
    (fails (metrics (loop_world c')) = fails (metrics (loop_world c)) + n \<longrightarrow> loop_store c' = loop_store c)"
  using assms
proof (induction rule: refresh_run.induct)
  case (step c n c1 k c2)
  with step_counts [OF step.hyps(2)] show ?case by auto
qed simp

lemma stopped_is_done:
  assumes "refresh_run tick ctx c n c'" and "c' = Stopped s w" and "c = Running s0 w0"
  shows "ctx_Err ctx (clock w) \<noteq> None"
  using assms
proof (induction rule: refresh_run.induct)
  case (step c n c1 k c2)
  from step.hyps(2) step.prems show ?case by (cases rule: refresh_step.cases) (auto dest: tick_stops)
qed simp

end

end
