(* ===== verification/Keychain.thy ===== *)
theory Keychain
  imports Provider_Ifaces Refresh_Loop
begin

text \<open>
  The keychain provider (pkg/authn/provider.go): a keychain built from the in-cluster
  authenticators, cached, and refreshed in the background. The authenticators are third-party
  packages: a record of functions, \<open>'k\<close> the type of keychains.
\<close>

section \<open>State and construction\<close>

record ('x, 'k) KeychainApi =
  DefaultKeychain :: 'k
  NewMultiKeychain :: "'k list \<Rightarrow> 'k"
  kubernetes_NewInCluster :: "Context \<Rightarrow> string \<Rightarrow> string list \<Rightarrow> ('x, 'k result) outside"
  k8schain_NewInCluster :: "Context \<Rightarrow> string \<Rightarrow> ('x, 'k result) outside"

definition defaultKeychainRefreshInterval :: duration where
  "defaultKeychainRefreshInterval = 5 * Minute"

definition keychainBuildTimeout :: duration where
  "keychainBuildTimeout = 30 * Second"

text \<open>The atomic pointer holds no snapshot, or a snapshot whose keychain may be nil.\<close>

record ('x, 'k) KeyChainProvider =
  namespace :: string
  imagePullSecrets :: "string list"
  refreshInterval :: duration
  build :: "Context \<Rightarrow> 'x world \<Rightarrow> ('k option \<times> bool) \<times> 'x world"
  cached :: "'k option option"

text \<open>Adding one authenticator: a failure is logged and makes the build degraded.\<close>

definition add_authenticator ::
  "string \<Rightarrow> ('x, 'k result) outside \<Rightarrow> 'k list \<Rightarrow> bool \<Rightarrow> 'x world \<Rightarrow> ('k list \<times> bool) \<times> 'x world" where
  "add_authenticator msg f kcs ok w =
     (case call f w of
        (Inl err, w) \<Rightarrow> ((kcs, False), slog LevelError msg [(''error'', LErr (Some err))] w)
      | (Inr kc, w) \<Rightarrow> ((kcs @ [kc], ok), w))"

definition buildKeychain ::
  "('x, 'k) KeychainApi \<Rightarrow> string \<Rightarrow> string list \<Rightarrow> Context \<Rightarrow> 'x world \<Rightarrow> ('k option \<times> bool) \<times> 'x world" where
  "buildKeychain A ns ips ctx w0 =
     (let start = clock w0;
          ((kcs, ok), w) = add_authenticator ''failed to add kubernetes key chain''
            (kubernetes_NewInCluster A ctx ns ips) [DefaultKeychain A] True w0;
          ((kcs, ok), w) = add_authenticator ''failed to add k8schain key chain''
            (k8schain_NewInCluster A ctx ns) kcs ok w
      in ((Some (NewMultiKeychain A kcs), ok),
          meter (KeychainBuildTimer_update (\<lambda>os. (clock w - start) # os)) w))"

definition NewKeyChainProvider ::
  "('x, 'k) KeychainApi \<Rightarrow> string \<Rightarrow> string list \<Rightarrow> duration \<Rightarrow> 'x world \<Rightarrow>
   ('x, 'k) KeyChainProvider \<times> 'x world" where
  "NewKeyChainProvider A ns ips refresh w =
     (\<lparr>namespace = ns, imagePullSecrets = ips,
       refreshInterval = (if refresh \<le> 0 then defaultKeychainRefreshInterval else refresh),
       build = buildKeychain A ns ips, cached = None\<rparr>,
      slog LevelInfo ''configure authn with image pull secrets''
        [(''secrets_refs'', LStrs (Some ips)), (''namespace'', LStr ns)] w)"

section \<open>Operations\<close>

definition set_keychain :: "'k option \<Rightarrow> ('x, 'k) KeyChainProvider \<Rightarrow> ('x, 'k) KeyChainProvider" where
  "set_keychain kc k = k\<lparr>cached := Some kc\<rparr>"

text \<open>
  \<^verbatim>\<open>Start\<close>: the synchronous initial build; the goroutine it starts is \<open>refreshLoop\<close>.
\<close>

definition Start :: "Context \<Rightarrow> ('x, 'k) KeyChainProvider \<Rightarrow> 'x world \<Rightarrow> ('x, 'k) KeyChainProvider \<times> 'x world" where
  "Start ctx k w =
     (let ((kc, ok), w) = build k (WithTimeout ctx keychainBuildTimeout (clock w)) w
      in (set_keychain kc k, w))"

definition refresh_tick :: "Context \<Rightarrow> (('x, 'k) KeyChainProvider, 'x) ticker" where
  "refresh_tick ctx k w =
     (let ((kc, ok), w) = build k (WithTimeout ctx keychainBuildTimeout (clock w)) w
      in if ok \<and> kc \<noteq> None then (True, set_keychain kc k, w)
         else (True, k, slog LevelError ''failed to refresh key chain, keeping last-good'' []
                          (meter (KeychainRefreshFail_update Suc) w)))"

definition refreshLoop ::
  "Context \<Rightarrow> (('x, 'k) KeyChainProvider, 'x) loop_state \<Rightarrow> nat \<Rightarrow> (('x, 'k) KeyChainProvider, 'x) loop_state \<Rightarrow> bool" where
  "refreshLoop ctx = refresh_run (refresh_tick ctx) ctx"

definition KeyChain :: "('x, 'k) KeychainApi \<Rightarrow> ('x, 'k) KeyChainProvider \<Rightarrow> ('x, 'k) keychain_op" where
  "KeyChain A k ctx w =
     (Inr (case cached k of Some (Some kc) \<Rightarrow> kc | _ \<Rightarrow> DefaultKeychain A), w)"

section \<open>The build\<close>

interpretation cached_keychain: keychain_source "KeyChain A k"
  by unfold_locales (simp add: KeyChain_def)

text \<open>
  What a build returns: always a keychain, with the default keychain first, then the keychains of
  the authenticators that could be built; it reports success exactly when both could. Its duration
  is observed exactly once, whatever fails.
\<close>

theorem buildKeychain_result:
  "\<exists>r1 w1 r2 w2 w'. call (kubernetes_NewInCluster A ctx ns ips) w = (r1, w1) \<and>
     fst (call (k8schain_NewInCluster A ctx ns) w2) = r2 \<and> same_outside w1 w2 \<and>
     buildKeychain A ns ips ctx w =
       ((Some (NewMultiKeychain A ([DefaultKeychain A] @ case_sum (\<lambda>_. []) (\<lambda>k. [k]) r1 @ case_sum (\<lambda>_. []) (\<lambda>k. [k]) r2)),
         isl r1 = False \<and> isl r2 = False), w') \<and>
     length (KeychainBuildTimer (metrics w')) = Suc (length (KeychainBuildTimer (metrics w)))"
proof -
  obtain r1 w1 where r1: "call (kubernetes_NewInCluster A ctx ns ips) w = (r1, w1)" by force
  define w2 where "w2 = (case r1 of
    Inl err \<Rightarrow> slog LevelError ''failed to add kubernetes key chain'' [(''error'', LErr (Some err))] w1
  | Inr _ \<Rightarrow> w1)"
  obtain r2 w3 where r2: "call (k8schain_NewInCluster A ctx ns) w2 = (r2, w3)" by force
  define w4 where "w4 = (case r2 of
    Inl err \<Rightarrow> slog LevelError ''failed to add k8schain key chain'' [(''error'', LErr (Some err))] w3
  | Inr _ \<Rightarrow> w3)"
  have "metrics w4 = metrics w" "same_outside w1 w2"
    using call_frame(1) [OF r1] call_frame(1) [OF r2]
    by (auto simp: w2_def w4_def same_outside_def split: sum.splits)
  with r1 r2 show ?thesis
    by (intro exI [of _ r1] exI [of _ w1] exI [of _ r2] exI [of _ w2]
          exI [of _ "meter (KeychainBuildTimer_update (\<lambda>os. (clock w4 - clock w) # os)) w4"])
       (auto simp: buildKeychain_def add_authenticator_def w2_def w4_def split: sum.splits)
qed

lemma buildKeychain_frame:
  assumes "buildKeychain A ns ips c w = ((kc, ok), w')"
  shows "kc \<noteq> None" and "\<exists>d. metrics w' = KeychainBuildTimer_update ((#) d) (metrics w)"
  using assms
  by (auto simp: buildKeychain_def add_authenticator_def dest!: call_frame(1)
      split: sum.splits prod.splits)

lemma buildKeychain_fails:
  assumes "buildKeychain A ns ips c w = (r, w')"
  shows "KeychainRefreshFail (metrics w') = KeychainRefreshFail (metrics w)"
  using buildKeychain_frame(2) [of A ns ips c w "fst r" "snd r" w'] assms by auto

lemma Start_cached:
  assumes "Start ctx (fst (NewKeyChainProvider A ns ips refresh v)) w = (k, w')"
  shows "\<exists>kc. cached k = Some (Some kc)" and "build k = buildKeychain A ns ips"
    and "\<exists>d. metrics w' = KeychainBuildTimer_update ((#) d) (metrics w)"
  using assms
  by (auto simp: Start_def NewKeyChainProvider_def set_keychain_def split: prod.splits
      dest: buildKeychain_frame)

section \<open>The refresh loop\<close>

text \<open>The tick of a provider whose build function is \<open>b\<close>, on the cache alone.\<close>

definition cache_tick ::
  "(Context \<Rightarrow> 'x world \<Rightarrow> ('k option \<times> bool) \<times> 'x world) \<Rightarrow> Context \<Rightarrow> ('k option option, 'x) ticker" where
  "cache_tick b ctx c w =
     (let ((kc, ok), w) = b (WithTimeout ctx keychainBuildTimeout (clock w)) w
      in if ok \<and> kc \<noteq> None then (True, Some kc, w)
         else (True, c, slog LevelError ''failed to refresh key chain, keeping last-good'' []
                          (meter (KeychainRefreshFail_update Suc) w)))"

fun cache_of :: "(('x, 'k) KeyChainProvider, 'x) loop_state \<Rightarrow> ('k option option, 'x) loop_state" where
  "cache_of (Running k w) = Running (cached k) w"
| "cache_of (Stopped k w) = Stopped (cached k) w"

lemma cache_of_sel [simp]:
  "loop_store (cache_of c) = cached (loop_store c)" "loop_world (cache_of c) = loop_world c"
  by (cases c; simp)+

lemma refresh_tick_cache:
  assumes "refresh_tick ctx k w = (go, k', w')"
  shows "cache_tick (build k) ctx (cached k) w = (go, cached k', w')" and "build k' = build k"
  using assms
  by (auto simp: refresh_tick_def cache_tick_def set_keychain_def split: prod.splits if_splits)

lemma refresh_tick_metrics:
  assumes "refresh_tick ctx k w = (go, k', w')" and "build k = buildKeychain A ns ips"
  shows "\<exists>d n. metrics w' = KeychainRefreshFail_update ((+) n) (KeychainBuildTimer_update ((#) d) (metrics w))"
proof -
  obtain kc ok w1 where b: "buildKeychain A ns ips (WithTimeout ctx keychainBuildTimeout (clock w)) w = ((kc, ok), w1)"
    by (metis prod_cases3 surj_pair)
  from buildKeychain_frame(2) [OF b] obtain d where d: "metrics w1 = KeychainBuildTimer_update ((#) d) (metrics w)" by blast
  show ?thesis
  proof (cases "ok \<and> kc \<noteq> None")
    case True
    with assms b d show ?thesis by (intro exI [of _ d] exI [of _ 0]) (auto simp: refresh_tick_def)
  next
    case False
    with assms b d show ?thesis by (intro exI [of _ d] exI [of _ 1]) (auto simp: refresh_tick_def fun_eq_iff)
  qed
qed

lemma refresh_step_cache:
  assumes "refresh_step (refresh_tick ctx) ctx c n c'"
  shows "refresh_step (cache_tick (build (loop_store c)) ctx) ctx (cache_of c) n (cache_of c')"
    and "build (loop_store c') = build (loop_store c)"
  using assms
  by (auto elim!: refresh_stepE intro!: refresh_step.intros dest: refresh_tick_cache)

lemma refreshLoop_cache:
  assumes "refreshLoop ctx c n c'"
  shows "refresh_run (cache_tick (build (loop_store c)) ctx) ctx (cache_of c) n (cache_of c') \<and>
    build (loop_store c') = build (loop_store c)"
  using assms unfolding refreshLoop_def
proof (induction rule: refresh_run.induct)
  case (step c n c1 k c2)
  with refresh_step_cache [OF step.hyps(2)] show ?case by (auto intro: refresh_run.step)
qed (simp add: refresh_run.start)

interpretation keychain_refresher: refresher "cache_tick (buildKeychain A ns ips) ctx" ctx KeychainRefreshFail
  by unfold_locales
     (auto simp: cache_tick_def dest!: buildKeychain_fails split: prod.splits if_splits)

text \<open>
  A refresh never replaces the keychain by a degraded one: after any number of ticks, in any
  interleaving with the context, the cached keychain is the one the loop started with or the result
  of a build that reported success, that is one with both in-cluster authenticators.
\<close>

theorem refreshLoop_keeps_last_good:
  assumes "refreshLoop ctx (Running k w) n c'" and "build k = buildKeychain A ns ips"
  shows "cached (loop_store c') = cached k \<or>
    (\<exists>c1 w1 kc w2. buildKeychain A ns ips c1 w1 = ((Some kc, True), w2) \<and>
      cached (loop_store c') = Some (Some kc))"
proof -
  let ?P = "\<lambda>c. c = cached k \<or> (\<exists>c1 w1 kc w2. buildKeychain A ns ips c1 w1 = ((Some kc, True), w2) \<and>
      c = Some (Some kc))"
  have "refresh_run (cache_tick (buildKeychain A ns ips) ctx) ctx (Running (cached k) w) n (cache_of c')"
    using refreshLoop_cache [OF assms(1)] assms(2) by simp
  then have "?P (loop_store (cache_of c'))"
    by (rule refresh_run_invariant [where P = ?P])
       (auto simp: cache_tick_def split: prod.splits if_splits)
  then show ?thesis by simp
qed

text \<open>
  The failure counter is exact enough to alert on: it grows by at most one per tick and never
  shrinks, when all ticks failed the cached keychain is still the one the loop started with, and
  the loop ends only after its context is done.
\<close>

theorem refreshLoop_failures:
  assumes "refreshLoop ctx (Running k w) n c'" and "build k = buildKeychain A ns ips"
  shows "KeychainRefreshFail (metrics w) \<le> KeychainRefreshFail (metrics (loop_world c')) \<and>
    KeychainRefreshFail (metrics (loop_world c')) \<le> KeychainRefreshFail (metrics w) + n \<and>
    (KeychainRefreshFail (metrics (loop_world c')) = KeychainRefreshFail (metrics w) + n \<longrightarrow>
      cached (loop_store c') = cached k) \<and>
    (\<forall>k' w'. c' = Stopped k' w' \<longrightarrow> ctx_Err ctx (clock w') \<noteq> None)"
proof -
  have run: "refresh_run (cache_tick (buildKeychain A ns ips) ctx) ctx (Running (cached k) w) n (cache_of c')"
    using refreshLoop_cache [OF assms(1)] assms(2) by simp
  from keychain_refresher.run_counts [OF run] keychain_refresher.stopped_is_done [OF run]
  show ?thesis by auto
qed

section \<open>A concrete cluster\<close>

text \<open>The cluster answers until time ten, and fails after that; a keychain is a list of names.\<close>

definition sample_keychains :: "(unit, string list) KeychainApi" where
  "sample_keychains = \<lparr>DefaultKeychain = [''default''], NewMultiKeychain = concat,
     kubernetes_NewInCluster = (\<lambda>ctx ns ips t x.
       (if t \<le> 10 then Inr ips else Inl (ErrorString ''connection refused''), t + 1, x)),
     k8schain_NewInCluster = (\<lambda>ctx ns t x. (Inr [''cloud''], t + 1, x))\<rparr>"

definition sample_provider :: "(unit, string list) KeyChainProvider" where
  "sample_provider = fst (Start Background
     (fst (NewKeyChainProvider sample_keychains ''ns'' [''pull''] 0 (start_world ()))) (start_world ()))"

lemma sample_provider_sel:
  "build sample_provider = buildKeychain sample_keychains ''ns'' [''pull'']"
  "cached sample_provider = Some (Some [''default'', ''pull'', ''cloud''])"
  by (simp_all add: sample_provider_def Start_def NewKeyChainProvider_def set_keychain_def buildKeychain_def
      add_authenticator_def sample_keychains_def call_def split: prod.split)

definition outage_world :: "unit world" where
  "outage_world = (start_world ())\<lparr>clock := 20\<rparr>"

lemma sample_degraded_tick:
  obtains w' where "refreshLoop Background (Running sample_provider outage_world) 1 (Running sample_provider w')"
    and "KeychainRefreshFail (metrics w') = 1"
proof -
  obtain w' where "refresh_tick Background sample_provider outage_world = (True, sample_provider, w')"
    and "KeychainRefreshFail (metrics w') = 1"
    by (simp add: refresh_tick_def sample_provider_sel(1) buildKeychain_def add_authenticator_def
        sample_keychains_def outage_world_def call_def new_metrics_def split: prod.split)
  moreover from this(1) have "refreshLoop Background (Running sample_provider outage_world) (0 + Suc 0)
      (Running sample_provider w')"
    unfolding refreshLoop_def by (intro refresh_run.step [OF refresh_run.start] refresh_step.ticked)
  ultimately show thesis using that by simp
qed

text \<open>A provider that was never started, refreshed while the cluster answers.\<close>

definition fresh_provider :: "(unit, string list) KeyChainProvider" where
  "fresh_provider = fst (NewKeyChainProvider sample_keychains ''ns'' [''pull''] 0 (start_world ()))"

lemma sample_good_tick:
  obtains k' w' where "refreshLoop Background (Running fresh_provider (start_world ())) 1 (Running k' w')"
    and "cached k' = Some (Some [''default'', ''pull'', ''cloud''])"
proof -
  obtain k' w' where "refresh_tick Background fresh_provider (start_world ()) = (True, k', w')"
    and "cached k' = Some (Some [''default'', ''pull'', ''cloud''])"
    by (simp add: refresh_tick_def fresh_provider_def NewKeyChainProvider_def set_keychain_def buildKeychain_def
        add_authenticator_def sample_keychains_def call_def split: prod.split)
  moreover from this(1) have "refreshLoop Background (Running fresh_provider (start_world ())) (0 + Suc 0)
      (Running k' w')"
    unfolding refreshLoop_def by (intro refresh_run.step [OF refresh_run.start] refresh_step.ticked)
  ultimately show thesis using that by simp
qed

theorem refreshLoop_keeps_last_good_witness:
  "\<exists>k' w' c1 w1 w2. refreshLoop Background (Running fresh_provider (start_world ())) 1 (Running k' w') \<and>
     buildKeychain sample_keychains ''ns'' [''pull''] c1 w1 = ((Some [''default'', ''pull'', ''cloud''], True), w2) \<and>
     cached k' = Some (Some [''default'', ''pull'', ''cloud''])"
proof -
  obtain k' w' where run: "refreshLoop Background (Running fresh_provider (start_world ())) 1 (Running k' w')"
    and k': "cached k' = Some (Some [''default'', ''pull'', ''cloud''])"
    by (rule sample_good_tick)
  have "build fresh_provider = buildKeychain sample_keychains ''ns'' [''pull'']" "cached fresh_provider = None"
    by (simp_all add: fresh_provider_def NewKeyChainProvider_def)
  from refreshLoop_keeps_last_good [OF run this(1)] this(2) run k' show ?thesis by fastforce
qed

theorem refreshLoop_failures_witness:
  "\<exists>w'. refreshLoop Background (Running sample_provider outage_world) 1 (Running sample_provider w') \<and>
     KeychainRefreshFail (metrics w') \<le> KeychainRefreshFail (metrics outage_world) + 1"
proof -
  obtain w' where run: "refreshLoop Background (Running sample_provider outage_world) 1 (Running sample_provider w')"
    by (rule sample_degraded_tick)
  from refreshLoop_failures [OF this sample_provider_sel(1)] run show ?thesis by auto
qed

end
