(* ===== verification/Default_Provider.thy ===== *)
theory Default_Provider
  imports Provider Registry_Fetch App_Verifier Keychain
begin

text \<open>
  The provider as the server assembles it (cmd/aaop/aaop.go): the multi verifier, the cached keychain
  and the default bundle fetcher. The laws of the three interfaces hold for these components, so the
  provider's lemmas apply to it.
\<close>

definition default_provider ::
  "('x, 'm, 'sv, 'b, 'v) Sigstore \<Rightarrow> ('b, 'sc, 'ec) BundleApi \<Rightarrow> 'm Verifier list \<Rightarrow>
   ('x, 'k) KeychainApi \<Rightarrow> ('x, 'k) KeyChainProvider \<Rightarrow>
   ('x, 'k, 't, 'h, 'r, 'b) Remote \<Rightarrow> scheduler \<Rightarrow> 't FetcherVars \<Rightarrow>
   ('x, 'k, 'r, (Context, 'k, 't, 'h) RemoteOption, 'b, 'v option) Provider" where
  "default_provider S B V A kc R sched vars =
     provider_New (Multi_Verify S B V) (KeyChain A kc) (DefaultBundleFetcher_BundleFromName R sched vars)
       (DefaultBundleFetcher_GetRemoteOptions vars)"

interpretation default_parts: provider_parts "Multi_Verify S B V" "KeyChain A kc"
  "DefaultBundleFetcher_BundleFromName R sched vars"
  by unfold_locales

section \<open>Metrics\<close>

text \<open>
  C18. The request timer is observed exactly once per answered request, with the image-count label of
  the request, the time the request took, and the outcome \<^verbatim>\<open>failure\<close> exactly when the response carries a
  system error. An image without a valid attestation is not a failure.
\<close>

theorem Validate_request_timer:
  assumes "Validate (default_provider S B V A kc R sched vars) E ctx keys w = (Ret resp, w')"
  shows "AttestationsReqTimer (metrics w') =
    observe_vec [imageCountLabel (int (length keys)),
      if resp_SystemError resp = '''' then ''success'' else ''failure''] (clock w' - clock w)
      (AttestationsReqTimer (metrics w))"
  using assms unfolding default_provider_def by (rule default_parts.Validate_metrics(1))

text \<open>
  C17. The attestation counters of a request without a system error are balanced: every attestation
  retrieved was counted once, as verified or as failed; the verified ones are exactly the
  verification results in the response; the missing ones are exactly the items with the error
  \<^verbatim>\<open>image_unsigned\<close>.
\<close>

theorem Validate_counters_balance:
  assumes "Validate (default_provider S B V A kc R sched vars) E ctx keys w = (Ret resp, w')"
    and "resp_SystemError resp = ''''"
  shows "AttestationsRetrieved (metrics w') + AttestationsVerOk (metrics w) + AttestationsVerFail (metrics w) =
      AttestationsRetrieved (metrics w) + AttestationsVerOk (metrics w') + AttestationsVerFail (metrics w') \<and>
    AttestationsVerOk (metrics w') =
      AttestationsVerOk (metrics w) + sum_list (map verified_results (resp_Items resp)) \<and>
    AttestationsMissing (metrics w') =
      AttestationsMissing (metrics w) + sum_list (map unsigned_items (resp_Items resp))"
  using default_parts.Validate_metrics(2) [OF assms [unfolded default_provider_def]]
  by (simp add: balanced_def)

section \<open>Panics\<close>

lemma default_fetch_panic:
  assumes "DefaultBundleFetcher_BundleFromName R sched vars ctx ref ro w = (Panic p, w')"
  shows "\<not> layers_nonempty R"
proof -
  from assms have "BundleFromName R sched vars ctx ref ro w = (Panic p, w')"
    by (auto simp: DefaultBundleFetcher_BundleFromName_def split: prod.splits go.splits)
  then obtain c v where "DoBundleFromName R (RetryThrottled vars) ref ro c v = (Panic p, w')"
    unfolding BundleFromName_def by (rule retryBundle_panic)
  then show ?thesis by (rule DoBundleFromName_panic)
qed

lemma default_provider_no_panic:
  assumes "layers_nonempty R"
  shows "Validate (default_provider S B V A kc R sched vars) E ctx keys w \<noteq> (Panic p, w')"
proof
  assume "Validate (default_provider S B V A kc R sched vars) E ctx keys w = (Panic p, w')"
  from default_parts.Validate_panic [OF this [unfolded default_provider_def]] obtain ref ro w1 w2
    where "DefaultBundleFetcher_BundleFromName R sched vars ctx ref ro w1 = (Panic p, w2)" by blast
  from default_fetch_panic [OF this] assms show False by simp
qed

text \<open>
  C27. Against a registry that only serves images with at least one layer, \<^verbatim>\<open>Validate\<close> always returns a
  response: no nil digest is dereferenced and nothing else panics on any path.
\<close>

theorem Validate_returns:
  assumes "layers_nonempty R"
  shows "\<exists>resp w'. Validate (default_provider S B V A kc R sched vars) E ctx keys w = (Ret resp, w')"
  using default_provider_no_panic [OF assms] by (metis go.exhaust surj_pair)

text \<open>
  C39. A request that panics is recorded as a success: when a fetch panics (a referrer image without
  layers), no response is written but the request timer is observed with the outcome \<^verbatim>\<open>success\<close>.
\<close>

theorem Validate_panic_timed_as_success:
  assumes "Validate (default_provider S B V A kc R sched vars) E ctx keys w = (Panic p, w')"
  shows "AttestationsReqTimer (metrics w') =
    observe_vec [imageCountLabel (int (length keys)), ''success''] (clock w' - clock w)
      (AttestationsReqTimer (metrics w))"
  using default_parts.Validate_panic [OF assms [unfolded default_provider_def]] by blast

section \<open>From the response back to the registry and the trust roots\<close>

lemma BundleFromName_success:
  assumes "DefaultBundleFetcher_BundleFromName R sched vars ctx ref ro w = (Ret (r, None), w')"
  obtains c v where "DoBundleFromName R (RetryThrottled vars) ref ro c v = (Ret (Inr (Bundles r, Hash r)), w')"
proof -
  from assms have "BundleFromName R sched vars ctx ref ro w = (Ret (r, None), w')"
    by (auto elim!: default_fetch_cases)
  then show thesis unfolding BundleFromName_def using that by (rule retryBundle_success)
qed

text \<open>Behind a result of a response: the image, its digest, the bundle and the trust root.\<close>

lemma verdict_origin:
  assumes "image_verdict (default_provider S B V A kc R sched vars) E ctx ro key u"
    and "verdict_end E key items u = Continue it" and it: "item_Value it = Some res" "r \<in> set res"
  shows "\<exists>ref h b v. ParseReference E key = Inr ref \<and>
      bundle_of_image R (RetryThrottled vars) ref h b \<and> v \<in> set V \<and> accepts S v b h r"
proof -
  from assms(1) it(1) verdict_item(3) [OF assms(2)] obtain ref result w1 w2 w3 w4
    where ref: "ParseReference E key = Inr ref"
      and f: "DefaultBundleFetcher_BundleFromName R sched vars ctx ref ro w1 = (Ret (result, None), w2)"
      and b: "Bundles result \<noteq> []"
      and m: "Multi_Verify S B V (Bundles result) (Hash result) w3 = (Ret (Inr res), w4)"
    by (auto simp: default_provider_def provider_New_def elim!: verified_verdictE)
  from default_fetcher.fetch_hash [OF f b] obtain h where h: "Hash result = Some h" by blast
  from Multi_Verify_accepted [OF m [unfolded h] it(2)] obtain b v
    where bv: "b \<in> set (Bundles result)" "v \<in> set V" "accepts S v b h r" .
  from BundleFromName_success [OF f] obtain c x
    where "DoBundleFromName R (RetryThrottled vars) ref ro c x = (Ret (Inr (Bundles result, Some h)), w2)"
    unfolding h .
  from DoBundleFromName_origin [OF this bv(1)] bv ref show ?thesis by blast
qed

lemma Validate_origin:
  assumes run: "Validate (default_provider S B V A kc R sched vars) E ctx keys w = (Ret resp, w')"
    and it: "it \<in> set (resp_Items resp)" "item_Value it = Some res" "r \<in> set res"
  shows "item_Key it \<in> set keys \<and>
    (\<exists>ref h b v. ParseReference E (item_Key it) = Inr ref \<and>
      bundle_of_image R (RetryThrottled vars) ref h b \<and> v \<in> set V \<and> accepts S v b h r)"
proof -
  obtain ro u items where "image_verdict (default_provider S B V A kc R sched vars) E ctx ro (item_Key it) u"
    "verdict_end E (item_Key it) items u = Continue it" and "item_Key it \<in> set keys"
    by (rule Validate_item [OF run it(1)])
  with verdict_origin [OF this(1,2) it(2,3)] show ?thesis by simp
qed

text \<open>
  End to end: a verification result in a response was produced for the image it is reported for.
  Its key parsed to a reference; the registry answered the descriptor request for that reference with
  a digest; the result comes from a bundle that the registry lists as a Sigstore referrer of that
  very digest; and one of the configured trust roots verified the bundle, without an error, against
  a policy bound to the bytes of that digest.
\<close>

theorem Validate_end_to_end:
  assumes run: "Validate (default_provider S B V A kc R sched vars) E ctx keys w = (Ret resp, w')"
    and it: "it \<in> set (resp_Items resp)" "item_Value it = Some res" "r \<in> set res"
  shows "item_Key it \<in> set keys \<and>
    (\<exists>ref h b v. ParseReference E (item_Key it) = Inr ref \<and>
      bundle_of_image R (RetryThrottled vars) ref h b \<and> v \<in> set V \<and> accepts S v b h r)"
  using Validate_origin [OF assms] .

section \<open>A concrete deployment\<close>

text \<open>
  A registry whose bundle layers are three comma-separated words (signer, algorithm, digest), the
  sample trust root for the signer \<^verbatim>\<open>gh\<close>, and two images: \<^verbatim>\<open>41\<close>, which has a bundle that matches it,
  and \<^verbatim>\<open>42\<close>, for which the same bundle does not match.
\<close>

definition decode_sample :: "string \<Rightarrow> sample_bundle result" where
  "decode_sample s =
     (case Split s (CHR '','') of
        [a, b, c] \<Rightarrow> Inr (a, b, c)
      | _ \<Rightarrow> Inl (ErrorString ''not a bundle''))"

definition deployed_remote ::
  "bool \<Rightarrow> (string \<times> string \<times> string list) list \<Rightarrow>
   (unit, string list, unit, sample_handle, string, sample_bundle) Remote" where
  "deployed_remote stalls refs = \<lparr>
     NewPuller = (\<lambda>opts. Inr (Background, [])),
     Get = (\<lambda>r opts. if stalls then stall (options_ctx opts)
        else (\<lambda>t x. (Inr \<lparr>Digest = sample_digest r, ArtifactType = ''''\<rparr>, t, x))),
     Referrers = (\<lambda>r opts t x. (Inr (options_ctx opts, []), t, x)),
     IndexManifest = (\<lambda>h t x.
       (Inr (map (\<lambda>(d, a, ls). \<lparr>Digest = sample_digest d, ArtifactType = a\<rparr>) refs), t, x)),
     Image = (\<lambda>r opts t x.
       (case map_of (map (\<lambda>(d, a, ls). (d, ls)) refs) r of
          None \<Rightarrow> Inl (TransportError ''MANIFEST_UNKNOWN'' 404 [])
        | Some ls \<Rightarrow> Inr (options_ctx opts, ls), t, x)),
     Layers = (\<lambda>(c, ls) t x. (Inr (map (\<lambda>l. (c, [l])) ls), t, x)),
     Uncompressed = (\<lambda>h t x. (Inr h, t, x)),
     ReadAll = (\<lambda>(c, ls) t x. (Inr (concat ls), t, x)),
     Context_Digest = (\<lambda>r s. s),
     Hash_String = Hex,
     UnmarshalJSON = decode_sample\<rparr>"

definition deployed_refs :: "(string \<times> string \<times> string list) list" where
  "deployed_refs = [(''d1'', ''application/vnd.dev.sigstore.bundle.v0.3+json'', [''gh,sha256,A''])]"

definition sample_env :: "(unit, string) ProviderEnv" where
  "sample_env = \<lparr>NewString = (\<lambda>t x. (''id'', t, x)),
     ParseReference = (\<lambda>s. if s = '''' then Inl (ErrorString ''empty reference'') else Inr s),
     printable = (\<lambda>_. False), hooks = (\<lambda>_ _. []), env_TraceEnabled = True\<rparr>"

definition deployed ::
  "bool \<Rightarrow> (string \<times> string \<times> string list) list \<Rightarrow>
   (unit, string list, string, (Context, string list, unit, sample_handle) RemoteOption, sample_bundle,
    sample_bundle option) Provider" where
  "deployed stalls refs = default_provider sample_sigstore sample_api [sample_root ''gh''] sample_keychains
     fresh_provider (deployed_remote stalls refs) (\<lambda>_. True) (initial_vars ''linux'' ''amd64'' no_transport)"

lemma initial_vars_sel:
  "MaxAttempts (initial_vars os arch dt) = 3" "Timeout (initial_vars os arch dt) = 3 * Second"
  "Delay (initial_vars os arch dt) = 0" "RetryThrottled (initial_vars os arch dt) = False"
  by (simp_all add: initial_vars_def ConfigureTransport_def)

lemma deployed_decode: "decode_sample ''gh,sha256,A'' = Inr (''gh'', ''sha256'', ''A'')"
  by code_simp

lemma deployed_fetch:
  "DefaultBundleFetcher_BundleFromName (deployed_remote False deployed_refs) sched
     (initial_vars os arch dt) ctx img ro w =
   (Ret (\<lparr>Bundles = [(''gh'', ''sha256'', ''A'')], Hash = Some (sample_digest img), Attempts = 1, Trail = []\<rparr>,
      None), w)"
  by (simp add: DefaultBundleFetcher_BundleFromName_def BundleFromName_def initial_vars_sel retryBundle_def
      retry_loop.simps iteration_wait_def DoBundleFromName_def fetch_referrer_def is_bundle_def
      bundle_artifact_type_def HasPrefix_def call_def deployed_remote_def deployed_refs_def sample_digest_def
      deployed_decode)

lemma deployed_decode_41: "hex_DecodeString ''41'' = Inr ''A''"
  by code_simp

lemma deployed_verify:
  "Multi_Verify sample_sigstore sample_api [sample_root ''gh''] [(''gh'', ''sha256'', ''A'')]
     (Some (sample_digest ''41'')) w = (Ret (Inr [Some (''gh'', ''sha256'', ''A'')]), w)"
  by (simp add: Multi_Verify_def returned_def VerifyOne_def sample_sigstore_def sample_root_def sample_digest_def
      deployed_decode_41 image_policy_def call_def del: hex_DecodeString.simps)

definition deployed_items :: "sample_bundle option Item list" where
  "deployed_items =
     [\<lparr>item_Key = ''41'', item_Value = Some [Some (''gh'', ''sha256'', ''A'')], item_Error = ''''\<rparr>,
      \<lparr>item_Key = '''', item_Value = None, item_Error = ''invalid_reference''\<rparr>]"

lemmas deployed_eval =
  Validate_def validate_body_def validate_image_def fetched_def verify_bundles_def deployed_def
  default_provider_def provider_New_def sample_env_def KeyChain_def call_def deployed_fetch deployed_verify
  error_item_def value_item_def deployed_items_def

lemma deployed_run:
  obtains resp w' where
    "Validate (deployed False deployed_refs) sample_env Background [''41'', ''''] (start_world ()) = (Ret resp, w')"
    and "resp_Items resp = deployed_items" and "resp_SystemError resp = ''''"
  by (simp add: deployed_eval Let_def)

theorem Validate_end_to_end_witness:
  "\<exists>resp w'. Validate (deployed False deployed_refs) sample_env Background [''41'', ''''] (start_world ()) =
       (Ret resp, w') \<and> resp_Items resp = deployed_items \<and>
     (\<exists>ref h b v. ParseReference sample_env ''41'' = Inr ref \<and>
       bundle_of_image (deployed_remote False deployed_refs) False ref h b \<and> v \<in> {sample_root ''gh''} \<and>
       accepts sample_sigstore v b h (Some (''gh'', ''sha256'', ''A'')))"
proof -
  obtain resp w' where run: "Validate (deployed False deployed_refs) sample_env Background [''41'', '''']
      (start_world ()) = (Ret resp, w')" and items: "resp_Items resp = deployed_items"
    by (rule deployed_run)
  have "hd deployed_items \<in> set (resp_Items resp)" "item_Value (hd deployed_items) = Some [Some (''gh'', ''sha256'', ''A'')]"
    by (simp_all add: items deployed_items_def)
  from Validate_end_to_end [OF run [unfolded deployed_def] this, of "Some (''gh'', ''sha256'', ''A'')"] run items
  show ?thesis by (simp add: initial_vars_sel) (simp add: deployed_items_def)
qed

theorem Validate_request_timer_witness:
  "\<exists>resp w'. Validate (deployed False deployed_refs) sample_env Background [''41'', ''''] (start_world ()) =
       (Ret resp, w') \<and> AttestationsReqTimer (metrics w') [imageCountLabel 2, ''success''] = [clock w' - 0]"
proof -
  obtain resp w' where run: "Validate (deployed False deployed_refs) sample_env Background [''41'', '''']
      (start_world ()) = (Ret resp, w')" and "resp_SystemError resp = ''''"
    by (rule deployed_run)
  with Validate_request_timer [OF run [unfolded deployed_def]] show ?thesis
    by (simp add: observe_vec_def new_metrics_def)
qed

theorem Validate_counters_balance_witness:
  "\<exists>resp w'. Validate (deployed False deployed_refs) sample_env Background [''41'', ''''] (start_world ()) =
       (Ret resp, w') \<and> AttestationsVerOk (metrics w') = 1 \<and> AttestationsMissing (metrics w') = 0"
proof -
  obtain resp w' where run: "Validate (deployed False deployed_refs) sample_env Background [''41'', '''']
      (start_world ()) = (Ret resp, w')" and ok: "resp_SystemError resp = ''''" and "resp_Items resp = deployed_items"
    by (rule deployed_run)
  with Validate_counters_balance [OF run [unfolded deployed_def] ok] show ?thesis
    by (simp add: deployed_items_def new_metrics_def verified_results_def unsigned_items_def)
qed

theorem Validate_refines_witness:
  "\<exists>resp w' vs. Validate (deployed False deployed_refs) sample_env Background [''41'', ''''] (start_world ()) =
       (Ret resp, w') \<and>
     decided (deployed False deployed_refs) sample_env Background
       (p_GetRemoteOptions (deployed False deployed_refs) [''default'']) [''41'', ''''] vs \<and>
     resp = respond sample_env (zip [''41'', ''''] vs) []"
proof -
  obtain resp w' where run: "Validate (deployed False deployed_refs) sample_env Background [''41'', '''']
      (start_world ()) = (Ret resp, w')" and "resp_SystemError resp = ''''"
    by (rule deployed_run)
  have "p_kc (deployed False deployed_refs) ctx w = (Inr [''default''], w)" for ctx w
    by (simp add: deployed_def default_provider_def provider_New_def KeyChain_def fresh_provider_def
        NewKeyChainProvider_def sample_keychains_def)
  with Validate_refines [OF run] run show ?thesis by auto
qed

theorem Validate_items_witness:
  "\<exists>resp w'. Validate (deployed False deployed_refs) sample_env Background [''41'', ''''] (start_world ()) =
       (Ret resp, w') \<and> map item_Key (resp_Items resp) = [''41'', ''''] \<and> (\<forall>it \<in> set (resp_Items resp). wf_item it)"
proof -
  obtain resp w' where run: "Validate (deployed False deployed_refs) sample_env Background [''41'', '''']
      (start_world ()) = (Ret resp, w')" and "resp_SystemError resp = ''''"
    by (rule deployed_run)
  with Validate_items [OF run] show ?thesis by auto
qed

theorem Validate_fails_closed_witness:
  "\<exists>ref ro w1 result w2 w3 w4. ParseReference sample_env ''41'' = Inr ref \<and>
     p_bf (deployed False deployed_refs) Background ref ro w1 = (Ret (result, None), w2) \<and> Bundles result \<noteq> [] \<and>
     p_v (deployed False deployed_refs) (Bundles result) (Hash result) w3 =
       (Ret (Inr [Some (''gh'', ''sha256'', ''A'')]), w4)"
proof -
  obtain resp w' where run: "Validate (deployed False deployed_refs) sample_env Background [''41'', '''']
      (start_world ()) = (Ret resp, w')" and items: "resp_Items resp = deployed_items"
    by (rule deployed_run)
  have "hd deployed_items \<in> set (resp_Items resp)" "item_Value (hd deployed_items) = Some [Some (''gh'', ''sha256'', ''A'')]"
    and key: "item_Key (hd deployed_items) = ''41''"
    by (simp_all add: items deployed_items_def)
  from Validate_fails_closed [OF run this(1,2)] show ?thesis unfolding key by blast
qed

text \<open>A fetcher for which every image is missing.\<close>

definition missing_error :: go_error where
  "missing_error = FetchErr (newDescriptorError False (TransportError ''NOT_FOUND'' 404 []))"

lemma missing_error_facts:
  "Classify missing_error = (''not_found'', ''descriptor'', 0)" "\<not> is_bundle_invalid missing_error"
  by (simp_all add: Classify_def is_bundle_invalid_def missing_error_def newDescriptorError_def
      newFetchError_def classifyTransport_def status_defs kind_defs step_defs)

definition missing_fetcher :: "(unit, string, unit, sample_bundle) fetch_op" where
  "missing_fetcher ctx ref ro w = (Ret (failed_result 1, Some missing_error), w)"

definition missing_provider ::
  "(unit, string list, string, unit, sample_bundle, sample_bundle option) Provider" where
  "missing_provider = provider_New (Multi_Verify sample_sigstore sample_api [sample_root ''gh''])
     (KeyChain sample_keychains fresh_provider) missing_fetcher (\<lambda>kc. [])"

theorem Validate_no_transient_verdict_witness:
  "\<exists>resp w'. Validate missing_provider sample_env Background [''41''] (start_world ()) = (Ret resp, w') \<and>
     resp_SystemError resp \<noteq> '''' \<and> ''41'' \<notin> item_Key ` set (resp_Items resp)"
proof -
  obtain resp w' where run: "Validate missing_provider sample_env Background [''41''] (start_world ()) = (Ret resp, w')"
    by (simp add: Validate_def validate_body_def validate_image_def missing_provider_def provider_New_def
        sample_env_def KeyChain_def call_def missing_fetcher_def fetch_failed_def Let_def missing_error_facts)
  have fails: "\<exists>err. oe = Some err \<and> \<not> is_bundle_invalid err"
    if "p_bf missing_provider Background ''41'' ro w1 = (Ret (result, oe), w2)" for ro w1 result oe w2
    using that by (auto simp: missing_provider_def provider_New_def missing_fetcher_def missing_error_facts)
  have "''41'' \<in> set [''41'']" "ParseReference sample_env ''41'' = Inr ''41''"
    by (simp_all add: sample_env_def)
  from Validate_no_transient_verdict [OF run this] fails run show ?thesis by blast
qed

definition layered_deployment ::
  "(unit, string list, unit, sample_handle, string, sample_bundle) Remote" where
  "layered_deployment = (deployed_remote False deployed_refs)\<lparr>
     Layers := (\<lambda>(c, ls) t x.
       (if ls = [] then Inl (ErrorString ''no layers'') else Inr (map (\<lambda>l. (c, [l])) ls), t, x))\<rparr>"

lemma layered_deployment_nonempty: "layers_nonempty layered_deployment"
  by (auto simp: layers_nonempty_def layered_deployment_def split: if_splits)

theorem Validate_returns_witness:
  "layers_nonempty layered_deployment \<and>
   (\<exists>resp w'. Validate (default_provider sample_sigstore sample_api [sample_root ''gh''] sample_keychains
      fresh_provider layered_deployment (\<lambda>_. True) (initial_vars ''linux'' ''amd64'' no_transport))
      sample_env Background [''41''] (start_world ()) = (Ret resp, w'))"
  using Validate_returns [OF layered_deployment_nonempty] layered_deployment_nonempty by blast

lemma empty_layers_fetch:
  "DefaultBundleFetcher_BundleFromName (deployed_remote False empty_image_refs) sched
     (initial_vars os arch dt) ctx img ro w = (Panic ''index out of range [0] with length 0'', w)"
  by (simp add: DefaultBundleFetcher_BundleFromName_def BundleFromName_def initial_vars_sel retryBundle_def
      retry_loop.simps iteration_wait_def DoBundleFromName_def fetch_referrer_def is_bundle_def
      bundle_artifact_type_def HasPrefix_def call_def deployed_remote_def empty_image_refs_def sample_digest_def)

theorem Validate_panic_timed_as_success_witness:
  "\<exists>p w'. Validate (deployed False empty_image_refs) sample_env Background [''41''] (start_world ()) = (Panic p, w') \<and>
     AttestationsReqTimer (metrics w') [imageCountLabel 1, ''success''] = [clock w' - 0]"
proof -
  obtain p w' where run: "Validate (deployed False empty_image_refs) sample_env Background [''41'']
      (start_world ()) = (Panic p, w')"
    by (simp add: deployed_eval empty_layers_fetch Let_def)
  from Validate_panic_timed_as_success [OF run [unfolded deployed_def]] run show ?thesis
    by (simp add: observe_vec_def new_metrics_def)
qed

end
