(* ===== verification/Server_Http.thy ===== *)
theory Server_Http
  imports Default_Provider
begin

text \<open>
  The serving half of the server (cmd/aaop/aaop.go): the request handler, the response writer, the
  function that runs the HTTP server until the context is done, and the Kubernetes client.
\<close>

section \<open>The request handler\<close>

text \<open>
  What the handler uses of the request and of the JSON package: the body is read through the outside
  world, decoding gives the keys of the request, and encoding a response to the client may fail.
\<close>

record ('x, 'v) HttpEnv =
  req_Method :: string
  req_Body :: "('x, string result) outside"
  Unmarshal :: "string \<Rightarrow> string list result"
  Encode :: "'v ProviderResponse \<Rightarrow> ('x, go_error option) outside"

text \<open>What has been written to the client: the status, and the responses that were encoded.\<close>

record 'v ResponseWriter =
  rw_status :: "int option"
  rw_sent :: "'v ProviderResponse list"

definition fresh_writer :: "'v ResponseWriter" where
  "fresh_writer = \<lparr>rw_status = None, rw_sent = []\<rparr>"

definition StatusOK :: int where "StatusOK = 200"

definition sendResponse ::
  "('x, 'v) HttpEnv \<Rightarrow> 'v ResponseWriter \<Rightarrow> 'v ProviderResponse \<Rightarrow> 'x world \<Rightarrow> 'v ResponseWriter \<times> 'x world" where
  "sendResponse H rw r w0 =
     (let n = LInt (int (length (resp_Items r)));
          w = (if resp_SystemError r = '''' then slog LevelDebug ''writing response'' [(''num_items'', n)] w0
               else slog LevelError ''writing response''
                 [(''system_error'', LStr (resp_SystemError r)), (''num_items'', n)] w0);
          rw = rw\<lparr>rw_status := Some (case rw_status rw of None \<Rightarrow> StatusOK | Some s \<Rightarrow> s)\<rparr>
      in case call (Encode H r) w of
           (None, w) \<Rightarrow> (rw\<lparr>rw_sent := rw_sent rw @ [r]\<rparr>, w)
         | (Some err, w) \<Rightarrow>
             (rw\<lparr>rw_sent := rw_sent rw @ [r]\<rparr>, slog LevelError ''failed writing HTTP response'' [(''error'', LErr (Some err))] w))"

text \<open>The handler: a panic of \<^verbatim>\<open>Validate\<close> leaves it before anything is written.\<close>

definition validate ::
  "('x, 'k, 'r, 'o, 'b, 'v) Provider \<Rightarrow> ('x, 'r) ProviderEnv \<Rightarrow> ('x, 'v) HttpEnv \<Rightarrow> Context \<Rightarrow>
   'v ResponseWriter \<Rightarrow> 'x world \<Rightarrow> 'v ResponseWriter go \<times> 'x world" where
  "validate P E H ctx rw w =
     (if req_Method H \<noteq> ''POST'' then
        (case sendResponse H rw (ErrorResponse ''only POST is allowed'') w of (rw, w) \<Rightarrow> (Ret rw, w))
      else case call (req_Body H) w of
        (Inl err, w) \<Rightarrow>
          (case sendResponse H rw (ErrorResponse (''unable to read request body: '' @ Error err)) w of
             (rw, w) \<Rightarrow> (Ret rw, w))
      | (Inr requestBody, w) \<Rightarrow>
     (case Unmarshal H requestBody of
        Inl err \<Rightarrow>
          (case sendResponse H rw (ErrorResponse (''unable to unmarshal request body: '' @ Error err)) w of
             (rw, w) \<Rightarrow> (Ret rw, w))
      | Inr keys \<Rightarrow>
     (case Validate P E ctx keys w of
        (Panic m, w) \<Rightarrow> (Panic m, w)
      | (Ret resp, w) \<Rightarrow> (case sendResponse H rw resp w of (rw, w) \<Rightarrow> (Ret rw, w)))))"

lemma sendResponse_result:
  assumes "sendResponse H rw r w = (rw', w')"
  shows "rw' = rw\<lparr>rw_status := Some (case rw_status rw of None \<Rightarrow> StatusOK | Some s \<Rightarrow> s), rw_sent := rw_sent rw @ [r]\<rparr>"
    and "metrics w' = metrics w"
  using assms
  by (auto simp: sendResponse_def Let_def dest!: call_frame(1) split: prod.splits option.splits if_splits)

lemma validate_cases:
  assumes "validate P E H ctx rw0 w = (Ret rw, w')"
  obtains (rejected) msg w1 where "msg \<noteq> ''''" "metrics w1 = metrics w"
      "sendResponse H rw0 (ErrorResponse msg) w1 = (rw, w')"
  | (processed) body keys resp w1 w2 where "req_Method H = ''POST''" "call (req_Body H) w = (Inr body, w1)"
      "Unmarshal H body = Inr keys" "Validate P E ctx keys w1 = (Ret resp, w2)"
      "sendResponse H rw0 resp w2 = (rw, w')"
proof (cases "req_Method H = ''POST''")
  case False
  with assms rejected [of "''only POST is allowed''" w] show ?thesis
    by (auto simp: validate_def split: prod.splits)
next
  case True
  obtain b w1 where b: "call (req_Body H) w = (b, w1)" by force
  note m = call_frame(1) [OF b]
  show ?thesis
  proof (cases b)
    case (Inl err)
    with assms True b m rejected [of "''unable to read request body: '' @ Error err" w1] show ?thesis
      by (auto simp: validate_def split: prod.splits)
  next
    case (Inr body)
    show ?thesis
    proof (cases "Unmarshal H body")
      case (Inl err)
      with assms True b Inr m rejected [of "''unable to unmarshal request body: '' @ Error err" w1]
      show ?thesis by (auto simp: validate_def split: prod.splits)
    next
      case (Inr keys)
      with assms True b \<open>b = Inr body\<close> processed [of body w1 keys] show ?thesis
        by (auto simp: validate_def split: prod.splits go.splits)
    qed
  qed
qed

text \<open>
  The handler answers every request that does not panic with the status 200 and exactly one
  response. A request that is not a POST, whose body cannot be read or is not a provider request gets
  a response with a system error and no items, without any image being processed: the metrics are
  unchanged. Every other response is the one \<^verbatim>\<open>Validate\<close> returned for the keys of the body.
\<close>

theorem validate_answers:
  assumes "validate P E H ctx fresh_writer w = (Ret rw, w')"
  shows "rw_status rw = Some 200 \<and>
    (\<exists>resp. rw_sent rw = [resp] \<and>
      (resp_SystemError resp \<noteq> '''' \<and> resp_Items resp = [] \<and> metrics w' = metrics w \<or>
       req_Method H = ''POST'' \<and>
       (\<exists>body keys w1 w2. call (req_Body H) w = (Inr body, w1) \<and> Unmarshal H body = Inr keys \<and>
          Validate P E ctx keys w1 = (Ret resp, w2))))"
  using assms
proof (rule validate_cases)
  fix msg w1
  assume "msg \<noteq> ''''" "metrics w1 = metrics w" "sendResponse H fresh_writer (ErrorResponse msg) w1 = (rw, w')"
  with sendResponse_result [OF this(3)] show ?thesis
    by (simp add: fresh_writer_def StatusOK_def ErrorResponse_def)
next
  fix body keys resp w1 w2
  assume "req_Method H = ''POST''" "call (req_Body H) w = (Inr body, w1)" "Unmarshal H body = Inr keys"
    "Validate P E ctx keys w1 = (Ret resp, w2)" "sendResponse H fresh_writer resp w2 = (rw, w')"
  with sendResponse_result(1) [OF this(5)] show ?thesis by (auto simp: fresh_writer_def StatusOK_def)
qed

section \<open>Running the server\<close>

text \<open>
  \<^verbatim>\<open>run\<close> as a transition system of its two goroutines. The server goroutine serves, then sends the
  error it got unless it is \<^verbatim>\<open>ErrServerClosed\<close>; the main one waits for an error or for the context, and
  returning closes the channel. Sending on a closed channel panics.
\<close>

datatype serve_error = ErrServerClosed | OtherError go_error

datatype server_state = Serving | Sending go_error | ServerDone

datatype main_state = Selecting | RunReturned "go_error option"

record run_state =
  server :: server_state
  main_st :: main_state
  errChan :: "go_error list"
  closed :: bool
  panicked :: bool

definition run_init :: run_state where
  "run_init = \<lparr>server = Serving, main_st = Selecting, errChan = [], closed = False, panicked = False\<rparr>"

fun after_serve :: "serve_error option \<Rightarrow> server_state" where
  "after_serve (Some (OtherError err)) = Sending (WrapError ''failed to start server: '' err)"
| "after_serve _ = ServerDone"

text \<open>The server may end, and the context may become done, at any time.\<close>

inductive run_step :: "run_state \<Rightarrow> run_state \<Rightarrow> bool" where
  serve_returns: "server s = Serving \<Longrightarrow> run_step s (s\<lparr>server := after_serve r\<rparr>)"
| send_error: "server s = Sending e \<Longrightarrow> \<not> closed s \<Longrightarrow> errChan s = [] \<Longrightarrow>
    run_step s (s\<lparr>server := ServerDone, errChan := [e]\<rparr>)"
| send_closed: "server s = Sending e \<Longrightarrow> closed s \<Longrightarrow> run_step s (s\<lparr>panicked := True\<rparr>)"
| receive: "main_st s = Selecting \<Longrightarrow> errChan s = [e] \<Longrightarrow>
    run_step s (s\<lparr>main_st := RunReturned (Some (WrapError ''failed to start server: '' e)), errChan := [],
      closed := True\<rparr>)"
| ctx_done: "main_st s = Selecting \<Longrightarrow> run_step s (s\<lparr>main_st := RunReturned None, closed := True\<rparr>)"

inductive run_reachable :: "run_state \<Rightarrow> bool" where
  init: "run_reachable run_init"
| step: "run_reachable s \<Longrightarrow> run_step s s' \<Longrightarrow> run_reachable s'"

text \<open>The invariant of the run.\<close>

definition run_inv :: "run_state \<Rightarrow> bool" where
  "run_inv s \<longleftrightarrow>
     (closed s \<longleftrightarrow> main_st s \<noteq> Selecting) \<and>
     (errChan s \<noteq> [] \<longrightarrow> server s = ServerDone) \<and> length (errChan s) \<le> 1 \<and>
     (\<forall>e. main_st s = RunReturned (Some e) \<longrightarrow> server s = ServerDone) \<and>
     (panicked s \<longrightarrow> main_st s = RunReturned None \<and> (\<exists>e. server s = Sending e))"

lemma main_state_cases: "m \<noteq> Selecting \<Longrightarrow> \<forall>e. m \<noteq> RunReturned (Some e) \<Longrightarrow> m = RunReturned None"
  by (metis main_state.exhaust option.exhaust)

lemma run_inv_reachable: "run_reachable s \<Longrightarrow> run_inv s"
proof (induction rule: run_reachable.induct)
  case (step s s')
  from step.hyps(2) step.IH show ?case
    by (cases rule: run_step.cases) (auto simp: run_inv_def intro: main_state_cases)
qed (simp add: run_inv_def run_init_def)

text \<open>
  The two goroutines of \<^verbatim>\<open>run\<close>: the channel never holds more than one error, so the send never
  blocks; an error is returned only after the server goroutine has ended; and the only way to panic
  is that the server fails after \<^verbatim>\<open>run\<close> has returned because of its context.
\<close>

theorem run_safe:
  assumes "run_reachable s"
  shows "length (errChan s) \<le> 1 \<and> (\<forall>e. main_st s = RunReturned (Some e) \<longrightarrow> server s = ServerDone \<and> \<not> panicked s) \<and>
    (panicked s \<longrightarrow> main_st s = RunReturned None)"
  using run_inv_reachable [OF assms] by (auto simp: run_inv_def)

text \<open>
  C40. The panic can happen: when the context is done first, \<^verbatim>\<open>run\<close> returns and closes the channel while
  the server goroutine is still running; if that goroutine then gets an error other than
  \<^verbatim>\<open>ErrServerClosed\<close>, it sends on the closed channel and the process panics instead of shutting down.
\<close>

theorem run_can_panic:
  "\<exists>s. run_reachable s \<and> panicked s \<and> main_st s = RunReturned None"
proof -
  let ?s1 = "run_init\<lparr>main_st := RunReturned None, closed := True\<rparr>"
  let ?s2 = "?s1\<lparr>server := Sending (WrapError ''failed to start server: '' (ErrorString ''accept''))\<rparr>"
  let ?s3 = "?s2\<lparr>panicked := True\<rparr>"
  have "run_step run_init ?s1" by (rule run_step.ctx_done) (simp add: run_init_def)
  moreover have "run_step ?s1 ?s2"
    using run_step.serve_returns [of ?s1 "Some (OtherError (ErrorString ''accept''))"] by (simp add: run_init_def)
  moreover have "run_step ?s2 ?s3" by (rule run_step.send_closed) simp_all
  ultimately have "run_reachable ?s3" by (blast intro: run_reachable.intros)
  moreover have "panicked ?s3" "main_st ?s3 = RunReturned None" by simp_all
  ultimately show ?thesis by blast
qed

section \<open>The Kubernetes client\<close>

record ('x, 'c, 'd) K8sApi =
  AddToScheme :: "('x, go_error option) outside"
  InClusterConfig :: "('x, 'c result) outside"
  NewForConfig :: "'c \<Rightarrow> ('x, 'd result) outside"

definition getK8sClient :: "('x, 'c, 'd) K8sApi \<Rightarrow> 'x world \<Rightarrow> 'd result \<times> 'x world" where
  "getK8sClient K w =
     (case call (AddToScheme K) w of
        (Some err, w) \<Rightarrow> (Inl err, w)
      | (None, w) \<Rightarrow>
     (case call (InClusterConfig K) w of
        (Inl err, w) \<Rightarrow> (Inl err, w)
      | (Inr clusterConfig, w) \<Rightarrow>
     (case call (NewForConfig K clusterConfig) w of
        (Inl err, w) \<Rightarrow> (Inl (WrapError ''failed to create in-cluster kubernetes client: '' err), w)
      | (Inr unstructuredClient, w) \<Rightarrow> (Inr unstructuredClient, w))))"

section \<open>Concrete requests\<close>

definition sample_http :: "string \<Rightarrow> (unit, sample_bundle option) HttpEnv" where
  "sample_http meth = \<lparr>req_Method = meth, req_Body = (\<lambda>t x. (Inr ''41'', t, x)),
     Unmarshal = (\<lambda>s. Inr [s]), Encode = (\<lambda>r t x. (None, t, x))\<rparr>"

theorem validate_answers_witness:
  "\<exists>rw w'. validate (deployed False deployed_refs) sample_env (sample_http ''GET'') Background fresh_writer
       (start_world ()) = (Ret rw, w') \<and>
     rw_status rw = Some 200 \<and> (\<exists>resp. rw_sent rw = [resp] \<and> resp_SystemError resp \<noteq> '''' \<and> resp_Items resp = [])"
proof -
  obtain rw w' where run: "validate (deployed False deployed_refs) sample_env (sample_http ''GET'') Background
      fresh_writer (start_world ()) = (Ret rw, w')"
    by (simp add: validate_def sample_http_def sendResponse_def call_def Let_def split: prod.split)
  have "req_Method (sample_http ''GET'') \<noteq> ''POST''" by (simp add: sample_http_def)
  with validate_answers [OF run] run show ?thesis by blast
qed

theorem run_safe_witness:
  "\<exists>s. run_reachable s \<and> main_st s = RunReturned None \<and> length (errChan s) \<le> 1"
proof -
  let ?s = "run_init\<lparr>main_st := RunReturned None, closed := True\<rparr>"
  have "run_reachable ?s"
    by (rule run_reachable.step [OF run_reachable.init run_step.ctx_done]) (simp add: run_init_def)
  with run_safe [OF this] show ?thesis by (intro exI [of _ ?s]) simp
qed

end
