(* ===== verification/Server_Config.thy ===== *)
theory Server_Config
  imports Registry_Transport App_Verifier
begin

text \<open>
  The configuration half of the server (cmd/aaop/aaop.go): the comma-separated flags, and the two
  functions that validate the fetcher's flags and store them in the fetcher's variables.
\<close>

section \<open>Comma-separated flags\<close>

text \<open>
  \<^verbatim>\<open>strings.Split\<close> at the commas, \<^verbatim>\<open>strings.TrimSpace\<close>, drop the empty candidates; an empty flag gives no
  values. The same loop reads the targets and the trust domains, in the server and in the command
  line tool.
\<close>

fun keep_candidates :: "string list \<Rightarrow> string list" where
  "keep_candidates [] = []"
| "keep_candidates (t # tmp) =
     (let candidate = TrimSpace t
      in if candidate = '''' then keep_candidates tmp else candidate # keep_candidates tmp)"

definition flag_list :: "string \<Rightarrow> string list" where
  "flag_list s = (if s \<noteq> '''' then keep_candidates (Split s (CHR '','')) else [])"

definition verifier_cfg :: "string \<Rightarrow> string \<Rightarrow> string \<Rightarrow> string \<Rightarrow> bool \<Rightarrow> VerifierCfg" where
  "verifier_cfg tufRoot tufRepo tufTargets trustDomains usePGI =
     \<lparr>TufRoot = tufRoot, TufRepo = tufRepo, TufTargets = flag_list tufTargets,
      TrustDomains = flag_list trustDomains, UsePGI = usePGI\<rparr>"

section \<open>The fetcher's flags\<close>

text \<open>The loops over the named overrides: the first negative value is reported.\<close>

fun first_negative :: "(string \<times> int) list \<Rightarrow> go_error option" where
  "first_negative [] = None"
| "first_negative ((name, value) # os) =
     (if value < 0 then Some (ErrorString (name @ '' must not be negative'')) else first_negative os)"

definition configureBundleFetcher ::
  "'t Transport \<Rightarrow> int \<Rightarrow> duration \<Rightarrow> duration \<Rightarrow> duration \<Rightarrow> duration \<Rightarrow> duration \<Rightarrow> 't FetcherVars \<Rightarrow>
   go_error option \<times> 't FetcherVars" where
  "configureBundleFetcher DefaultTransport maxAttempts timeout delay dialTimeout tlsHandshakeTimeout
     responseHeaderTimeout vars =
     (if maxAttempts < 1 then (Some (ErrorString ''bundle-max-attempts must be greater than zero''), vars)
      else if timeout \<le> 0 then (Some (ErrorString ''bundle-timeout must be greater than zero''), vars)
      else if delay < 0 then (Some (ErrorString ''bundle-delay must not be negative''), vars)
      else case first_negative
          [(''registry-dial-timeout'', dialTimeout), (''registry-tls-handshake-timeout'', tlsHandshakeTimeout),
           (''registry-response-header-timeout'', responseHeaderTimeout)] of
        Some err \<Rightarrow> (Some err, vars)
      | None \<Rightarrow>
          (None, ConfigureTransport DefaultTransport (vars\<lparr>
             MaxAttempts := maxAttempts, Timeout := timeout, Delay := delay,
             DialTimeoutOverride := dialTimeout, TLSHandshakeTimeoutOverride := tlsHandshakeTimeout,
             ResponseHeaderTimeoutOverride := responseHeaderTimeout\<rparr>)))"

definition configureRegistryPool ::
  "duration \<Rightarrow> duration \<Rightarrow> int \<Rightarrow> int \<Rightarrow> 't FetcherVars \<Rightarrow> go_error option \<times> 't FetcherVars" where
  "configureRegistryPool dialKeepAlive idleConnTimeout maxIdleConns maxIdleConnsPerHost vars =
     (case first_negative
          [(''registry-dial-keep-alive'', dialKeepAlive), (''registry-idle-conn-timeout'', idleConnTimeout)] of
        Some err \<Rightarrow> (Some err, vars)
      | None \<Rightarrow>
     (case first_negative
          [(''registry-max-idle-conns'', maxIdleConns), (''registry-max-idle-conns-per-host'', maxIdleConnsPerHost)] of
        Some err \<Rightarrow> (Some err, vars)
      | None \<Rightarrow>
          (None, vars\<lparr>DialKeepAlive := dialKeepAlive, IdleConnTimeout := idleConnTimeout,
             MaxIdleConns := maxIdleConns, MaxIdleConnsPerHost := maxIdleConnsPerHost\<rparr>)))"

section \<open>Properties\<close>

lemma keep_candidates_filter: "keep_candidates ts = filter (\<lambda>c. c \<noteq> '''') (map TrimSpace ts)"
  by (induction ts) (simp_all add: Let_def)

lemma leading_space_0:
  assumes "\<And>w. w \<in> set ws \<Longrightarrow> w \<noteq> []"
  shows "leading_space ws s = 0 \<longleftrightarrow> (\<forall>w \<in> set ws. \<not> prefix w s)"
  using assms by (auto simp: leading_space_def find_None_iff find_Some_iff split: option.splits)

lemma leading_space_left: "leading_space spaces s = 0 \<longleftrightarrow> (\<forall>w \<in> set spaces. \<not> prefix w s)"
  by (rule leading_space_0) (rule spaces_nonempty)

lemma leading_space_right:
  "leading_space (map rev spaces) (rev s) = 0 \<longleftrightarrow> (\<forall>w \<in> set spaces. \<not> suffix w s)"
  by (subst leading_space_0) (auto dest: spaces_nonempty simp: suffix_to_prefix)

text \<open>A trimmed string has no white space at either end; trimming it again changes nothing.\<close>

definition trimmed :: "string \<Rightarrow> bool" where
  "trimmed s \<longleftrightarrow> (\<forall>w \<in> set spaces. \<not> prefix w s \<and> \<not> suffix w s)"

lemma TrimSpace_trimmed: "trimmed (TrimSpace s)"
proof -
  let ?t = "trim_left spaces s"
  have left: "\<not> prefix w ?t" if "w \<in> set spaces" for w
    using that trim_left_done [of spaces s] by (simp add: leading_space_left)
  have pre: "prefix (TrimSpace s) ?t"
    using trim_left_suffix [of "map rev spaces" "rev ?t"] by (simp add: TrimSpace_def suffix_to_prefix)
  have "leading_space (map rev spaces) (rev (TrimSpace s)) = 0"
    by (simp add: TrimSpace_def trim_left_done)
  then show ?thesis
    using left pre by (auto simp: trimmed_def leading_space_right intro: prefix_order.trans)
qed

lemma TrimSpace_id:
  assumes "trimmed s"
  shows "TrimSpace s = s"
proof -
  have "leading_space spaces s = 0" "leading_space (map rev spaces) (rev s) = 0"
    using assms by (simp_all add: trimmed_def leading_space_left leading_space_right)
  then show ?thesis by (simp add: TrimSpace_def trim_left_id)
qed

lemma flag_list_values:
  assumes "x \<in> set (flag_list s)"
  shows "x \<noteq> ''''" and "CHR '','' \<notin> set x" and "trimmed x"
  using assms set_TrimSpace Split_pieces TrimSpace_trimmed
  by (auto simp: flag_list_def keep_candidates_filter split: if_splits) blast


text \<open>The shared transport is built from the variables that are in force.\<close>

definition transport_current :: "'t Transport \<Rightarrow> 't FetcherVars \<Rightarrow> bool" where
  "transport_current DefaultTransport vars \<longleftrightarrow> registryTransport vars = newRegistryTransport DefaultTransport vars"

lemma first_negative_None: "first_negative os = None \<longleftrightarrow> (\<forall>(n, v) \<in> set os. 0 \<le> v)"
  by (induction os rule: first_negative.induct) auto

lemma newRegistryTransport_cong:
  assumes "Timeout v = Timeout v'" "DialTimeoutOverride v = DialTimeoutOverride v'"
    "TLSHandshakeTimeoutOverride v = TLSHandshakeTimeoutOverride v'"
    "ResponseHeaderTimeoutOverride v = ResponseHeaderTimeoutOverride v'"
    "DialKeepAlive v = DialKeepAlive v'" "IdleConnTimeout v = IdleConnTimeout v'"
    "MaxIdleConns v = MaxIdleConns v'" "MaxIdleConnsPerHost v = MaxIdleConnsPerHost v'"
  shows "newRegistryTransport dt v = newRegistryTransport dt v'"
  using assms by (simp add: newRegistryTransport_def resolveTransportTimeouts_def newRegistryDialer_def)

text \<open>
  The fetcher's flags are applied atomically. \<^verbatim>\<open>configureBundleFetcher\<close> reports an error exactly when a
  value is out of range, and then it has changed nothing; otherwise all six values are in force
  and the shared transport has been rebuilt from them.
\<close>

theorem configureBundleFetcher_atomic:
  "case configureBundleFetcher dt maxAttempts timeout delay dial tls rh vars of
     (Some err, vars') \<Rightarrow> vars' = vars \<and>
       (maxAttempts < 1 \<or> timeout \<le> 0 \<or> delay < 0 \<or> dial < 0 \<or> tls < 0 \<or> rh < 0)
   | (None, vars') \<Rightarrow> 1 \<le> maxAttempts \<and> 0 < timeout \<and> 0 \<le> delay \<and> 0 \<le> dial \<and> 0 \<le> tls \<and> 0 \<le> rh \<and>
       MaxAttempts vars' = maxAttempts \<and> Timeout vars' = timeout \<and> Delay vars' = delay \<and>
       DialTimeoutOverride vars' = dial \<and> TLSHandshakeTimeoutOverride vars' = tls \<and>
       ResponseHeaderTimeoutOverride vars' = rh \<and> transport_current dt vars'"
  by (auto simp: configureBundleFetcher_def transport_current_def ConfigureTransport_def
      intro!: newRegistryTransport_cong split: if_splits)

text \<open>
  The order of the two functions in \<^verbatim>\<open>main\<close> is the right one: when the pool values are accepted and
  then the fetcher's values are, the shared transport is built from both, so every pool value and
  every connection-phase time-out is in force for the requests.
\<close>

theorem configuration_in_force:
  assumes "configureRegistryPool keepAlive idle maxIdle maxPerHost vars = (None, vars1)"
    and "configureBundleFetcher dt maxAttempts timeout delay dial tls rh vars1 = (None, vars2)"
  shows "transport_current dt vars2 \<and> t_IdleConnTimeout (registryTransport vars2) = idle \<and>
    t_MaxIdleConns (registryTransport vars2) = maxIdle \<and>
    t_MaxIdleConnsPerHost (registryTransport vars2) = maxPerHost \<and>
    t_DialContext (registryTransport vars2) =
      \<lparr>d_Timeout = pickPhaseTimeout dial timeout dialTimeoutFraction, d_KeepAlive = keepAlive\<rparr> \<and>
    t_TLSHandshakeTimeout (registryTransport vars2) = pickPhaseTimeout tls timeout tlsHandshakeTimeoutFraction \<and>
    t_ResponseHeaderTimeout (registryTransport vars2) =
      pickPhaseTimeout rh timeout responseHeaderTimeoutFraction"
proof -
  from assms(1) have v1: "DialKeepAlive vars1 = keepAlive" "IdleConnTimeout vars1 = idle"
    "MaxIdleConns vars1 = maxIdle" "MaxIdleConnsPerHost vars1 = maxPerHost"
    by (auto simp: configureRegistryPool_def split: option.splits)
  from assms(2) have "vars2 = ConfigureTransport dt (vars1\<lparr>MaxAttempts := maxAttempts, Timeout := timeout,
      Delay := delay, DialTimeoutOverride := dial, TLSHandshakeTimeoutOverride := tls,
      ResponseHeaderTimeoutOverride := rh\<rparr>)"
    by (auto simp: configureBundleFetcher_def split: if_splits)
  with v1 show ?thesis
    by (simp add: ConfigureTransport_def transport_current_def newRegistryTransport_def
        resolveTransportTimeouts_def newRegistryDialer_def)
qed

theorem configuration_in_force_witness:
  "\<exists>vars1 vars2. configureRegistryPool (5 * Second) Second 7 3 (initial_vars ''linux'' ''amd64'' no_transport) =
       (None, vars1) \<and>
     configureBundleFetcher no_transport 2 (2500 * Millisecond) 0 0 0 0 vars1 = (None, vars2) \<and>
     t_IdleConnTimeout (registryTransport vars2) = Second \<and> t_MaxIdleConns (registryTransport vars2) = 7"
proof -
  obtain vars1 where v1: "configureRegistryPool (5 * Second) Second 7 3
      (initial_vars ''linux'' ''amd64'' no_transport) = (None, vars1)"
    by (simp add: configureRegistryPool_def duration_defs)
  obtain vars2 where v2: "configureBundleFetcher no_transport 2 (2500 * Millisecond) 0 0 0 0 vars1 = (None, vars2)"
    by (simp add: configureBundleFetcher_def duration_defs)
  from configuration_in_force [OF v1 v2] v1 v2 show ?thesis by blast
qed

end
