(* ===== verification/Base64.thy ===== *)
theory Base64
  imports Go_Errors
begin

text \<open>
  \<^verbatim>\<open>base64.StdEncoding\<close> of the Go library, as pkg/cainjector uses it: encoding with padding, and the
  decoder that skips line breaks and reports the offset of the first illegal byte.
\<close>

section \<open>The alphabet\<close>

definition alphabet :: string where
  "alphabet = ''ABCDEFGHIJKLMNOPQRSTUVWXYZabcdefghijklmnopqrstuvwxyz0123456789+/''"

definition b64_char :: "nat \<Rightarrow> char" where
  "b64_char n = alphabet ! n"

definition sextet :: "char \<Rightarrow> nat option" where
  "sextet c =
     (let n = of_char c :: nat
      in if 65 \<le> n \<and> n \<le> 90 then Some (n - 65)
         else if 97 \<le> n \<and> n \<le> 122 then Some (n - 71)
         else if 48 \<le> n \<and> n \<le> 57 then Some (n + 4)
         else if n = 43 then Some 62
         else if n = 47 then Some 63
         else None)"

lemma alphabet_sextets: "map sextet alphabet = map Some [0..<64]"
  by code_simp

lemma length_alphabet: "length alphabet = 64"
  by (simp add: alphabet_def)

lemma sextet_b64_char [simp]: "n < 64 \<Longrightarrow> sextet (b64_char n) = Some n"
  using arg_cong [OF alphabet_sextets, of "\<lambda>xs. xs ! n"] by (simp add: b64_char_def length_alphabet)

section \<open>Encoding\<close>

fun b64_encode :: "string \<Rightarrow> string" where
  "b64_encode [] = []"
| "b64_encode [a] =
     (let x = of_char a
      in [b64_char (x div 4), b64_char (x mod 4 * 16), CHR ''='', CHR ''='' ])"
| "b64_encode [a, b] =
     (let x = of_char a; y = of_char b
      in [b64_char (x div 4), b64_char (x mod 4 * 16 + y div 16), b64_char (y mod 16 * 4), CHR ''='' ])"
| "b64_encode (a # b # c # s) =
     (let x = of_char a; y = of_char b; z = of_char c
      in [b64_char (x div 4), b64_char (x mod 4 * 16 + y div 16), b64_char (y mod 16 * 4 + z div 64),
          b64_char (z mod 64)] @ b64_encode s)"

section \<open>Decoding\<close>

definition newline :: "char \<Rightarrow> bool" where
  "newline c = (c = CHR 10 \<or> c = CHR 13)"

fun skip_newlines :: "nat \<Rightarrow> string \<Rightarrow> nat \<times> string" where
  "skip_newlines si [] = (si, [])"
| "skip_newlines si (c # cs) = (if newline c then skip_newlines (Suc si) cs else (si, c # cs))"

text \<open>The end of a padded quantum: only line breaks may follow.\<close>

definition after_padding :: "nat list \<Rightarrow> nat \<Rightarrow> string \<Rightarrow> nat + nat list \<times> nat \<times> string" where
  "after_padding ds si s =
     (case skip_newlines si s of
        (si, []) \<Rightarrow> Inr (ds, si, [])
      | (si, _ # _) \<Rightarrow> Inl si)"

text \<open>
  \<^verbatim>\<open>decodeQuantum\<close>: collects up to four digits. The result is the offset of an error, or the digits,
  the offset and the rest of the input.
\<close>

fun decodeQuantum :: "nat list \<Rightarrow> nat \<Rightarrow> string \<Rightarrow> nat + nat list \<times> nat \<times> string" where
  "decodeQuantum ds si [] =
     (if length ds = 4 \<or> ds = [] then Inr (ds, si, []) else Inl (si - length ds))"
| "decodeQuantum ds si (c # cs) =
     (if length ds = 4 then Inr (ds, si, c # cs)
      else case sextet c of
        Some v \<Rightarrow> decodeQuantum (ds @ [v]) (Suc si) cs
      | None \<Rightarrow>
          if newline c then decodeQuantum ds (Suc si) cs
          else if c \<noteq> CHR ''='' \<or> length ds < 2 then Inl si
          else if length ds = 2 then
            (case skip_newlines (Suc si) cs of
               (si, []) \<Rightarrow> Inl si
             | (si, d # cs) \<Rightarrow> if d \<noteq> CHR ''='' then Inl (si - 1) else after_padding ds (Suc si) cs)
          else after_padding ds (Suc si) cs)"

fun quantum_bytes :: "nat list \<Rightarrow> string" where
  "quantum_bytes [a, b, c, d] =
     [char_of (a * 4 + b div 16), char_of (b mod 16 * 16 + c div 4), char_of (c mod 4 * 64 + d)]"
| "quantum_bytes [a, b, c] = [char_of (a * 4 + b div 16), char_of (b mod 16 * 16 + c div 4)]"
| "quantum_bytes [a, b] = [char_of (a * 4 + b div 16)]"
| "quantum_bytes _ = []"

definition CorruptInputError :: "nat \<Rightarrow> go_error" where
  "CorruptInputError p = ErrorString (''illegal base64 data at input byte '' @ nat_str p)"

lemma skip_newlines_length: "skip_newlines si s = (si', s') \<Longrightarrow> length s' \<le> length s"
  by (induction si s rule: skip_newlines.induct) (auto split: if_splits)

lemma decodeQuantum_length:
  "decodeQuantum ds si s = Inr (ds', si', s') \<Longrightarrow>
   length s' \<le> length s \<and> (length ds < 4 \<longrightarrow> s \<noteq> [] \<longrightarrow> length s' < length s)"
proof (induction ds si s rule: decodeQuantum.induct)
  case (2 ds si c cs)
  then show ?case
    by (fastforce simp: after_padding_def split: if_splits option.splits prod.splits list.splits
        dest: skip_newlines_length)
qed (auto split: if_splits)

function b64_decode :: "nat \<Rightarrow> string \<Rightarrow> string result" where
  "b64_decode si s =
     (if s = [] then Inr []
      else case decodeQuantum [] si s of
        Inl p \<Rightarrow> Inl (CorruptInputError p)
      | Inr (ds, si', s') \<Rightarrow>
          (case b64_decode si' s' of
             Inl err \<Rightarrow> Inl err
           | Inr bytes \<Rightarrow> Inr (quantum_bytes ds @ bytes)))"
  by pat_completeness auto
termination
  by (relation "measure (\<lambda>(si, s). length s)") (auto dest: decodeQuantum_length)

declare b64_decode.simps [simp del]

definition DecodeString :: "string \<Rightarrow> string result" where
  "DecodeString s = b64_decode 0 s"

section \<open>Round trip\<close>

lemma of_char_bound: "(of_char c :: nat) < 256"
  by (metis of_char_of of_char_mod_256 mod_less_divisor zero_less_numeral)

text \<open>One quantum of the encoder is one quantum of the decoder.\<close>

lemma decodeQuantum_digit [simp]:
  "length ds \<noteq> 4 \<Longrightarrow> v < 64 \<Longrightarrow> decodeQuantum ds si (b64_char v # cs) = decodeQuantum (ds @ [v]) (Suc si) cs"
  by simp

lemma decodeQuantum_full: "length ds = 4 \<Longrightarrow> decodeQuantum ds si s = Inr (ds, si, s)"
  by (cases s) auto

lemma sextet_pad [simp]: "sextet (CHR ''='') = None" and newline_pad [simp]: "\<not> newline (CHR ''='')"
  by (simp_all add: sextet_def newline_def)

lemma sextet_not_newline: "newline c \<Longrightarrow> sextet c = None"
  by (auto simp: newline_def sextet_def)

lemma bytes_of_digits:
  fixes x y z :: nat
  assumes "x < 256" "y < 256" "z < 256"
  shows "x div 4 * 4 + (x mod 4 * 16 + y div 16) div 16 = x"
    and "(x mod 4 * 16 + y div 16) mod 16 * 16 + (y mod 16 * 4 + z div 64) div 4 = y"
    and "(y mod 16 * 4 + z div 64) mod 4 * 64 + z mod 64 = z"
proof -
  have "y div 16 < 16" and "z div 64 < 4"
    using assms by (simp_all add: div_less_iff_less_mult)
  then show "x div 4 * 4 + (x mod 4 * 16 + y div 16) div 16 = x"
    and "(x mod 4 * 16 + y div 16) mod 16 * 16 + (y mod 16 * 4 + z div 64) div 4 = y"
    and "(y mod 16 * 4 + z div 64) mod 4 * 64 + z mod 64 = z"
    by simp_all
qed

lemma digit_bounds:
  fixes x y z :: nat
  assumes "x < 256" "y < 256" "z < 256"
  shows "x div 4 < 64" and "x mod 4 * 16 + y div 16 < 64" and "y mod 16 * 4 + z div 64 < 64"
    and "x mod 4 * 16 < 64" and "y mod 16 * 4 < 64"
proof -
  have "x mod 4 < 4" and "y div 16 < 16" and "y mod 16 < 16" and "z div 64 < 4" and "x div 4 < 64"
    using assms by (simp_all add: div_less_iff_less_mult)
  then show "x div 4 < 64" and "x mod 4 * 16 + y div 16 < 64" and "y mod 16 * 4 + z div 64 < 64"
    and "x mod 4 * 16 < 64" and "y mod 16 * 4 < 64"
    by linarith+
qed

lemma char_of_of_char [simp]: "char_of (of_char c :: nat) = c"
  by simp

lemma b64_decode_encode: "b64_decode si (b64_encode bs) = Inr bs"
proof (induction bs arbitrary: si rule: b64_encode.induct)
  case 1
  then show ?case by (simp add: b64_decode.simps)
next
  case (2 a)
  show ?case
    using digit_bounds [OF of_char_bound [of a] of_char_bound [of a] of_char_bound [of a]]
      bytes_of_digits(1) [OF of_char_bound [of a], of 0 0]
    by (simp add: b64_decode.simps [of si] Let_def after_padding_def b64_decode.simps [of _ "[]"])
next
  case (3 a b)
  show ?case
    using digit_bounds [OF of_char_bound [of a] of_char_bound [of b] of_char_bound [of a]]
      bytes_of_digits(1,2) [OF of_char_bound [of a] of_char_bound [of b], of 0]
    by (simp add: b64_decode.simps [of si] Let_def after_padding_def b64_decode.simps [of _ "[]"])
next
  case (4 a b c s)
  show ?case
    using digit_bounds [OF of_char_bound [of a] of_char_bound [of b] of_char_bound [of c]]
      bytes_of_digits [OF of_char_bound [of a] of_char_bound [of b] of_char_bound [of c]]
    by (simp add: b64_decode.simps [of si] Let_def decodeQuantum_full 4)
qed

text \<open>Line breaks in the input change nothing but the offsets.\<close>

abbreviation unbroken :: "string \<Rightarrow> string" where
  "unbroken \<equiv> filter (\<lambda>c. \<not> newline c)"

lemma skip_newlines_unbroken:
  "skip_newlines si s = (si', s') \<Longrightarrow> unbroken s' = unbroken s \<and> (\<forall>c cs. s' = c # cs \<longrightarrow> \<not> newline c)"
  by (induction si s rule: skip_newlines.induct) (auto split: if_splits)

lemma skip_newlines_id: "skip_newlines si (unbroken s) = (si, unbroken s)"
  by (induction s) auto

lemma after_padding_unbroken:
  "after_padding ds sj (unbroken s) = Inr (ds', sj', r) \<Longrightarrow>
   \<exists>si' r'. after_padding ds si s = Inr (ds', si', r') \<and> unbroken r' = r"
  using skip_newlines_unbroken [of si s]
  by (cases "skip_newlines si s")
     (auto simp: after_padding_def skip_newlines_id split: list.splits)

lemma decodeQuantum_unbroken:
  "decodeQuantum ds sj (unbroken s) = Inr (ds', sj', r) \<Longrightarrow>
   \<exists>si' r'. decodeQuantum ds si s = Inr (ds', si', r') \<and> unbroken r' = r"
proof (induction ds si s arbitrary: sj rule: decodeQuantum.induct)
  case (1 ds si)
  then show ?case by (auto split: if_splits)
next
  case (2 ds si c cs)
  show ?case
  proof (cases "length ds = 4")
    case True
    with 2(3) show ?thesis by (auto simp: decodeQuantum_full)
  next
    case four: False
    show ?thesis
    proof (cases "newline c")
      case True
      then have "sextet c = None" by (rule sextet_not_newline)
      with 2(1) [OF four this True] 2(3) four True show ?thesis by simp
    next
      case False
      obtain si' s' where skip: "skip_newlines (Suc si) cs = (si', s')"
        by (cases "skip_newlines (Suc si) cs")
      note rest = skip_newlines_unbroken [OF skip]
      from four False 2(2) [OF four] 2(3) rest skip show ?thesis
        by (cases s')
           (auto simp: skip_newlines_id split: option.splits if_splits list.splits
             intro: after_padding_unbroken)
    qed
  qed
qed

lemma b64_decode_step:
  assumes "decodeQuantum [] si s = Inr (ds, si', s')" and "b64_decode si' s' = Inr bs"
  shows "b64_decode si s = Inr (quantum_bytes ds @ bs)"
proof (cases "s = []")
  case True
  with assms show ?thesis by (auto simp: b64_decode.simps [of _ "[]"])
next
  case False
  with assms show ?thesis by (simp add: b64_decode.simps [of si])
qed

lemma b64_decode_unbroken:
  "b64_decode sj (unbroken s) = Inr bs \<Longrightarrow> b64_decode si s = Inr bs"
proof (induction "length s" arbitrary: si s sj bs rule: less_induct)
  case less
  show ?case
  proof (cases "s = []")
    case True
    with less.prems show ?thesis by (simp add: b64_decode.simps [of _ "[]"])
  next
    case False
    obtain ds sj' r bs' where quantum: "decodeQuantum [] sj (unbroken s) = Inr (ds, sj', r)"
      and tail: "b64_decode sj' r = Inr bs'" and bs: "bs = quantum_bytes ds @ bs'"
    proof (cases "unbroken s = []")
      case True
      with less.prems show ?thesis by (intro that [of "[]" sj "[]" "[]"]) (auto simp: b64_decode.simps)
    next
      case False
      with less.prems show ?thesis
        by (subst (asm) b64_decode.simps) (auto split: sum.splits intro: that)
    qed
    from decodeQuantum_unbroken [OF quantum] obtain si' r'
      where here: "decodeQuantum [] si s = Inr (ds, si', r')" and "unbroken r' = r"
      by blast
    moreover from decodeQuantum_length [OF here] False have "length r' < length s" by simp
    ultimately have "b64_decode si' r' = Inr bs'" using less.hyps tail by blast
    with here show ?thesis by (simp add: b64_decode_step bs)
  qed
qed

theorem DecodeString_broken_encode:
  assumes "unbroken s = b64_encode bs"
  shows "DecodeString s = Inr bs"
  using assms b64_decode_unbroken [of 0 s bs] by (simp add: DecodeString_def b64_decode_encode)

text \<open>The characters of an encoding are the alphabet's and the padding.\<close>

lemma set_b64_encode: "set (b64_encode bs) \<subseteq> insert (CHR ''='') (set alphabet)"
proof -
  have char: "n < 64 \<Longrightarrow> b64_char n \<in> set alphabet" for n
    by (simp add: b64_char_def length_alphabet)
  show ?thesis
  proof (induction bs rule: b64_encode.induct)
    case (2 a)
    show ?case
      using digit_bounds [OF of_char_bound [of a] of_char_bound [of a] of_char_bound [of a]]
      by (auto simp: Let_def char)
  next
    case (3 a b)
    show ?case
      using digit_bounds [OF of_char_bound [of a] of_char_bound [of b] of_char_bound [of a]]
      by (auto simp: Let_def char)
  next
    case (4 a b c s)
    then show ?case
      using digit_bounds [OF of_char_bound [of a] of_char_bound [of b] of_char_bound [of c]]
      by (auto simp: Let_def char)
  qed simp
qed

lemma b64_encode_not_Nil [simp]: "b64_encode bs = [] \<longleftrightarrow> bs = []"
  by (cases bs rule: b64_encode.cases) (auto simp: Let_def)

end
