(* ===== verification/Pem.thy ===== *)
theory Pem
  imports Base64
begin

text \<open>
  \<^verbatim>\<open>encoding/pem\<close> of the Go library, as pkg/cainjector uses it: \<^verbatim>\<open>Encode\<close> of a block without headers,
  and the whole of \<^verbatim>\<open>Decode\<close>, which looks for the first block of its input and returns it with what
  follows. The theorems: decoding what was encoded gives the block and the rest, and a block that is
  found always leaves a shorter rest.
\<close>

section \<open>Searching\<close>

text \<open>\<^verbatim>\<open>bytes.Index\<close>, \<^verbatim>\<open>LastIndex\<close> and \<^verbatim>\<open>Cut\<close>.\<close>

fun Index :: "string \<Rightarrow> string \<Rightarrow> nat option" where
  "Index [] p = (if p = [] then Some 0 else None)"
| "Index (c # cs) p = (if prefix p (c # cs) then Some 0 else map_option Suc (Index cs p))"

fun LastIndex :: "string \<Rightarrow> string \<Rightarrow> nat option" where
  "LastIndex [] p = (if p = [] then Some 0 else None)"
| "LastIndex (c # cs) p =
     (case LastIndex cs p of
        Some i \<Rightarrow> Some (Suc i)
      | None \<Rightarrow> if prefix p (c # cs) then Some 0 else None)"

definition Cut :: "string \<Rightarrow> char \<Rightarrow> (string \<times> string) option" where
  "Cut s c = (if c \<in> set s then Some (takeWhile (\<lambda>d. d \<noteq> c) s, tl (dropWhile (\<lambda>d. d \<noteq> c) s)) else None)"

lemma Index_bound: "Index s p = Some i \<Longrightarrow> i + length p \<le> length s"
  by (induction s p arbitrary: i rule: Index.induct) (auto split: if_splits dest: prefix_length_le)

lemma LastIndex_bound: "LastIndex s p = Some i \<Longrightarrow> i + length p \<le> length s"
  by (induction s p arbitrary: i rule: LastIndex.induct)
     (auto split: if_splits option.splits dest: prefix_length_le)

section \<open>Lines\<close>

definition blank :: "char \<Rightarrow> bool" where
  "blank c = (c = CHR '' '' \<or> c = CHR 9)"

text \<open>\<^verbatim>\<open>bytes.TrimRight(s, " \t")\<close>.\<close>

definition TrimRight :: "string \<Rightarrow> string" where
  "TrimRight s = rev (dropWhile blank (rev s))"

definition strip_cr :: "string \<Rightarrow> string" where
  "strip_cr s = (if s \<noteq> [] \<and> last s = CHR 13 then butlast s else s)"

text \<open>The line, the rest of the input and the number of bytes consumed.\<close>

definition getLine :: "string \<Rightarrow> string \<times> string \<times> nat" where
  "getLine s =
     (case Index s [CHR 10] of
        None \<Rightarrow> (TrimRight s, [], length s)
      | Some i \<Rightarrow> (TrimRight (strip_cr (take i s)), drop (Suc i) s, Suc i))"

lemma getLine_rest: "getLine s = (l, r, n) \<Longrightarrow> r = drop n s"
  by (auto simp: getLine_def split: option.splits)

section \<open>Blocks\<close>

record Block =
  Block_Type :: string
  Headers :: "(string \<times> string) list"
  Bytes :: string

definition pemStart :: string where
  "pemStart = ''-----BEGIN ''"

definition pemEnd :: string where
  "pemEnd = CHR 10 # ''-----END ''"

definition pemEndOfLine :: string where
  "pemEndOfLine = ''-----''"

section \<open>Encode\<close>

text \<open>The line breaker: lines of 64 bytes, each followed by a newline.\<close>

function line_break :: "string \<Rightarrow> string" where
  "line_break s = (if s = [] then [] else take 64 s @ [CHR 10] @ line_break (drop 64 s))"
  by pat_completeness auto
termination
  by (relation "measure length") auto

declare line_break.simps [simp del]

definition pem_Encode :: "string \<Rightarrow> string \<Rightarrow> string" where
  "pem_Encode ty bs =
     pemStart @ ty @ pemEndOfLine @ [CHR 10] @ line_break (b64_encode bs) @
     ''-----END '' @ ty @ pemEndOfLine @ [CHR 10]"

section \<open>Decode\<close>

text \<open>
  One round of the search: no block and the search is over, a block with the rest of the input, or
  another round on what follows an END line that did not close a block.
\<close>

datatype round = NoBlock | Found Block string | Again string

definition again :: "string \<Rightarrow> int \<Rightarrow> round" where
  "again rest endTrailerIndex =
     (if endTrailerIndex < 0 \<or> int (length rest) < endTrailerIndex then NoBlock
      else Again (drop (nat endTrailerIndex) rest))"

text \<open>The header lines: None when the input ends, else the headers, the rest and the bytes consumed.\<close>

function read_headers :: "(string \<times> string) list \<Rightarrow> nat \<Rightarrow> string \<Rightarrow> ((string \<times> string) list \<times> nat \<times> string) option" where
  "read_headers hs n rest =
     (if rest = [] then None
      else case getLine rest of (line, next, consumed) \<Rightarrow>
        (case Cut line CHR '':'' of
           None \<Rightarrow> Some (hs, n, rest)
         | Some (key, val) \<Rightarrow> read_headers ((TrimSpace key, TrimSpace val) # hs) (n + consumed) next))"
  by pat_completeness auto
termination
  by (relation "measure (\<lambda>(hs, n, rest). length rest)")
     (auto simp: getLine_def split: option.splits)

declare read_headers.simps [simp del]

definition removeSpacesAndTabs :: "string \<Rightarrow> string" where
  "removeSpacesAndTabs s = filter (\<lambda>c. \<not> blank c) s"

text \<open>The end of a block: its trailer, the base64 text before it and the rest of the input.\<close>

definition close_block ::
  "string \<Rightarrow> (string \<times> string) list \<Rightarrow> string \<Rightarrow> int \<Rightarrow> int \<Rightarrow> round" where
  "close_block ty hs rest endIndex endTrailerIndex =
     (let endTrailer = drop (nat endTrailerIndex) rest;
          endTrailerLen = length ty + length pemEndOfLine;
          restOfEndLine = drop endTrailerLen endTrailer;
          finish = (\<lambda>bs. Found \<lparr>Block_Type = ty, Headers = hs, Bytes = bs\<rparr>
                           (fst (snd (getLine (drop (nat (endIndex + int (length pemEnd) - 1)) rest)))))
      in if hs \<noteq> [] \<and> endIndex < 0 then again rest endTrailerIndex
         else if length endTrailer < endTrailerLen then again rest endTrailerIndex
         else if \<not> HasPrefix (take endTrailerLen endTrailer) ty \<or>
                 \<not> suffix pemEndOfLine (take endTrailerLen endTrailer) then again rest endTrailerIndex
         else if fst (getLine restOfEndLine) \<noteq> [] then again rest endTrailerIndex
         else if 0 < endIndex then
           (case DecodeString (removeSpacesAndTabs (take (nat endIndex) rest)) of
              Inl err \<Rightarrow> again rest endTrailerIndex
            | Inr bs \<Rightarrow> finish bs)
         else finish [])"

definition decode_round :: "string \<Rightarrow> round" where
  "decode_round rest =
     (case Index rest pemEnd of
        None \<Rightarrow> NoBlock
      | Some endIndex \<Rightarrow>
          let endTrailerIndex = int (endIndex + length pemEnd)
          in case LastIndex (take endIndex rest) pemStart of
               None \<Rightarrow> again rest endTrailerIndex
             | Some beginIndex \<Rightarrow>
                 if 0 < beginIndex \<and> rest ! (beginIndex - 1) \<noteq> CHR 10 then again rest endTrailerIndex
                 else
                   let skip = beginIndex + length pemStart;
                       endTrailerIndex = endTrailerIndex - int skip
                   in case getLine (drop skip rest) of (typeLine, rest, consumed) \<Rightarrow>
                        if \<not> suffix pemEndOfLine typeLine then again rest endTrailerIndex
                        else case read_headers [] 0 rest of
                               None \<Rightarrow> NoBlock
                             | Some (hs, n, rest) \<Rightarrow>
                                 close_block (take (length typeLine - length pemEndOfLine) typeLine) hs rest
                                   (int endIndex - int (skip + consumed + n))
                                   (endTrailerIndex - int (consumed + n)))"

lemma suffix_append_self [simp]: "suffix ys (xs @ ys)"
  by (simp add: suffix_def)

lemma again_length: "again rest i = Again r \<Longrightarrow> length r \<le> length rest \<and> (0 < i \<longrightarrow> length r < length rest)"
  by (auto simp: again_def split: if_splits)

lemma again_not_Found [simp]: "again rest i \<noteq> Found b r"
  by (simp add: again_def)

lemma read_headers_length: "read_headers hs n s = Some (hs', n', s') \<Longrightarrow> length s' \<le> length s"
proof (induction hs n s rule: read_headers.induct)
  case (1 hs n s)
  obtain l r k where line: "getLine s = (l, r, k)" by (cases "getLine s")
  from 1(2) show ?case
    using 1(1) [OF _ line [symmetric] refl] getLine_rest [OF line] line
    by (fastforce simp: read_headers.simps [of hs n s] split: if_splits option.splits)
qed

lemma getLine_length: "getLine s = (l, r, n) \<Longrightarrow> length r \<le> length s"
  by (auto dest: getLine_rest)

lemma getLine_snd_length: "length (fst (snd (getLine s))) \<le> length s"
  by (metis getLine_length prod.collapse)

lemma close_block_length:
  "close_block ty hs rest i j = Again r \<Longrightarrow> length r \<le> length rest"
  "close_block ty hs rest i j = Found b r \<Longrightarrow> length r \<le> length rest"
  using getLine_snd_length [of "drop (nat (i + int (length pemEnd) - 1)) rest"]
  by (auto simp: close_block_def Let_def split: if_splits sum.splits dest: again_length)

text \<open>Every round that goes on, and every block found, leaves a strictly shorter input.\<close>

lemma decode_round_length:
  "decode_round s = Again r \<or> decode_round s = Found b r \<Longrightarrow> length r < length s"
proof -
  assume result: "decode_round s = Again r \<or> decode_round s = Found b r"
  then obtain i where i: "Index s pemEnd = Some i" by (auto simp: decode_round_def split: option.splits)
  note bound = Index_bound [OF i]
  show ?thesis
  proof (cases "\<exists>t. again s (int (i + length pemEnd)) = t \<and> decode_round s = t")
    case True
    with result bound show ?thesis by (auto dest!: again_length simp: pemEnd_def)
  next
    case False
    with i obtain b0 where b0: "LastIndex (take i s) pemStart = Some b0"
      and start: "\<not> (0 < b0 \<and> s ! (b0 - 1) \<noteq> CHR 10)"
      by (auto simp: decode_round_def Let_def split: option.splits if_splits)
    obtain l r0 n where line: "getLine (drop (b0 + length pemStart) s) = (l, r0, n)"
      by (cases "getLine (drop (b0 + length pemStart) s)")
    have "length r0 < length s"
      using getLine_length [OF line] bound LastIndex_bound [OF b0] by (simp add: pemStart_def pemEnd_def)
    with result i b0 start line show ?thesis
      by (auto simp: decode_round_def Let_def split: if_splits option.splits
          dest!: again_length close_block_length dest: read_headers_length)
  qed
qed

function decode_from :: "string \<Rightarrow> string \<Rightarrow> Block option \<times> string" where
  "decode_from data rest =
     (case decode_round rest of
        NoBlock \<Rightarrow> (None, data)
      | Found b r \<Rightarrow> (Some b, r)
      | Again r \<Rightarrow> decode_from data r)"
  by pat_completeness auto
termination
  by (relation "measure (\<lambda>(data, rest). length rest)") (simp_all add: decode_round_length)

declare decode_from.simps [simp del]

definition pem_Decode :: "string \<Rightarrow> Block option \<times> string" where
  "pem_Decode data = decode_from data data"

lemma decode_from_shorter: "decode_from data s = (Some b, r) \<Longrightarrow> length r < length s"
proof (induction data s rule: decode_from.induct)
  case (1 data s)
  from 1(2) show ?case
    using 1(1) decode_round_length [of s r b] decode_round_length [of s]
    by (fastforce simp: decode_from.simps [of data s] split: round.splits)
qed

lemma pem_Decode_shorter: "pem_Decode s = (Some b, r) \<Longrightarrow> length r < length s"
  by (auto simp: pem_Decode_def dest: decode_from_shorter)

section \<open>Decoding what was encoded\<close>

lemma line_break_Nil [simp]: "line_break [] = []"
  by (simp add: line_break.simps)

lemma line_break_unbroken: "unbroken (line_break s) = unbroken s"
proof (induction s rule: line_break.induct)
  case (1 s)
  have "unbroken s = unbroken (take 64 s) @ unbroken (drop 64 s)"
    by (metis append_take_drop_id filter_append)
  with 1 show ?case by (cases "s = []") (simp_all add: line_break.simps [of s] newline_def)
qed

lemma set_line_break: "set (line_break s) \<subseteq> insert (CHR 10) (set s)"
proof (induction s rule: line_break.induct)
  case (1 s)
  then show ?case
    by (cases "s = []") (auto simp: line_break.simps [of s] dest: in_set_takeD in_set_dropD)
qed

lemma line_break_ends: "s \<noteq> [] \<Longrightarrow> \<exists>t. line_break s = t @ [CHR 10] \<and> t \<noteq> []"
proof (induction s rule: line_break.induct)
  case (1 s)
  then show ?case
    by (cases "drop 64 s = []") (auto simp: line_break.simps [of s])
qed

text \<open>The first line of a text.\<close>

lemma Index_newline: "CHR 10 \<notin> set xs \<Longrightarrow> Index (xs @ CHR 10 # ys) [CHR 10] = Some (length xs)"
  by (induction xs) auto

lemma getLine_append:
  "CHR 10 \<notin> set xs \<Longrightarrow>
   getLine (xs @ CHR 10 # ys) = (TrimRight (strip_cr xs), ys, Suc (length xs))"
  by (simp add: getLine_def Index_newline)

lemma set_TrimRight: "set (TrimRight s) \<subseteq> set s"
  by (auto simp: TrimRight_def dest: set_dropWhileD)

lemma set_strip_cr: "set (strip_cr s) \<subseteq> set s"
  by (auto simp: strip_cr_def dest: in_set_butlastD)

lemma TrimRight_end: "s \<noteq> [] \<Longrightarrow> \<not> blank (last s) \<Longrightarrow> TrimRight s = s"
  by (cases s rule: rev_cases) (auto simp: TrimRight_def)

lemma first_line_set:
  assumes "getLine (xs @ CHR 10 # ys) = (l, r, n)"
  shows "set l \<subseteq> set xs"
proof (cases "CHR 10 \<in> set xs")
  case True
  then obtain us vs where "xs = us @ CHR 10 # vs" "CHR 10 \<notin> set us" by (metis split_list_first)
  with assms set_TrimRight [of "strip_cr us"] set_strip_cr [of us] show ?thesis
    by (auto simp: getLine_append)
next
  case False
  with assms set_TrimRight [of "strip_cr xs"] set_strip_cr [of xs] show ?thesis
    by (auto simp: getLine_append)
qed

text \<open>The first END line, when no earlier line starts with a dash.\<close>

fun dash_line :: "string \<Rightarrow> bool" where
  "dash_line (a # b # s) = (a = CHR 10 \<and> b = CHR ''-'' \<or> dash_line (b # s))"
| "dash_line _ = False"

lemma dash_line_append:
  "CHR 10 \<notin> set xs \<Longrightarrow> CHR ''-'' \<notin> set ys \<Longrightarrow> \<not> dash_line (xs @ ys)"
proof (induction xs)
  case Nil
  then show ?case by (induction ys rule: dash_line.induct) auto
next
  case (Cons x xs)
  then show ?case by (cases "xs @ ys") auto
qed

lemma Index_pemEnd: "\<not> dash_line xs \<Longrightarrow> Index (xs @ pemEnd @ ys) pemEnd = Some (length xs)"
proof (induction xs)
  case Nil
  then show ?case by (simp add: pemEnd_def)
next
  case (Cons x xs)
  have "\<not> prefix pemEnd (x # xs @ pemEnd @ ys)" and "\<not> dash_line xs"
    using Cons.prems by (cases xs; auto simp: pemEnd_def)+
  with Cons.IH show ?case by simp
qed

text \<open>The last BEGIN, when what follows its own blank has no blank.\<close>

lemma LastIndex_absent: "p \<noteq> [] \<Longrightarrow> last p \<notin> set s \<Longrightarrow> LastIndex s p = None"
  by (induction s) (auto dest!: set_mono_prefix dest: last_in_set)

lemma LastIndex_pemStart: "CHR '' '' \<notin> set s \<Longrightarrow> LastIndex (pemStart @ s) pemStart = Some 0"
  by (simp add: pemStart_def LastIndex_absent)

text \<open>A block type without dashes, blanks, colons or newlines: CERTIFICATE is one.\<close>

definition plain_type :: "string \<Rightarrow> bool" where
  "plain_type ty = (list_all (\<lambda>c. c \<notin> {CHR 10, CHR ''-'', CHR '' '', CHR '':''}) ty)"

lemma alphabet_plain: "set (b64_encode bs) \<inter> {CHR 10, CHR 13, CHR ''-'', CHR '' '', CHR 9, CHR '':''} = {}"
  using set_b64_encode [of bs] by (auto simp: alphabet_def)

lemma unbroken_b64_encode: "unbroken (b64_encode bs) = b64_encode bs"
  using alphabet_plain [of bs] by (auto simp: filter_id_conv newline_def)

lemma body_plain:
  "set (line_break (b64_encode bs)) \<inter> {CHR ''-'', CHR '' '', CHR 9, CHR '':''} = {}"
  using set_line_break [of "b64_encode bs"] alphabet_plain [of bs] by auto

text \<open>
  The base64 text of an encoded block, with the newline before it: the text, and the newline that
  starts the END line.
\<close>

lemma body_shift:
  obtains t where "CHR 10 # line_break (b64_encode bs) = t @ [CHR 10]"
    and "t = take (length (line_break (b64_encode bs))) (CHR 10 # line_break (b64_encode bs))"
proof (cases "b64_encode bs = []")
  case True
  then show ?thesis by (intro that [of "[]"]) simp_all
next
  case False
  from line_break_ends [OF this] obtain t where "line_break (b64_encode bs) = t @ [CHR 10]" by blast
  then show ?thesis by (intro that [of "CHR 10 # t"]) simp_all
qed

lemma read_headers_encoded:
  assumes "plain_type ty"
  shows "read_headers [] 0 (line_break (b64_encode bs) @ ''-----END '' @ ty @ pemEndOfLine @ CHR 10 # tail) =
    Some ([], 0, line_break (b64_encode bs) @ ''-----END '' @ ty @ pemEndOfLine @ CHR 10 # tail)"
    (is "read_headers [] 0 ?s = _")
proof -
  let ?xs = "line_break (b64_encode bs) @ ''-----END '' @ ty @ pemEndOfLine"
  obtain l r n where line: "getLine ?s = (l, r, n)" by (cases "getLine ?s")
  then have "getLine (?xs @ CHR 10 # tail) = (l, r, n)" by simp
  then have "set l \<subseteq> set ?xs" by (rule first_line_set)
  moreover have "CHR '':'' \<notin> set ?xs"
    using assms body_plain [of bs] by (auto simp: plain_type_def list_all_iff pemEndOfLine_def)
  ultimately have "Cut l CHR '':'' = None" by (auto simp: Cut_def)
  with line show ?thesis by (subst read_headers.simps) simp
qed

lemma decode_body:
  assumes "line_break (b64_encode bs) = t @ [CHR 10]"
  shows "DecodeString (removeSpacesAndTabs t) = Inr bs"
proof (rule DecodeString_broken_encode)
  have "removeSpacesAndTabs t = t"
    using body_plain [of bs] assms by (auto simp: removeSpacesAndTabs_def filter_id_conv blank_def)
  moreover have "unbroken (t @ [CHR 10]) = b64_encode bs"
    by (simp add: assms [symmetric] line_break_unbroken unbroken_b64_encode)
  ultimately show "unbroken (removeSpacesAndTabs t) = b64_encode bs" by (simp add: newline_def)
qed

lemma getLine_Nil_line: "getLine (CHR 10 # tail) = ([], tail, 1)"
  using getLine_append [of "[]" tail] by (simp add: TrimRight_def strip_cr_def)

lemma type_line:
  assumes "plain_type ty"
  shows "getLine (ty @ pemEndOfLine @ CHR 10 # tail) = (ty @ pemEndOfLine, tail, length ty + 6)"
    and "fst (snd (getLine (CHR '' '' # ty @ pemEndOfLine @ CHR 10 # tail))) = tail"
proof -
  have nl: "CHR 10 \<notin> set (ty @ pemEndOfLine)"
    using assms by (auto simp: plain_type_def list_all_iff pemEndOfLine_def)
  have "strip_cr (ty @ pemEndOfLine) = ty @ pemEndOfLine" "TrimRight (ty @ pemEndOfLine) = ty @ pemEndOfLine"
    by (simp_all add: strip_cr_def TrimRight_end pemEndOfLine_def blank_def)
  with getLine_append [OF nl, of tail]
  show "getLine (ty @ pemEndOfLine @ CHR 10 # tail) = (ty @ pemEndOfLine, tail, length ty + 6)"
    by (simp add: pemEndOfLine_def)
  from nl have "CHR 10 \<notin> set (CHR '' '' # ty @ pemEndOfLine)" by simp
  from getLine_append [OF this, of tail]
  show "fst (snd (getLine (CHR '' '' # ty @ pemEndOfLine @ CHR 10 # tail))) = tail" by simp
qed

lemma close_block_encoded:
  assumes "plain_type ty" and "body = line_break (b64_encode bs)"
  shows "close_block ty [] (body @ ''-----END '' @ ty @ pemEndOfLine @ CHR 10 # tail)
      (int (length body) - 1) (int (length body) + 9) =
    Found \<lparr>Block_Type = ty, Headers = [], Bytes = bs\<rparr> tail"
proof -
  let ?s = "body @ ''-----END '' @ ty @ pemEndOfLine @ CHR 10 # tail"
  have trailer: "drop (nat (int (length body) + 9)) ?s = (ty @ pemEndOfLine) @ CHR 10 # tail"
    by (simp add: nat_add_distrib)
  have rest: "drop (nat (int (length body) - 1 + int (length pemEnd) - 1)) ?s = CHR '' '' # ty @ pemEndOfLine @ CHR 10 # tail"
    by (simp add: pemEnd_def nat_add_distrib)
  have bytes: "(if 0 < int (length body) - 1
      then DecodeString (removeSpacesAndTabs (take (nat (int (length body) - 1)) ?s)) else Inr []) = Inr bs"
  proof (cases "bs = []")
    case True
    with assms(2) show ?thesis by simp
  next
    case False
    with line_break_ends [of "b64_encode bs"] assms(2) obtain t
      where t: "body = t @ [CHR 10]" "t \<noteq> []" by auto
    with assms(2) have "DecodeString (removeSpacesAndTabs t) = Inr bs" by (intro decode_body) simp
    with t show ?thesis unfolding t(1) by simp
  qed
  show ?thesis
    unfolding close_block_def Let_def trailer rest
    using bytes type_line(2) [OF assms(1), of tail] getLine_Nil_line [of tail]
    by (auto simp: HasPrefix_def split: if_splits sum.splits)
qed

theorem decode_round_encoded:
  assumes "plain_type ty"
  shows "decode_round (pem_Encode ty bs @ tail) = Found \<lparr>Block_Type = ty, Headers = [], Bytes = bs\<rparr> tail"
proof -
  let ?body = "line_break (b64_encode bs)"
  let ?trailer = "ty @ pemEndOfLine @ CHR 10 # tail"
  let ?rest = "?body @ ''-----END '' @ ?trailer"
  obtain t where t: "CHR 10 # ?body = t @ [CHR 10]" by (rule body_shift)
  then have len: "length t = length ?body" by (metis length_Cons length_append_singleton nat.inject)
  define pre where "pre = pemStart @ ty @ pemEndOfLine @ t"
  have shape: "pem_Encode ty bs @ tail = pre @ pemEnd @ ?trailer"
    using t by (simp add: pem_Encode_def pre_def pemEnd_def)
  have lines: "pem_Encode ty bs @ tail = pemStart @ ty @ pemEndOfLine @ CHR 10 # ?rest"
    by (simp add: pem_Encode_def)
  have sub: "set t \<subseteq> insert (CHR 10) (set ?body)"
    by (metis t list.set(2) set_append Un_upper1)
  have "\<not> dash_line ((pemStart @ ty @ pemEndOfLine) @ t)"
    using assms sub body_plain [of bs]
    by (intro dash_line_append) (auto simp: plain_type_def list_all_iff pemStart_def pemEndOfLine_def)
  then have index: "Index (pem_Encode ty bs @ tail) pemEnd = Some (length pre)"
    using Index_pemEnd [of pre ?trailer] unfolding shape by (simp add: pre_def)
  have "CHR '' '' \<notin> set (ty @ pemEndOfLine @ t)"
    using assms sub body_plain [of bs] by (auto simp: plain_type_def list_all_iff pemEndOfLine_def)
  then have last: "LastIndex (take (length pre) (pem_Encode ty bs @ tail)) pemStart = Some 0"
    unfolding shape by (simp add: LastIndex_pemStart) (simp add: pre_def LastIndex_pemStart)
  have type: "getLine (drop (0 + length pemStart) (pem_Encode ty bs @ tail)) =
      (ty @ pemEndOfLine, ?rest, length ty + 6)"
    unfolding lines using type_line(1) [OF assms, of ?rest] by simp
  have endIndex: "int (length pre) - int (0 + length pemStart + (length ty + 6) + 0) = int (length ?body) - 1"
    by (simp add: pre_def len pemStart_def pemEndOfLine_def)
  have endTrailerIndex: "int (length pre + length pemEnd) - int (0 + length pemStart) - int (length ty + 6 + 0) =
      int (length ?body) + 9"
    by (simp add: pre_def len pemStart_def pemEnd_def pemEndOfLine_def)
  show ?thesis
    unfolding decode_round_def index last Let_def option.case type prod.case
      read_headers_encoded [OF assms] endIndex endTrailerIndex
    using close_block_encoded [OF assms refl, of bs tail] by simp
qed

lemma pem_Decode_encoded:
  "plain_type ty \<Longrightarrow>
   pem_Decode (pem_Encode ty bs @ tail) = (Some \<lparr>Block_Type = ty, Headers = [], Bytes = bs\<rparr>, tail)"
  by (simp add: pem_Decode_def decode_from.simps decode_round_encoded)

lemma plain_CERTIFICATE: "plain_type ''CERTIFICATE''"
  by (simp add: plain_type_def)

end
