(* ===== verification/Injector.thy ===== *)
theory Injector
  imports Pem Refresh_Loop
begin

text \<open>
  The CA bundle injector (pkg/cainjector/injector.go): it merges the certificates of a file into the
  \<^verbatim>\<open>caBundle\<close> field of the cluster's \<^verbatim>\<open>Provider\<close> object, dropping duplicates and expired certificates,
  at start and then on every tick of a background loop. The X.509 parser, the Kubernetes client and
  the converter between typed and unstructured objects are records of functions; base64 and PEM are
  those of \<open>Base64\<close> and \<open>Pem\<close>.
\<close>

section \<open>Certificates\<close>

record Certificate =
  Raw :: string
  NotAfter :: instant
  CommonName :: string

text \<open>\<^verbatim>\<open>x509.ParseCertificate\<close> and the text of an instant in the log (\<^verbatim>\<open>Format(time.RFC3339)\<close>).\<close>

record X509 =
  ParseCertificate :: "string \<Rightarrow> Certificate result"
  FormatRFC3339 :: "instant \<Rightarrow> string"

text \<open>The loop of \<^verbatim>\<open>parseCertificates\<close>; it ends because every block found leaves a shorter rest.\<close>

function parse_loop :: "X509 \<Rightarrow> string \<Rightarrow> Certificate list \<Rightarrow> Certificate list result" where
  "parse_loop X bundle certs =
     (if bundle = [] then Inr certs
      else case pem_Decode bundle of
        (None, _) \<Rightarrow> Inr certs
      | (Some block, rest) \<Rightarrow>
          (case ParseCertificate X (Bytes block) of
             Inl err \<Rightarrow> Inl (WrapError ''failed to parse certificate: '' err)
           | Inr cert \<Rightarrow> parse_loop X rest (certs @ [cert])))"
  by pat_completeness auto
termination
  by (relation "measure (\<lambda>(X, bundle, certs). length bundle)") (auto dest: pem_Decode_shorter [OF sym])

declare parse_loop.simps [simp del]

definition parseCertificates :: "X509 \<Rightarrow> string \<Rightarrow> Certificate list result" where
  "parseCertificates X bundle = parse_loop X bundle []"

section \<open>Merging\<close>

text \<open>
  The loop over the certificates: the keys seen so far and the buffer written so far. Writing PEM to
  a \<^verbatim>\<open>bytes.Buffer\<close> without headers cannot fail.
\<close>

fun merge_loop ::
  "X509 \<Rightarrow> instant \<Rightarrow> Certificate list \<Rightarrow> (string \<rightharpoonup> bool) \<Rightarrow> string \<Rightarrow> 'x world \<Rightarrow> string \<times> 'x world" where
  "merge_loop X now [] uniqueCerts buffer w = (buffer, w)"
| "merge_loop X now (cert # certs) uniqueCerts buffer w =
     (if NotAfter cert < now then
        merge_loop X now certs uniqueCerts buffer
          (slog LevelInfo ''Ignoring expired certificate''
            [(''CN'', LStr (CommonName cert)), (''NotAfter'', LStr (FormatRFC3339 X (NotAfter cert)))] w)
      else if uniqueCerts (Raw cert) = None then
        merge_loop X now certs (uniqueCerts(Raw cert \<mapsto> True))
          (buffer @ pem_Encode ''CERTIFICATE'' (Raw cert)) w
      else merge_loop X now certs uniqueCerts buffer w)"

definition mergeAndEncode :: "X509 \<Rightarrow> string \<Rightarrow> string \<Rightarrow> 'x world \<Rightarrow> string result \<times> 'x world" where
  "mergeAndEncode X encodedBundle additional w =
     (case DecodeString encodedBundle of
        Inl err \<Rightarrow> (Inl (WrapError ''failed to decode existing CA bundle: '' err), w)
      | Inr bundle0 \<Rightarrow>
     (case parseCertificates X bundle0 of
        Inl err \<Rightarrow> (Inl (WrapError ''failed to parse first certificate bundle: '' err), w)
      | Inr certs0 \<Rightarrow>
     (case parseCertificates X additional of
        Inl err \<Rightarrow> (Inl (WrapError ''failed to parse second certificate bundle: '' err), w)
      | Inr certs1 \<Rightarrow>
     (case merge_loop X (clock w) (certs0 @ certs1) Map.empty [] w of
        (buffer, w) \<Rightarrow>
          if buffer = [] then
            (Inl (ErrorString ''resulting CA bundle is empty after removing expired certificates''), w)
          else (Inr (b64_encode buffer), w)))))"

section \<open>The Provider object\<close>

record GroupVersionResource =
  Group :: string
  Version :: string
  Resource :: string

definition providers_resource :: GroupVersionResource where
  "providers_resource =
     \<lparr>Group = ''externaldata.gatekeeper.sh'', Version = ''v1beta1'', Resource = ''providers''\<rparr>"

text \<open>The typed object: the field the injector writes, and the rest of it.\<close>

record 'p ProviderObject =
  Spec_CABundle :: string
  other_fields :: 'p

record ('x, 'u, 'p) ClusterApi =
  k8s_Get :: "GroupVersionResource \<Rightarrow> Context \<Rightarrow> string \<Rightarrow> ('x, 'u result) outside"
  k8s_Update :: "GroupVersionResource \<Rightarrow> Context \<Rightarrow> 'u \<Rightarrow> ('x, 'u result) outside"
  FromUnstructured :: "'u \<Rightarrow> 'p ProviderObject result"
  ToUnstructured :: "'p ProviderObject \<Rightarrow> 'u result"
  os_ReadFile :: "string \<Rightarrow> ('x, string result) outside"

definition getProvider ::
  "('x, 'u, 'p) ClusterApi \<Rightarrow> Context \<Rightarrow> 'x world \<Rightarrow> 'p ProviderObject result \<times> 'x world" where
  "getProvider C ctx w =
     (case call (k8s_Get C providers_resource ctx ''artifact-attestations-opa-provider'') w of
        (Inl err, w) \<Rightarrow> (Inl (WrapError ''failed to get Provider object: '' err), w)
      | (Inr rawProvider, w) \<Rightarrow>
     (case FromUnstructured C rawProvider of
        Inl err \<Rightarrow> (Inl (WrapError ''failed to convert Provider object: '' err), w)
      | Inr provider \<Rightarrow> (Inr provider, w)))"

definition updateProvider ::
  "('x, 'u, 'p) ClusterApi \<Rightarrow> Context \<Rightarrow> 'p ProviderObject \<Rightarrow> string \<Rightarrow> 'x world \<Rightarrow> go_error option \<times> 'x world" where
  "updateProvider C ctx provider bundle w =
     (case ToUnstructured C (provider\<lparr>Spec_CABundle := bundle\<rparr>) of
        Inl err \<Rightarrow> (Some (WrapError ''failed to convert updated Provider object: '' err), w)
      | Inr updatedUnstructured \<Rightarrow>
     (case call (k8s_Update C providers_resource ctx updatedUnstructured) w of
        (Inl err, w) \<Rightarrow> (Some (WrapError ''failed to update Provider object: '' err), w)
      | (Inr _, w) \<Rightarrow> (None, w)))"

section \<open>One update\<close>

definition caBundleUpdateTimeout :: duration where
  "caBundleUpdateTimeout = 30 * Second"

definition propagationDelay :: duration where
  "propagationDelay = 10 * Second"

text \<open>After a write: the wait for Gatekeeper, which the context may end.\<close>

definition await_propagation :: "scheduler \<Rightarrow> Context \<Rightarrow> 'x world \<Rightarrow> go_error option \<times> 'x world" where
  "await_propagation sched ctx w =
     (case wait_delay sched ctx propagationDelay
         (slog LevelInfo ''Sleeping to allow Gatekeeper to pick up the changes''
            [(''sleep_time'', LDur propagationDelay)]
           (slog LevelInfo ''Successfully updated CA bundle in Provider object.'' [] w)) of
        (Some e, w) \<Rightarrow>
          (Some (WrapError ''waiting for Gatekeeper to pick up CA bundle changes: '' (CtxError e)), w)
      | (None, w) \<Rightarrow> (None, slog LevelInfo ''Update CA bundle done'' [] w))"

text \<open>The new bundle is written when it differs from the one in the object.\<close>

definition publish_bundle ::
  "('x, 'u, 'p) ClusterApi \<Rightarrow> scheduler \<Rightarrow> Context \<Rightarrow> 'p ProviderObject \<Rightarrow> string \<Rightarrow> 'x world \<Rightarrow>
   go_error option \<times> 'x world" where
  "publish_bundle C sched ctx provider newBundle w =
     (if Spec_CABundle provider = newBundle then
        (None, slog LevelInfo ''CA bundle is already up to date, no changes made.'' [] w)
      else (case updateProvider C ctx provider newBundle w of
              (Some err, w) \<Rightarrow> (Some (WrapError ''failed to update Provider object: '' err), w)
            | (None, w) \<Rightarrow> await_propagation sched ctx w))"

definition UpdateCABundle ::
  "X509 \<Rightarrow> ('x, 'u, 'p) ClusterApi \<Rightarrow> scheduler \<Rightarrow> Context \<Rightarrow> string \<Rightarrow> 'x world \<Rightarrow> go_error option \<times> 'x world" where
  "UpdateCABundle X C sched ctx bundlePath w =
     (case getProvider C ctx w of
        (Inl err, w) \<Rightarrow> (Some (WrapError ''failed to get Provider object: '' err), w)
      | (Inr provider, w) \<Rightarrow>
     (case call (os_ReadFile C bundlePath) w of
        (Inl err, w) \<Rightarrow> (Some (WrapError ''failed to read CA bundle: '' err), w)
      | (Inr caBundle, w) \<Rightarrow>
     (case mergeAndEncode X (Spec_CABundle provider) caBundle w of
        (Inl err, w) \<Rightarrow> (Some (WrapError ''failed to append CA certificates to bundle: '' err), w)
      | (Inr newBundle, w) \<Rightarrow> publish_bundle C sched ctx provider newBundle w)))"

section \<open>The background loop\<close>

text \<open>The closure \<^verbatim>\<open>update\<close> of \<^verbatim>\<open>Start\<close>.\<close>

definition update ::
  "X509 \<Rightarrow> ('x, 'u, 'p) ClusterApi \<Rightarrow> scheduler \<Rightarrow> string \<Rightarrow> Context \<Rightarrow> 'x world \<Rightarrow> go_error option \<times> 'x world" where
  "update X C sched bundlePath ctx w =
     UpdateCABundle X C sched (WithTimeout ctx caBundleUpdateTimeout (clock w)) bundlePath w"

definition injector_tick ::
  "(Context \<Rightarrow> 'x world \<Rightarrow> go_error option \<times> 'x world) \<Rightarrow> Context \<Rightarrow> (unit, 'x) ticker" where
  "injector_tick upd ctx u w =
     (case upd ctx w of
        (None, w) \<Rightarrow> (True, (), w)
      | (Some err, w) \<Rightarrow>
          if ctx_Err ctx (clock w) \<noteq> None then (False, (), w)
          else (True, (), slog LevelError ''failed to refresh CA bundle'' [(''error'', LErr (Some err))]
                            (meter (CABundleRefreshFail_update Suc) w)))"

definition refreshLoop ::
  "(Context \<Rightarrow> 'x world \<Rightarrow> go_error option \<times> 'x world) \<Rightarrow> Context \<Rightarrow>
   (unit, 'x) loop_state \<Rightarrow> nat \<Rightarrow> (unit, 'x) loop_state \<Rightarrow> bool" where
  "refreshLoop upd ctx = refresh_run (injector_tick upd ctx) ctx"

text \<open>
  \<^verbatim>\<open>Start\<close>: an error, or the state in which the goroutine starts its loop.
\<close>

definition Start ::
  "X509 \<Rightarrow> ('x, 'u, 'p) ClusterApi \<Rightarrow> scheduler \<Rightarrow> Context \<Rightarrow> string \<Rightarrow> duration \<Rightarrow> 'x world \<Rightarrow>
   (go_error + (unit, 'x) loop_state) \<times> 'x world" where
  "Start X C sched ctx bundlePath refreshInterval w =
     (if refreshInterval \<le> 0
      then (Inl (ErrorString ''CA bundle refresh interval must be greater than zero''), w)
      else case update X C sched bundlePath ctx w of
             (Some err, w) \<Rightarrow> (Inl err, w)
           | (None, w) \<Rightarrow> (Inr (Running () w), w))"

section \<open>The merged bundle\<close>

text \<open>
  The documented behaviour of the parser that the merge relies on: \<^verbatim>\<open>Raw\<close> is the complete DER input.
\<close>

definition raw_is_input :: "X509 \<Rightarrow> bool" where
  "raw_is_input X \<longleftrightarrow> (\<forall>b c. ParseCertificate X b = Inr c \<longrightarrow> Raw c = b)"

text \<open>The certificates that have not expired at an instant, each at its first place.\<close>

definition merged :: "instant \<Rightarrow> Certificate list \<Rightarrow> Certificate list" where
  "merged now certs = rev (remdups (rev (filter (\<lambda>c. now \<le> NotAfter c) certs)))"

lemma set_merged: "set (merged now certs) = {c \<in> set certs. now \<le> NotAfter c}"
  by (auto simp: merged_def)

lemma distinct_merged: "distinct (merged now certs)"
  by (simp add: merged_def)

text \<open>Certificates that parse back from their DER encoding.\<close>

definition parsed :: "X509 \<Rightarrow> Certificate list \<Rightarrow> bool" where
  "parsed X certs = list_all (\<lambda>c. ParseCertificate X (Raw c) = Inr c) certs"

lemma parsed_inj: "parsed X certs \<Longrightarrow> inj_on Raw (set certs)"
  by (rule inj_on_inverseI [where g = "\<lambda>b. projr (ParseCertificate X b)"]) (simp add: parsed_def list_all_iff)

lemma parse_loop_parsed:
  "raw_is_input X \<Longrightarrow> parse_loop X text0 certs = Inr certs' \<Longrightarrow> parsed X certs \<Longrightarrow> parsed X certs'"
proof (induction X text0 certs rule: parse_loop.induct)
  case (1 X text0 certs)
  from 1(3) show ?case
    using 1(1) [OF _ _ refl] 1(2,4)
    by (fastforce simp: parse_loop.simps [of X text0 certs] parsed_def raw_is_input_def
        split: if_splits prod.splits option.splits sum.splits)
qed

lemma parseCertificates_parsed:
  "raw_is_input X \<Longrightarrow> parseCertificates X text0 = Inr certs \<Longrightarrow> parsed X certs"
  using parse_loop_parsed [of X text0 "[]" certs] by (simp add: parseCertificates_def parsed_def)

abbreviation encode_certs :: "Certificate list \<Rightarrow> string" where
  "encode_certs certs \<equiv> concat (map (\<lambda>c. pem_Encode ''CERTIFICATE'' (Raw c)) certs)"

lemma pem_Encode_not_Nil [simp]: "pem_Encode ty bs \<noteq> []"
  by (simp add: pem_Encode_def pemStart_def)

lemma parse_loop_encoded:
  "parsed X certs \<Longrightarrow> parse_loop X (encode_certs certs) acc = Inr (acc @ certs)"
proof (induction certs arbitrary: acc)
  case (Cons c certs)
  then have "ParseCertificate X (Raw c) = Inr c" and "parsed X certs" by (simp_all add: parsed_def)
  with Cons.IH show ?case
    by (simp add: parse_loop.simps [of X "pem_Encode ''CERTIFICATE'' (Raw c) @ encode_certs certs"]
        pem_Decode_encoded plain_CERTIFICATE)
qed (simp add: parse_loop.simps)

text \<open>The merge loop, with the keys seen so far as a set.\<close>

fun unseen :: "string set \<Rightarrow> Certificate list \<Rightarrow> Certificate list" where
  "unseen seen [] = []"
| "unseen seen (c # cs) = (if Raw c \<in> seen then unseen seen cs else c # unseen (insert (Raw c) seen) cs)"

lemma merge_loop_unseen:
  assumes "merge_loop X now certs seen buffer w = (buffer', w')"
  shows "buffer' = buffer @ encode_certs (unseen (dom seen) (filter (\<lambda>c. now \<le> NotAfter c) certs))"
  using assms
proof (induction X now certs seen buffer w rule: merge_loop.induct)
  case (2 X now cert certs seen buffer w)
  consider (expired) "NotAfter cert < now" | (seen) v where "\<not> NotAfter cert < now" "seen (Raw cert) = Some v"
    | (unseen) "\<not> NotAfter cert < now" "seen (Raw cert) = None"
    by (cases "seen (Raw cert)") auto
  then show ?case
  proof cases
    case expired
    with 2(1) [OF expired] 2(4) show ?thesis by simp
  next
    case seen
    with 2(3) 2(4) show ?thesis by (simp add: domI)
  next
    case unseen
    then have "merge_loop X now certs (seen(Raw cert \<mapsto> True)) (buffer @ pem_Encode ''CERTIFICATE'' (Raw cert)) w =
        (buffer', w')" and "Raw cert \<notin> dom seen"
      using 2(4) by (simp_all add: domIff)
    with 2(2) [OF unseen this(1)] unseen show ?thesis by (simp del: fun_upd_apply)
  qed
qed simp

lemma merge_loop_frame:
  assumes "merge_loop X now certs seen buffer w = (buffer', w')"
  shows "metrics w' = metrics w \<and> same_outside w w'"
  using assms
  by (induction X now certs seen buffer w rule: merge_loop.induct)
     (auto simp: same_outside_def split: if_splits)

lemma unseen_snoc:
  "unseen seen (cs @ [c]) = unseen seen cs @ (if Raw c \<in> seen \<union> Raw ` set cs then [] else [c])"
  by (induction seen cs rule: unseen.induct) auto

lemma unseen_first: "inj_on Raw (set cs) \<Longrightarrow> unseen {} cs = rev (remdups (rev cs))"
proof (induction cs rule: rev_induct)
  case (snoc c cs)
  then have "unseen {} cs = rev (remdups (rev cs))" and "Raw c \<in> Raw ` set cs \<longleftrightarrow> c \<in> set cs"
    by (auto dest: inj_onD simp: inj_on_def)
  then show ?case by (simp add: unseen_snoc)
qed simp

text \<open>The ways a merge can go.\<close>

lemma mergeAndEncode_success:
  assumes "raw_is_input X" and "mergeAndEncode X enc add w = (Inr s, w')"
  obtains bundle0 certs0 certs1 where "DecodeString enc = Inr bundle0"
    and "parseCertificates X bundle0 = Inr certs0" and "parseCertificates X add = Inr certs1"
    and "s = b64_encode (encode_certs (merged (clock w) (certs0 @ certs1)))"
    and "merged (clock w) (certs0 @ certs1) \<noteq> []" and "parsed X (certs0 @ certs1)"
proof -
  from assms(2) obtain bundle0 certs0 certs1 buffer
    where parts: "DecodeString enc = Inr bundle0" "parseCertificates X bundle0 = Inr certs0"
      "parseCertificates X add = Inr certs1"
      and loop: "merge_loop X (clock w) (certs0 @ certs1) Map.empty [] w = (buffer, w')"
      and s: "s = b64_encode buffer" "buffer \<noteq> []"
    by (auto simp: mergeAndEncode_def split: sum.splits prod.splits if_splits)
  from parts parseCertificates_parsed [OF assms(1)] have certs: "parsed X (certs0 @ certs1)"
    by (simp add: parsed_def)
  have "inj_on Raw (set (filter (\<lambda>c. clock w \<le> NotAfter c) (certs0 @ certs1)))"
    using parsed_inj [OF certs] by (rule inj_on_subset) auto
  with merge_loop_unseen [OF loop] have "buffer = encode_certs (merged (clock w) (certs0 @ certs1))"
    by (simp add: unseen_first merged_def)
  with parts s certs that show thesis by auto
qed

lemma parsed_merged: "parsed X certs \<Longrightarrow> parsed X (merged now certs)"
  by (auto simp: parsed_def list_all_iff set_merged)

lemma DecodeString_encode [simp]: "DecodeString (b64_encode bs) = Inr bs"
  by (rule DecodeString_broken_encode) (rule unbroken_b64_encode)

text \<open>
  C10. What \<^verbatim>\<open>mergeAndEncode\<close> publishes. The text it returns is base64 of a PEM bundle that parses back to
  exactly the certificates of the existing bundle and of the file that have not expired, each once,
  at its first place and in order; and there is at least one. So no certificate that is still valid
  is ever dropped, and an empty bundle is never published.
\<close>

theorem mergeAndEncode_certificates:
  assumes "raw_is_input X" and "mergeAndEncode X enc add w = (Inr s, w')"
  shows "\<exists>bundle0 certs0 certs1 out certs.
    DecodeString enc = Inr bundle0 \<and> parseCertificates X bundle0 = Inr certs0 \<and>
    parseCertificates X add = Inr certs1 \<and>
    DecodeString s = Inr out \<and> parseCertificates X out = Inr certs \<and>
    certs = merged (clock w) (certs0 @ certs1) \<and> certs \<noteq> [] \<and> distinct certs \<and>
    set certs = {c \<in> set certs0 \<union> set certs1. clock w \<le> NotAfter c}"
  using mergeAndEncode_success [OF assms]
proof cases
  case (1 bundle0 certs0 certs1)
  let ?certs = "merged (clock w) (certs0 @ certs1)"
  have "parseCertificates X (encode_certs ?certs) = Inr ?certs"
    using parse_loop_encoded [OF parsed_merged [OF 1(6)], of "clock w" "[]"]
    by (simp add: parseCertificates_def)
  with 1 show ?thesis by (auto simp: distinct_merged set_merged)
qed

lemma mergeAndEncode_computes:
  assumes "raw_is_input X" and "DecodeString enc = Inr bundle0" and "parseCertificates X bundle0 = Inr certs0"
    and "parseCertificates X add = Inr certs1" and "merged (clock w) (certs0 @ certs1) \<noteq> []"
  shows "\<exists>w'. mergeAndEncode X enc add w = (Inr (b64_encode (encode_certs (merged (clock w) (certs0 @ certs1)))), w')"
proof -
  obtain buffer w' where loop: "merge_loop X (clock w) (certs0 @ certs1) Map.empty [] w = (buffer, w')"
    by (cases "merge_loop X (clock w) (certs0 @ certs1) Map.empty [] w")
  have "parsed X (certs0 @ certs1)"
    using assms parseCertificates_parsed [of X] by (simp add: parsed_def)
  from parsed_inj [OF this]
  have "inj_on Raw (set (filter (\<lambda>c. clock w \<le> NotAfter c) (certs0 @ certs1)))"
    by (rule inj_on_subset) auto
  with merge_loop_unseen [OF loop] have "buffer = encode_certs (merged (clock w) (certs0 @ certs1))"
    by (simp add: unseen_first merged_def)
  with assms loop show ?thesis by (auto simp: mergeAndEncode_def)
qed

lemma remdups_absorb: "set xs \<subseteq> set ys \<Longrightarrow> remdups (xs @ ys) = remdups ys"
  by (induction xs) auto

lemma merged_again:
  assumes "t \<le> t'" and "\<And>c. c \<in> set (merged t (cs0 @ cs1)) \<Longrightarrow> t' \<le> NotAfter c"
  shows "merged t' (merged t (cs0 @ cs1) @ cs1) = merged t (cs0 @ cs1)"
proof -
  let ?U = "merged t (cs0 @ cs1)" and ?F = "filter (\<lambda>c. t' \<le> NotAfter c) cs1"
  have keep: "filter (\<lambda>c. t' \<le> NotAfter c) ?U = ?U" using assms(2) by (intro filter_True) blast
  have "remdups (rev ?F @ rev ?U) = remdups (rev ?U)"
    using assms(1) by (intro remdups_absorb) (auto simp: set_merged)
  also have "\<dots> = rev ?U" by (simp add: distinct_remdups_id distinct_merged)
  finally show ?thesis by (simp add: merged_def [of t' "?U @ cs1"] keep)
qed

text \<open>
  C23. The injector settles: merging the same file again into the bundle it published gives exactly the
  same text, at any later time at which none of the published certificates has expired. So the next
  updates find the bundle up to date and do not write to the cluster.
\<close>

theorem mergeAndEncode_stable:
  assumes "raw_is_input X" and "mergeAndEncode X enc add w = (Inr s, w')" and "clock w \<le> clock v"
    and "\<And>out certs c. DecodeString s = Inr out \<Longrightarrow> parseCertificates X out = Inr certs \<Longrightarrow>
      c \<in> set certs \<Longrightarrow> clock v \<le> NotAfter c"
  shows "\<exists>v'. mergeAndEncode X s add v = (Inr s, v')"
  using mergeAndEncode_success [OF assms(1,2)]
proof cases
  case (1 bundle0 certs0 certs1)
  let ?U = "merged (clock w) (certs0 @ certs1)"
  have decoded: "DecodeString s = Inr (encode_certs ?U)" by (simp add: 1(4))
  have parse: "parseCertificates X (encode_certs ?U) = Inr ?U"
    using parse_loop_encoded [OF parsed_merged [OF 1(6)], of "clock w" "[]"]
    by (simp add: parseCertificates_def)
  have again: "merged (clock v) (?U @ certs1) = ?U"
    using assms(3) assms(4) [OF decoded parse] by (rule merged_again)
  from mergeAndEncode_computes [OF assms(1) decoded parse 1(3), of v] 1(4,5) again show ?thesis by simp
qed

section \<open>The published bundle\<close>

text \<open>The certificates a \<^verbatim>\<open>caBundle\<close> field holds.\<close>

definition publishes :: "X509 \<Rightarrow> string \<Rightarrow> Certificate \<Rightarrow> bool" where
  "publishes X s c \<longleftrightarrow> (\<exists>out certs. DecodeString s = Inr out \<and> parseCertificates X out = Inr certs \<and> c \<in> set certs)"

text \<open>
  The documented behaviour of the cluster, for the object \<open>stored\<close> in it: reading it returns it, writing
  stores the object written or, when it fails, may have left the old one, reading a file does not
  change it, and no call goes back in time.
\<close>

definition cluster_laws :: "('x, 'u, 'p) ClusterApi \<Rightarrow> ('x \<Rightarrow> 'p ProviderObject) \<Rightarrow> bool" where
  "cluster_laws C stored \<longleftrightarrow>
     (\<forall>ctx n t x r t' x'. k8s_Get C providers_resource ctx n t x = (r, t', x') \<longrightarrow>
        t \<le> t' \<and> stored x' = stored x \<and>
        (\<forall>u p. r = Inr u \<longrightarrow> FromUnstructured C u = Inr p \<longrightarrow> p = stored x)) \<and>
     (\<forall>ctx u p t x r t' x'. ToUnstructured C p = Inr u \<longrightarrow>
        k8s_Update C providers_resource ctx u t x = (r, t', x') \<longrightarrow>
        t \<le> t' \<and> (stored x' = p \<or> isl r \<and> stored x' = stored x)) \<and>
     (\<forall>f t x r t' x'. os_ReadFile C f t x = (r, t', x') \<longrightarrow> t \<le> t' \<and> stored x' = stored x)"

lemma cluster_call:
  assumes "cluster_laws C stored"
  shows "call (k8s_Get C providers_resource ctx n) w = (r, w') \<Longrightarrow>
      clock w \<le> clock w' \<and> stored (ext w') = stored (ext w) \<and>
      (\<forall>u p. r = Inr u \<longrightarrow> FromUnstructured C u = Inr p \<longrightarrow> p = stored (ext w))"
    and "call (k8s_Update C providers_resource ctx u) w = (r, w') \<Longrightarrow> ToUnstructured C p = Inr u \<Longrightarrow>
      clock w \<le> clock w' \<and> (stored (ext w') = p \<or> isl r \<and> stored (ext w') = stored (ext w))"
    and "call (os_ReadFile C f) w = (q, w') \<Longrightarrow> clock w \<le> clock w' \<and> stored (ext w') = stored (ext w)"
  using assms unfolding cluster_laws_def call_def by (fastforce split: prod.splits)+

lemma getProvider_stored:
  assumes "cluster_laws C stored" and "getProvider C ctx w = (r, w')"
  shows "clock w \<le> clock w' \<and> stored (ext w') = stored (ext w) \<and> metrics w' = metrics w \<and>
    (\<forall>p. r = Inr p \<longrightarrow> p = stored (ext w))"
  using assms(2) cluster_call(1) [OF assms(1)]
  by (fastforce simp: getProvider_def split: prod.splits sum.splits dest: call_frame(1))

lemma updateProvider_stored:
  assumes "cluster_laws C stored" and "updateProvider C ctx p s w = (r, w')"
  shows "clock w \<le> clock w' \<and> metrics w' = metrics w \<and>
    (stored (ext w') = p\<lparr>Spec_CABundle := s\<rparr> \<or> r \<noteq> None \<and> stored (ext w') = stored (ext w))"
  using assms(2) cluster_call(2) [OF assms(1)]
  by (fastforce simp: updateProvider_def split: prod.splits sum.splits dest: call_frame(1))

lemma mergeAndEncode_frame:
  assumes "mergeAndEncode X enc add w = (r, w')"
  shows "clock w' = clock w \<and> ext w' = ext w \<and> metrics w' = metrics w"
  using assms
  by (auto simp: mergeAndEncode_def same_outside_def split: sum.splits prod.splits if_splits
      dest!: merge_loop_frame)

lemma await_propagation_frame:
  assumes "await_propagation sched ctx w = (r, w')"
  shows "clock w \<le> clock w' \<and> ext w' = ext w \<and> metrics w' = metrics w"
  using assms
  by (auto simp: await_propagation_def wait_delay_def propagationDelay_def duration_defs Let_def
      split: prod.splits option.splits if_splits)

lemma publish_bundle_stored:
  assumes "cluster_laws C stored" and "publish_bundle C sched ctx p s w = (r, w')" and "p = stored (ext w)"
  shows "clock w \<le> clock w' \<and> metrics w' = metrics w \<and>
    (r \<noteq> None \<and> stored (ext w') = stored (ext w) \<or> stored (ext w') = p\<lparr>Spec_CABundle := s\<rparr>)"
proof (cases "Spec_CABundle p = s")
  case True
  with assms show ?thesis by (auto simp: publish_bundle_def)
next
  case False
  obtain ru w1 where upd: "updateProvider C ctx p s w = (ru, w1)" by force
  obtain ra w2 where wait: "await_propagation sched ctx w1 = (ra, w2)" by force
  from False assms(2) upd wait
  have "(r, w') = (case ru of Some err \<Rightarrow> (Some (WrapError ''failed to update Provider object: '' err), w1) | None \<Rightarrow> (ra, w2))"
    by (cases ru) (simp_all add: publish_bundle_def)
  with updateProvider_stored [OF assms(1) upd] await_propagation_frame [OF wait] show ?thesis by (cases ru) auto
qed

text \<open>What one update leaves in the cluster, whatever its result.\<close>

lemma UpdateCABundle_stored:
  assumes laws: "cluster_laws C stored" and run: "UpdateCABundle X C sched ctx path w = (r, w')"
  shows "clock w \<le> clock w' \<and> metrics w' = metrics w \<and>
    (r \<noteq> None \<and> stored (ext w') = stored (ext w) \<or>
     (\<exists>w1 w2 v ca s. call (os_ReadFile C path) w1 = (Inr ca, w2) \<and> clock w2 \<le> clock w' \<and>
        mergeAndEncode X (Spec_CABundle (stored (ext w))) ca w2 = (Inr s, v) \<and>
        stored (ext w') = (stored (ext w))\<lparr>Spec_CABundle := s\<rparr>))"
proof -
  obtain rp w1 where get: "getProvider C ctx w = (rp, w1)" by force
  note g = getProvider_stored [OF laws get]
  obtain rf w2 where read: "call (os_ReadFile C path) w1 = (rf, w2)" by force
  note f = cluster_call(3) [OF laws read] call_frame(1) [OF read]
  consider (get_failed) err where "rp = Inl err" | (read_failed) p err where "rp = Inr p" "rf = Inl err"
    | (read_ok) ca where "rp = Inr (stored (ext w))" "rf = Inr ca"
    using g by (cases rp; cases rf) auto
  then show ?thesis
  proof cases
    case (read_ok ca)
    obtain rm w3 where merge: "mergeAndEncode X (Spec_CABundle (stored (ext w))) ca w2 = (rm, w3)" by force
    note m = mergeAndEncode_frame [OF merge]
    show ?thesis
    proof (cases rm)
      case (Inl err)
      with run get read read_ok merge have "r \<noteq> None" "w' = w3" by (auto simp: UpdateCABundle_def)
      with g f m show ?thesis by simp
    next
      case (Inr s)
      with run get read read_ok merge
      have "publish_bundle C sched ctx (stored (ext w)) s w3 = (r, w')" by (simp add: UpdateCABundle_def)
      from publish_bundle_stored [OF laws this] g f m have
        "clock w \<le> clock w' \<and> metrics w' = metrics w \<and> clock w2 \<le> clock w' \<and>
         (r \<noteq> None \<and> stored (ext w') = stored (ext w) \<or> stored (ext w') = (stored (ext w))\<lparr>Spec_CABundle := s\<rparr>)"
        by auto
      with read read_ok merge Inr show ?thesis by blast
    qed
  qed (use run get read g f in \<open>auto simp: UpdateCABundle_def\<close>)
qed

lemma publishes_merged:
  assumes "raw_is_input X" and "mergeAndEncode X enc add w = (Inr s, w')" and "clock w \<le> NotAfter c"
  shows "publishes X enc c \<Longrightarrow> publishes X s c"
    and "parseCertificates X add = Inr certs1 \<Longrightarrow> c \<in> set certs1 \<Longrightarrow> publishes X s c"
proof -
  from mergeAndEncode_success [OF assms(1,2)] obtain bundle0 certs0 certs1'
    where old: "DecodeString enc = Inr bundle0" "parseCertificates X bundle0 = Inr certs0"
      and added: "parseCertificates X add = Inr certs1'"
      and s: "s = b64_encode (encode_certs (merged (clock w) (certs0 @ certs1')))"
      and ok: "parsed X (certs0 @ certs1')" by blast
  from s parse_loop_encoded [OF parsed_merged [OF ok], of "clock w" "[]"] assms(3)
  have pub: "c \<in> set certs0 \<union> set certs1' \<Longrightarrow> publishes X s c"
    by (auto simp: publishes_def parseCertificates_def set_merged)
  from pub old show "publishes X enc c \<Longrightarrow> publishes X s c" by (auto simp: publishes_def)
  from pub added show "parseCertificates X add = Inr certs1 \<Longrightarrow> c \<in> set certs1 \<Longrightarrow> publishes X s c" by auto
qed

text \<open>The two halves of an update: what stays published, and what a success adds.\<close>

lemma UpdateCABundle_valid:
  assumes "raw_is_input X" and "cluster_laws C stored"
    and "UpdateCABundle X C sched ctx path w = (r, w')"
    and "publishes X (Spec_CABundle (stored (ext w))) c" and "clock w' \<le> NotAfter c"
  shows "publishes X (Spec_CABundle (stored (ext w'))) c"
  using UpdateCABundle_stored [OF assms(2,3)] assms(4,5) publishes_merged(1) [OF assms(1)]
  by (fastforce dest: order_trans)

lemma UpdateCABundle_adds:
  assumes "raw_is_input X" and "cluster_laws C stored"
    and "UpdateCABundle X C sched ctx path w = (None, w')"
  shows "\<exists>w1 w2 ca certs. call (os_ReadFile C path) w1 = (Inr ca, w2) \<and> parseCertificates X ca = Inr certs \<and>
    (\<forall>c \<in> set certs. clock w' \<le> NotAfter c \<longrightarrow> publishes X (Spec_CABundle (stored (ext w'))) c)"
proof -
  from UpdateCABundle_stored [OF assms(2,3)] obtain w1 w2 v ca s
    where read: "call (os_ReadFile C path) w1 = (Inr ca, w2)" and t: "clock w2 \<le> clock w'"
      and m: "mergeAndEncode X (Spec_CABundle (stored (ext w))) ca w2 = (Inr s, v)"
      and st: "stored (ext w') = (stored (ext w))\<lparr>Spec_CABundle := s\<rparr>"
    by blast
  from mergeAndEncode_success [OF assms(1) m] obtain certs where "parseCertificates X ca = Inr certs" by blast
  with read st publishes_merged(2) [OF assms(1) m order_trans [OF t]] show ?thesis
    by (intro exI [of _ w1] exI [of _ w2] exI [of _ ca] exI [of _ certs]) simp
qed

text \<open>
  C22. An update never withdraws trust that is still valid: whatever its outcome, also an error half-way,
  every certificate that the cluster's bundle held before and that has not expired when the update
  ends is still in it, and no other field of the object has changed. When it succeeds, the
  certificates of the file that have not expired are in the bundle too.
\<close>

theorem UpdateCABundle_keeps_valid:
  assumes "raw_is_input X" and "cluster_laws C stored"
    and "UpdateCABundle X C sched ctx path w = (r, w')"
  shows "(\<forall>c. publishes X (Spec_CABundle (stored (ext w))) c \<and> clock w' \<le> NotAfter c \<longrightarrow>
      publishes X (Spec_CABundle (stored (ext w'))) c) \<and>
    other_fields (stored (ext w')) = other_fields (stored (ext w)) \<and>
    (r = None \<longrightarrow> (\<exists>w1 w2 ca certs. call (os_ReadFile C path) w1 = (Inr ca, w2) \<and>
      parseCertificates X ca = Inr certs \<and>
      (\<forall>c \<in> set certs. clock w' \<le> NotAfter c \<longrightarrow> publishes X (Spec_CABundle (stored (ext w'))) c)))"
proof (intro conjI allI impI)
  show "other_fields (stored (ext w')) = other_fields (stored (ext w))"
    using UpdateCABundle_stored [OF assms(2,3)] by auto
qed (use UpdateCABundle_valid [OF assms] UpdateCABundle_adds assms in \<open>blast+\<close>)

section \<open>The loop\<close>

lemma getProvider_metrics: "getProvider C ctx w = (r, w') \<Longrightarrow> metrics w' = metrics w"
  by (auto simp: getProvider_def split: prod.splits sum.splits dest: call_frame(1))

lemma updateProvider_metrics: "updateProvider C ctx p s w = (r, w') \<Longrightarrow> metrics w' = metrics w"
  by (auto simp: updateProvider_def split: prod.splits sum.splits dest: call_frame(1))

lemma publish_bundle_metrics: "publish_bundle C sched ctx p s w = (r, w') \<Longrightarrow> metrics w' = metrics w"
  by (auto simp: publish_bundle_def split: if_splits prod.splits option.splits
      dest!: updateProvider_metrics await_propagation_frame)

lemma UpdateCABundle_metrics:
  assumes "UpdateCABundle X C sched ctx path w = (r, w')"
  shows "metrics w' = metrics w"
  using assms
  by (auto simp: UpdateCABundle_def split: prod.splits sum.splits if_splits option.splits
      dest!: getProvider_metrics publish_bundle_metrics call_frame(1) mergeAndEncode_frame)

lemma injector_tick_counts:
  assumes "injector_tick (update X C sched path) ctx u w = (b, u', w')"
  shows "CABundleRefreshFail (metrics w') = CABundleRefreshFail (metrics w) \<or>
    CABundleRefreshFail (metrics w') = Suc (CABundleRefreshFail (metrics w)) \<and> u' = u \<and> b"
  using assms
  by (auto simp: injector_tick_def update_def split: prod.splits option.splits if_splits
      dest!: UpdateCABundle_metrics)

interpretation injector_refresher: refresher "injector_tick (update X C sched path) ctx" ctx CABundleRefreshFail
  by unfold_locales
     (auto dest: injector_tick_counts, auto simp: injector_tick_def split: prod.splits option.splits if_splits)

lemma Start_metrics: "Start X C sched ctx path interval w = (r, w') \<Longrightarrow> metrics w' = metrics w"
  by (auto simp: Start_def update_def split: if_splits prod.splits option.splits dest: UpdateCABundle_metrics)

text \<open>One step of the loop, then all of them.\<close>

lemma refresh_step_valid:
  assumes "raw_is_input X" and "cluster_laws C stored"
    and "refresh_step (injector_tick (update X C sched path) ctx) ctx c1 k c2"
  shows "clock (loop_world c1) \<le> clock (loop_world c2) \<and>
    (\<forall>c. publishes X (Spec_CABundle (stored (ext (loop_world c1)))) c \<and> clock (loop_world c2) \<le> NotAfter c \<longrightarrow>
      publishes X (Spec_CABundle (stored (ext (loop_world c2)))) c)"
proof -
  have tick: "clock w \<le> clock w' \<and> (\<forall>c. publishes X (Spec_CABundle (stored (ext w))) c \<and> clock w' \<le> NotAfter c \<longrightarrow>
      publishes X (Spec_CABundle (stored (ext w'))) c)"
    if run: "injector_tick (update X C sched path) ctx u w = (b, u', w')" for u w b u' w'
  proof -
    obtain r v where upd: "update X C sched path ctx w = (r, v)" by force
    then have "clock w' = clock v" "ext w' = ext v"
      using run by (auto simp: injector_tick_def split: option.splits if_splits)
    with UpdateCABundle_valid [OF assms(1,2) upd [unfolded update_def]]
      UpdateCABundle_stored [OF assms(2) upd [unfolded update_def]]
    show ?thesis by auto
  qed
  from assms(3) show ?thesis by (cases rule: refresh_step.cases) (auto dest: tick)
qed

lemma refresh_run_valid:
  assumes "refresh_run (injector_tick (update X C sched path) ctx) ctx c0 n c1"
    and "raw_is_input X" and "cluster_laws C stored"
  shows "clock (loop_world c0) \<le> clock (loop_world c1) \<and>
    (\<forall>c. publishes X (Spec_CABundle (stored (ext (loop_world c0)))) c \<and> clock (loop_world c1) \<le> NotAfter c \<longrightarrow>
      publishes X (Spec_CABundle (stored (ext (loop_world c1)))) c)"
  using assms
proof (induction rule: refresh_run.induct)
  case (step c n c1 k c2)
  with refresh_step_valid [OF step.prems step.hyps(2)] show ?case by (meson order_trans)
qed simp

text \<open>
  C9. The background loop keeps what is valid: after any number of ticks, in any interleaving with the
  context, and whether the updates succeeded or failed, every certificate that the cluster's bundle
  held at the start and that has not expired since is still in it.
\<close>

theorem injector_keeps_valid:
  assumes "raw_is_input X" and "cluster_laws C stored"
    and "refreshLoop (update X C sched path) ctx (Running () w) n c'"
    and "publishes X (Spec_CABundle (stored (ext w))) c" and "clock (loop_world c') \<le> NotAfter c"
  shows "publishes X (Spec_CABundle (stored (ext (loop_world c')))) c"
  using refresh_run_valid [OF _ assms(1,2), of sched path ctx "Running () w" n c'] assms(3-5)
  by (auto simp: refreshLoop_def)

text \<open>
  Failures of the background loop: the counter grows by at most one per tick and never shrinks, a
  tick whose update fails because the context is done ends the loop without being counted, and the
  loop ends only when the context is done.
\<close>

theorem injector_failures_counted:
  assumes "refreshLoop (update X C sched path) ctx (Running () w) n c'"
  shows "CABundleRefreshFail (metrics w) \<le> CABundleRefreshFail (metrics (loop_world c')) \<and>
    CABundleRefreshFail (metrics (loop_world c')) \<le> CABundleRefreshFail (metrics w) + n \<and>
    (\<forall>u w'. c' = Stopped u w' \<longrightarrow> ctx_Err ctx (clock w') \<noteq> None) \<and>
    (\<forall>u v u' v'. injector_tick (update X C sched path) ctx u v = (False, u', v') \<longrightarrow> metrics v' = metrics v)"
proof -
  from assms have run: "refresh_run (injector_tick (update X C sched path) ctx) ctx (Running () w) n c'"
    by (simp add: refreshLoop_def)
  have "metrics v' = metrics v" if "injector_tick (update X C sched path) ctx u v = (False, u', v')" for u v u' v'
    using that by (auto simp: injector_tick_def update_def split: prod.splits option.splits if_splits
        dest: UpdateCABundle_metrics)
  with injector_refresher.run_counts [OF run] injector_refresher.stopped_is_done [OF run] show ?thesis
    by auto
qed

text \<open>
  C35. Starting the injector: an interval that is not positive is refused before anything is read or
  written, and a start that succeeds has published the certificates of the file that have not expired
  before the background loop, and with it the server, starts.
\<close>

theorem Start_publishes:
  assumes "raw_is_input X" and "cluster_laws C stored"
    and "Injector.Start X C sched ctx path refreshInterval w = (r, w')"
  shows "(refreshInterval \<le> 0 \<longrightarrow> isl r \<and> w' = w) \<and>
    (\<forall>c0. r = Inr c0 \<longrightarrow> 0 < refreshInterval \<and> c0 = Running () w' \<and>
      (\<exists>w1 w2 ca certs. call (os_ReadFile C path) w1 = (Inr ca, w2) \<and> parseCertificates X ca = Inr certs \<and>
        (\<forall>c \<in> set certs. clock w' \<le> NotAfter c \<longrightarrow> publishes X (Spec_CABundle (stored (ext w'))) c)))"
proof (cases "refreshInterval \<le> 0")
  case True
  with assms(3) show ?thesis by (auto simp: Start_def)
next
  case False
  obtain e v where upd: "update X C sched path ctx w = (e, v)" by force
  show ?thesis
  proof (cases e)
    case None
    with upd False assms(3) have "r = Inr (Running () w')" "v = w'" by (auto simp: Start_def)
    with None upd False UpdateCABundle_adds [OF assms(1,2), of sched _ path w v] show ?thesis
      by (simp add: update_def)
  next
    case (Some err)
    with upd False assms(3) show ?thesis by (auto simp: Start_def)
  qed
qed

section \<open>The loop over the blocks ends\<close>

text \<open>The loop as written, cut off after a number of rounds.\<close>

fun parse_rounds :: "nat \<Rightarrow> X509 \<Rightarrow> string \<Rightarrow> Certificate list \<Rightarrow> Certificate list result option" where
  "parse_rounds 0 X bundle certs = None"
| "parse_rounds (Suc n) X bundle certs =
     (if bundle = [] then Some (Inr certs)
      else case pem_Decode bundle of
        (None, _) \<Rightarrow> Some (Inr certs)
      | (Some block, rest) \<Rightarrow>
          (case ParseCertificate X (Bytes block) of
             Inl err \<Rightarrow> Some (Inl (WrapError ''failed to parse certificate: '' err))
           | Inr cert \<Rightarrow> parse_rounds n X rest (certs @ [cert])))"

lemma parse_rounds_enough:
  "length s < n \<Longrightarrow> parse_rounds n X s certs = Some (parse_loop X s certs)"
proof (induction n arbitrary: s certs)
  case (Suc n)
  then show ?case
    by (auto simp: parse_loop.simps [of X s certs] split: prod.splits option.splits sum.splits
        dest!: pem_Decode_shorter)
qed simp

text \<open>
  C36. \<^verbatim>\<open>parseCertificates\<close> returns for every input, with the result of its loop: the loop ends within as
  many rounds as the input has bytes and one more, because every block that the PEM decoder finds
  leaves a strictly shorter rest.
\<close>

theorem parseCertificates_terminates:
  "parse_rounds (Suc (length text0)) X text0 [] = Some (parseCertificates X text0)"
  by (simp only: parse_rounds_enough parseCertificates_def lessI)

section \<open>A concrete cluster\<close>

text \<open>A parser that takes every non-empty input as a certificate, and a cluster of one object.\<close>

definition sample_x509 :: X509 where
  "sample_x509 = \<lparr>ParseCertificate = (\<lambda>b.
       if b = [] then Inl (ErrorString ''x509: malformed certificate'')
       else Inr \<lparr>Raw = b, NotAfter = 1000 * Second, CommonName = b\<rparr>),
     FormatRFC3339 = (\<lambda>t. Itoa t)\<rparr>"

definition sample_cluster :: "(unit ProviderObject, unit ProviderObject, unit) ClusterApi" where
  "sample_cluster = \<lparr>k8s_Get = (\<lambda>r ctx n t x. (Inr x, t + 1, x)), k8s_Update = (\<lambda>r ctx u t x. (Inr u, t + 1, u)),
     FromUnstructured = Inr, ToUnstructured = Inr,
     os_ReadFile = (\<lambda>f t x. (Inr (pem_Encode ''CERTIFICATE'' ''new''), t + 1, x))\<rparr>"

definition sample_bundle0 :: string where
  "sample_bundle0 = b64_encode (pem_Encode ''CERTIFICATE'' ''old'')"

definition sample_object :: "unit ProviderObject" where
  "sample_object = \<lparr>Spec_CABundle = sample_bundle0, other_fields = ()\<rparr>"

definition sample_cert :: "string \<Rightarrow> Certificate" where
  "sample_cert s = \<lparr>Raw = s, NotAfter = 1000 * Second, CommonName = s\<rparr>"

lemma sample_raw: "raw_is_input sample_x509"
  by (auto simp: raw_is_input_def sample_x509_def split: if_splits)

lemma sample_laws: "cluster_laws sample_cluster (\<lambda>x. x)"
  by (auto simp: cluster_laws_def sample_cluster_def)

lemma sample_parse: "s \<noteq> [] \<Longrightarrow> parseCertificates sample_x509 (pem_Encode ''CERTIFICATE'' s) = Inr [sample_cert s]"
  using parse_loop_encoded [of sample_x509 "[sample_cert s]" "[]"]
  by (simp add: parseCertificates_def parsed_def sample_x509_def sample_cert_def)

lemma sample_merge:
  "clock w \<le> 1000 * Second \<Longrightarrow>
   \<exists>w'. mergeAndEncode sample_x509 sample_bundle0 (pem_Encode ''CERTIFICATE'' ''new'') w =
     (Inr (b64_encode (encode_certs [sample_cert ''old'', sample_cert ''new''])), w')"
  using mergeAndEncode_computes [OF sample_raw _ sample_parse sample_parse, of sample_bundle0 "''old''" "''new''" w]
  by (simp add: sample_bundle0_def merged_def sample_cert_def)

definition sample_world :: "unit ProviderObject world" where
  "sample_world = start_world sample_object"

lemma sample_update:
  "\<exists>w'. UpdateCABundle sample_x509 sample_cluster (\<lambda>t. True) (WithTimeout Background caBundleUpdateTimeout 0)
     ''ca.crt'' sample_world = (None, w') \<and> clock w' \<le> 1000 * Second \<and>
     ext w' = sample_object\<lparr>Spec_CABundle := b64_encode (encode_certs [sample_cert ''old'', sample_cert ''new''])\<rparr>"
proof -
  obtain v where m: "mergeAndEncode sample_x509 sample_bundle0 (pem_Encode ''CERTIFICATE'' ''new'') (sample_world\<lparr>clock := 2\<rparr>) =
      (Inr (b64_encode (encode_certs [sample_cert ''old'', sample_cert ''new''])), v)"
    using sample_merge [of "sample_world\<lparr>clock := 2\<rparr>"] by (auto simp: duration_defs)
  have "b64_decode 0 sample_bundle0 \<noteq> b64_decode 0 (b64_encode (encode_certs [sample_cert ''old'', sample_cert ''new'']))"
    by (simp add: sample_bundle0_def b64_decode_encode sample_cert_def)
  then have "sample_bundle0 \<noteq> b64_encode (encode_certs [sample_cert ''old'', sample_cert ''new''])" by metis
  then have new: "Spec_CABundle sample_object \<noteq> b64_encode (encode_certs [sample_cert ''old'', sample_cert ''new''])"
    by (simp add: sample_object_def)
  have get: "getProvider sample_cluster ctx sample_world = (Inr sample_object, sample_world\<lparr>clock := 1\<rparr>)" for ctx
    by (simp add: getProvider_def call_def sample_cluster_def sample_world_def)
  have read: "call (os_ReadFile sample_cluster f) (sample_world\<lparr>clock := 1\<rparr>) =
      (Inr (pem_Encode ''CERTIFICATE'' ''new''), sample_world\<lparr>clock := 2\<rparr>)" for f
    by (simp add: call_def sample_cluster_def)
  have put: "updateProvider sample_cluster ctx p s v = (None, v\<lparr>clock := clock v + 1, ext := p\<lparr>Spec_CABundle := s\<rparr>\<rparr>)"
    for ctx p s
    by (simp add: updateProvider_def call_def sample_cluster_def)
  from m new mergeAndEncode_frame [OF m] show ?thesis
    by (simp add: UpdateCABundle_def publish_bundle_def get read put sample_object_def)
       (simp add: await_propagation_def wait_delay_def WithTimeout_def Background_def
        caBundleUpdateTimeout_def propagationDelay_def duration_defs Let_def)
qed

lemma sample_publishes: "publishes sample_x509 (Spec_CABundle (ext sample_world)) (sample_cert ''old'')"
  by (simp add: publishes_def sample_world_def sample_object_def sample_bundle0_def sample_parse)

theorem mergeAndEncode_certificates_witness:
  "\<exists>s w' out. mergeAndEncode sample_x509 sample_bundle0 (pem_Encode ''CERTIFICATE'' ''new'') sample_world = (Inr s, w') \<and>
     DecodeString s = Inr out \<and>
     parseCertificates sample_x509 out = Inr [sample_cert ''old'', sample_cert ''new'']"
proof -
  obtain s w' where run: "mergeAndEncode sample_x509 sample_bundle0 (pem_Encode ''CERTIFICATE'' ''new'') sample_world = (Inr s, w')"
    using sample_merge [of sample_world] by (auto simp: sample_world_def duration_defs)
  have "merged (clock sample_world) ([sample_cert ''old''] @ [sample_cert ''new'']) = [sample_cert ''old'', sample_cert ''new'']"
    by (simp add: merged_def sample_cert_def sample_world_def duration_defs)
  with mergeAndEncode_certificates [OF sample_raw run] run show ?thesis
    by (auto simp: sample_parse sample_bundle0_def)
qed

theorem mergeAndEncode_stable_witness:
  "\<exists>s w' v'. mergeAndEncode sample_x509 sample_bundle0 (pem_Encode ''CERTIFICATE'' ''new'') sample_world = (Inr s, w') \<and>
     mergeAndEncode sample_x509 s (pem_Encode ''CERTIFICATE'' ''new'') (sample_world\<lparr>clock := Second\<rparr>) = (Inr s, v')"
proof -
  obtain s w' where run: "mergeAndEncode sample_x509 sample_bundle0 (pem_Encode ''CERTIFICATE'' ''new'') sample_world = (Inr s, w')"
    using sample_merge [of sample_world] by (auto simp: sample_world_def duration_defs)
  have valid: "c \<in> set certs \<Longrightarrow> parsed sample_x509 certs \<Longrightarrow> NotAfter c = 1000 * Second" for c certs
    by (auto simp: parsed_def list_all_iff sample_x509_def dest!: bspec split: if_splits)
       (metis Certificate.select_convs(2))
  have "\<exists>v'. mergeAndEncode sample_x509 s (pem_Encode ''CERTIFICATE'' ''new'') (sample_world\<lparr>clock := Second\<rparr>) = (Inr s, v')"
  proof (rule mergeAndEncode_stable [OF sample_raw run])
    show "clock (sample_world\<lparr>clock := Second\<rparr>) \<le> NotAfter c"
      if "parseCertificates sample_x509 out = Inr certs" "c \<in> set certs" for out certs c
      using valid [OF that(2) parseCertificates_parsed [OF sample_raw that(1)]] by (simp add: duration_defs)
  qed (simp add: sample_world_def duration_defs)
  with run show ?thesis by blast
qed

theorem UpdateCABundle_keeps_valid_witness:
  "\<exists>w'. UpdateCABundle sample_x509 sample_cluster (\<lambda>t. True) (WithTimeout Background caBundleUpdateTimeout 0)
       ''ca.crt'' sample_world = (None, w') \<and>
     publishes sample_x509 (Spec_CABundle (ext sample_world)) (sample_cert ''old'') \<and>
     publishes sample_x509 (Spec_CABundle (ext w')) (sample_cert ''old'')"
proof -
  obtain w' where run: "UpdateCABundle sample_x509 sample_cluster (\<lambda>t. True)
      (WithTimeout Background caBundleUpdateTimeout 0) ''ca.crt'' sample_world = (None, w')"
    and "clock w' \<le> 1000 * Second"
    using sample_update by blast
  then have "clock w' \<le> NotAfter (sample_cert ''old'')" by (simp add: sample_cert_def)
  with UpdateCABundle_keeps_valid [OF sample_raw sample_laws run] run sample_publishes show ?thesis by blast
qed

lemma sample_tick:
  "\<exists>w'. refreshLoop (update sample_x509 sample_cluster (\<lambda>t. True) ''ca.crt'') Background (Running () sample_world) 1
       (Running () w') \<and> clock w' \<le> 1000 * Second"
proof -
  obtain w' where run: "UpdateCABundle sample_x509 sample_cluster (\<lambda>t. True)
      (WithTimeout Background caBundleUpdateTimeout 0) ''ca.crt'' sample_world = (None, w')"
    and t: "clock w' \<le> 1000 * Second"
    using sample_update by blast
  have "clock sample_world = 0" by (simp add: sample_world_def)
  with run have "injector_tick (update sample_x509 sample_cluster (\<lambda>t. True) ''ca.crt'') Background () sample_world =
      (True, (), w')"
    by (simp add: injector_tick_def update_def)
  then have "refreshLoop (update sample_x509 sample_cluster (\<lambda>t. True) ''ca.crt'') Background (Running () sample_world)
      (0 + Suc 0) (Running () w')"
    unfolding refreshLoop_def by (intro refresh_run.step [OF refresh_run.start] refresh_step.ticked)
  with t show ?thesis by auto
qed

theorem injector_keeps_valid_witness:
  "\<exists>w'. refreshLoop (update sample_x509 sample_cluster (\<lambda>t. True) ''ca.crt'') Background (Running () sample_world) 1
       (Running () w') \<and>
     publishes sample_x509 (Spec_CABundle (ext w')) (sample_cert ''old'')"
proof -
  obtain w' where run: "refreshLoop (update sample_x509 sample_cluster (\<lambda>t. True) ''ca.crt'') Background
      (Running () sample_world) 1 (Running () w')" and "clock w' \<le> 1000 * Second"
    using sample_tick by blast
  then have "clock (loop_world (Running () w')) \<le> NotAfter (sample_cert ''old'')" by (simp add: sample_cert_def)
  from injector_keeps_valid [OF sample_raw sample_laws run sample_publishes this] run show ?thesis by auto
qed

theorem injector_failures_counted_witness:
  "\<exists>w'. refreshLoop (update sample_x509 sample_cluster (\<lambda>t. True) ''ca.crt'') Background (Running () sample_world) 1
       (Running () w') \<and>
     CABundleRefreshFail (metrics w') \<le> CABundleRefreshFail (metrics sample_world) + 1"
proof -
  obtain w' where run: "refreshLoop (update sample_x509 sample_cluster (\<lambda>t. True) ''ca.crt'') Background
      (Running () sample_world) 1 (Running () w')"
    using sample_tick by blast
  from injector_failures_counted [OF run] run show ?thesis by auto
qed

theorem Start_publishes_witness:
  "\<exists>w'. Injector.Start sample_x509 sample_cluster (\<lambda>t. True) Background ''ca.crt'' Hour sample_world =
       (Inr (Running () w'), w') \<and>
     (\<exists>w1 w2 ca certs. call (os_ReadFile sample_cluster ''ca.crt'') w1 = (Inr ca, w2) \<and>
       parseCertificates sample_x509 ca = Inr certs \<and>
       (\<forall>c \<in> set certs. clock w' \<le> NotAfter c \<longrightarrow> publishes sample_x509 (Spec_CABundle (ext w')) c))"
proof -
  obtain w' where "UpdateCABundle sample_x509 sample_cluster (\<lambda>t. True)
      (WithTimeout Background caBundleUpdateTimeout 0) ''ca.crt'' sample_world = (None, w')"
    using sample_update by blast
  moreover have "clock sample_world = 0" by (simp add: sample_world_def)
  ultimately have run: "Injector.Start sample_x509 sample_cluster (\<lambda>t. True) Background ''ca.crt'' Hour sample_world =
      (Inr (Running () w'), w')"
    by (simp add: Start_def update_def duration_defs)
  from Start_publishes [OF sample_raw sample_laws run] run show ?thesis by blast
qed

end
