(* ===== verification/Server_Main.thy ===== *)
theory Server_Main
  imports Server_Http Server_Config Injector
begin

text \<open>
  \<^verbatim>\<open>main\<close> of the server (cmd/aaop/aaop.go): the flags, the sequence of steps that configures the process
  and assembles the provider, and the shutdown. A step that fails ends the process with a message.
  Serving HTTP, also by the goroutine that serves the metrics, is I/O; \<open>Server_Http\<close> has the request
  handler and the goroutines of \<^verbatim>\<open>run\<close>.
\<close>

section \<open>Flags\<close>

record server_flags =
  noPGI :: bool
  certsDir :: string
  flag_trustDomains :: string
  flag_tufRepo :: string
  flag_tufRoot :: string
  flag_tufTargets :: string
  flag_ns :: string
  flag_ips :: string
  keychainRefresh :: duration
  flag_port :: string
  metricsPort :: string
  bundleMaxAttempts :: int
  bundleTimeout :: duration
  bundleDelay :: duration
  bundleRetryThrottled :: bool
  registryDialTimeout :: duration
  registryTLSHandshakeTimeout :: duration
  registryResponseHeaderTimeout :: duration
  registryDialKeepAlive :: duration
  registryIdleConnTimeout :: duration
  registryMaxIdleConns :: int
  registryMaxIdleConnsPerHost :: int
  registryTrace :: bool
  updateCABundle :: bool
  caBundleRefreshInterval :: duration

definition default_flags :: server_flags where
  "default_flags = \<lparr>noPGI = False, certsDir = '''', flag_trustDomains = '''', flag_tufRepo = '''',
     flag_tufRoot = '''', flag_tufTargets = '''', flag_ns = '''', flag_ips = '''',
     keychainRefresh = 5 * Minute, flag_port = ''8080'', metricsPort = ''9090'',
     bundleMaxAttempts = 3, bundleTimeout = 3 * Second, bundleDelay = 0, bundleRetryThrottled = False,
     registryDialTimeout = 0, registryTLSHandshakeTimeout = 0, registryResponseHeaderTimeout = 0,
     registryDialKeepAlive = 10 * Second, registryIdleConnTimeout = 10 * Second,
     registryMaxIdleConns = 25, registryMaxIdleConnsPerHost = 25, registryTrace = True,
     updateCABundle = False, caBundleRefreshInterval = Hour\<rparr>"

section \<open>path.Join\<close>

text \<open>
  \<^verbatim>\<open>path.Clean\<close> on the elements of a path: empty elements and dots disappear, a double dot removes the
  element before it.
\<close>

fun clean_elements :: "bool \<Rightarrow> string list \<Rightarrow> string list \<Rightarrow> string list" where
  "clean_elements rooted out [] = out"
| "clean_elements rooted out (e # es) =
     (if e = '''' \<or> e = ''.'' then clean_elements rooted out es
      else if e = ''..'' then
        (if out \<noteq> [] \<and> last out \<noteq> ''..'' then clean_elements rooted (butlast out) es
         else if rooted then clean_elements rooted out es
         else clean_elements rooted (out @ [e]) es)
      else clean_elements rooted (out @ [e]) es)"

definition Clean :: "string \<Rightarrow> string" where
  "Clean p =
     (let rooted = HasPrefix p ''/'';
          s = Join (clean_elements rooted [] (Split p (CHR ''/''))) ''/''
      in if rooted then ''/'' @ s else if s = '''' then ''.'' else s)"

definition path_Join :: "string \<Rightarrow> string \<Rightarrow> string" where
  "path_Join dir file =
     (if dir = '''' \<and> file = '''' then ''''
      else if dir = '''' then Clean file
      else if file = '''' then Clean dir
      else Clean (dir @ ''/'' @ file))"

definition certName :: string where "certName = ''tls.crt''"
definition keyName :: string where "keyName = ''tls.key''"

section \<open>Starting\<close>

text \<open>The fetcher's configuration and the gauge that publishes it.\<close>

definition configure ::
  "'t Transport \<Rightarrow> server_flags \<Rightarrow> 't FetcherVars \<Rightarrow> 'x world \<Rightarrow> go_error option \<times> 't FetcherVars \<times> 'x world" where
  "configure DefaultTransport f vars w =
     (case configureRegistryPool (registryDialKeepAlive f) (registryIdleConnTimeout f) (registryMaxIdleConns f)
         (registryMaxIdleConnsPerHost f) vars of
        (Some err, vars) \<Rightarrow> (Some err, vars, w)
      | (None, vars) \<Rightarrow>
     (case configureBundleFetcher DefaultTransport (bundleMaxAttempts f) (bundleTimeout f) (bundleDelay f)
         (registryDialTimeout f) (registryTLSHandshakeTimeout f) (registryResponseHeaderTimeout f) vars of
        (Some err, vars) \<Rightarrow> (Some err, vars, w)
      | (None, vars) \<Rightarrow>
          let vars = vars\<lparr>RetryThrottled := bundleRetryThrottled f, TraceEnabled := registryTrace f\<rparr>
          in (None, vars,
              meter (SetConfigInfo (Timeout vars) (MaxAttempts vars) (Delay vars) (RetryThrottled vars)) w)))"

text \<open>The CA bundle updater: nothing when the flag is off, else the state in which its loop starts.\<close>

definition start_injector ::
  "X509 \<Rightarrow> ('x, 'c, 'd) K8sApi \<Rightarrow> ('d \<Rightarrow> ('x, 'u, 'p) ClusterApi) \<Rightarrow> scheduler \<Rightarrow> Context \<Rightarrow> server_flags \<Rightarrow>
   'x world \<Rightarrow> (string + (unit, 'x) loop_state option) \<times> 'x world" where
  "start_injector X K C sched ctx f w =
     (if updateCABundle f then
        (case getK8sClient K w of
           (Inl err, w) \<Rightarrow> (Inl (''failed to create Kubernetes client: '' @ Error err), w)
         | (Inr client, w) \<Rightarrow>
        (case Injector.Start X (C client) sched ctx (path_Join (certsDir f) ''ca.crt'')
            (caBundleRefreshInterval f) w of
           (Inl err, w) \<Rightarrow> (Inl (''failed to start CA bundle updater: '' @ Error err), w)
         | (Inr loop, w) \<Rightarrow> (Inr (Some loop), w)))
      else (Inr None, w))"

text \<open>The fields of \<^verbatim>\<open>http.Server\<close> that the code sets, for the provider and for the metrics.\<close>

record http_Server =
  srv_Addr :: string
  ReadTimeout :: duration
  WriteTimeout :: duration
  ReadHeaderTimeout :: duration

definition new_http_Server :: "string \<Rightarrow> http_Server" where
  "new_http_Server port =
     \<lparr>srv_Addr = '':'' @ port, ReadTimeout = 10 * Second, WriteTimeout = 10 * Second, ReadHeaderTimeout = 10 * Second\<rparr>"

text \<open>The handler of \<^verbatim>\<open>/readyz\<close>.\<close>

definition readyz :: "'v ResponseWriter \<Rightarrow> 'v ResponseWriter" where
  "readyz rw = rw\<lparr>rw_status := Some (case rw_status rw of None \<Rightarrow> StatusOK | Some s \<Rightarrow> s)\<rparr>"

record ('x, 'k, 'r, 'o, 'b, 'v) Server =
  srv_provider :: "('x, 'k, 'r, 'o, 'b, 'v) Provider"
  srv_keychain :: "('x, 'k) KeyChainProvider"
  srv_injector :: "(unit, 'x) loop_state option"
  srv_http :: http_Server
  srv_metrics :: http_Server
  srv_certFile :: string
  srv_keyFile :: string

definition server_cfg :: "server_flags \<Rightarrow> VerifierCfg" where
  "server_cfg f = verifier_cfg (flag_tufRoot f) (flag_tufRepo f) (flag_tufTargets f) (flag_trustDomains f) (\<not> noPGI f)"

text \<open>
  From the flags to the server that is about to serve, or the message of \<^verbatim>\<open>log.Fatal\<close>. \<open>ctx\<close> is the
  context that the signals end.
\<close>

definition startup ::
  "('x, 'm, 'sv, 'b, 'v) Sigstore \<Rightarrow> ('b, 'sc, 'ec) BundleApi \<Rightarrow> 'x file_reader \<Rightarrow> string \<Rightarrow>
   ('x, 'k) KeychainApi \<Rightarrow> ('x, 'k, 't, 'h, 'r, 'b) Remote \<Rightarrow> 't Transport \<Rightarrow> X509 \<Rightarrow> ('x, 'c, 'd) K8sApi \<Rightarrow>
   ('d \<Rightarrow> ('x, 'u, 'p) ClusterApi) \<Rightarrow> scheduler \<Rightarrow> Context \<Rightarrow> server_flags \<Rightarrow> 't FetcherVars \<Rightarrow> 'x world \<Rightarrow>
   (string + ('x, 'k, 'r, (Context, 'k, 't, 'h) RemoteOption, 'b, 'v option) Server) \<times> 't FetcherVars \<times> 'x world" where
  "startup S B ReadFile githubRoot A R DefaultTransport X K C sched ctx f vars w =
     (case configure DefaultTransport f vars w of
        (Some err, vars, w) \<Rightarrow> (Inl (Error err), vars, w)
      | (None, vars, w) \<Rightarrow>
     (case CreateVerifier S ReadFile githubRoot (server_cfg f) w of
        (Inl err, w) \<Rightarrow> (Inl (Error err), vars, w)
      | (Inr v, w) \<Rightarrow>
     (case start_injector X K C sched ctx f w of
        (Inl msg, w) \<Rightarrow> (Inl msg, vars, w)
      | (Inr injector, w) \<Rightarrow>
          let (kc, w) = NewKeyChainProvider A (flag_ns f) [flag_ips f] (keychainRefresh f) w;
              (kc, w) = Keychain.Start ctx kc w;
              srv = new_http_Server (flag_port f)
          in (Inr \<lparr>srv_provider = default_provider S B v A kc R sched vars, srv_keychain = kc,
                srv_injector = injector, srv_http = srv, srv_metrics = new_http_Server (metricsPort f),
                srv_certFile = path_Join (certsDir f) certName, srv_keyFile = path_Join (certsDir f) keyName\<rparr>,
              vars, slog LevelInfo ''starting server'' [(''url'', LStr (srv_Addr srv))] w))))"

section \<open>Stopping\<close>

datatype main_exit = Graceful | FatalExit string

text \<open>After \<^verbatim>\<open>run\<close>: its error is fatal; otherwise the server gets five seconds to finish its requests.\<close>

definition shutdown ::
  "(Context \<Rightarrow> ('x, go_error option) outside) \<Rightarrow> go_error option \<Rightarrow> 'x world \<Rightarrow> main_exit \<times> 'x world" where
  "shutdown Shutdown run_err w =
     (case run_err of
        Some err \<Rightarrow> (FatalExit (''failed to start HTTP server: '' @ Error err), w)
      | None \<Rightarrow>
          let w = slog LevelInfo ''shutting down server'' [] w
          in case call (Shutdown (WithTimeout Background (5 * Second) (clock w))) w of
               (Some err, w) \<Rightarrow> (FatalExit (''server shutdown failed: '' @ Error err), w)
             | (None, w) \<Rightarrow> (Graceful, slog LevelInfo ''server shut down gracefully'' [] w))"

section \<open>Logging\<close>

text \<open>
  \<^verbatim>\<open>init\<close> installs a handler that writes the lines of level Info and above to the standard output; the
  ranks are those of \<^verbatim>\<open>slog\<close>.
\<close>

definition handlerLevel :: level where "handlerLevel = LevelInfo"

fun level_rank :: "level \<Rightarrow> int" where
  "level_rank LevelDebug = - 4"
| "level_rank LevelInfo = 0"
| "level_rank LevelError = 8"

fun enabled :: "logline \<Rightarrow> bool" where
  "enabled (Log l m as) = (level_rank handlerLevel \<le> level_rank l)"

definition stdout_lines :: "'x world \<Rightarrow> logline list" where
  "stdout_lines w = filter enabled (logs w)"

text \<open>Sending a complete response is silent, sending one with a system error writes one line.\<close>

lemma sendResponse_stdout:
  assumes "sendResponse H rw r w = (rw', w')" and "\<forall>t x. fst (Encode H r t x) = None"
  shows "stdout_lines w' = stdout_lines w @
    (if resp_SystemError r = '''' then []
     else [Log LevelError ''writing response'' [(''system_error'', LStr (resp_SystemError r)),
        (''num_items'', LInt (int (length (resp_Items r))))]])"
  using assms
  by (auto simp: sendResponse_def Let_def call_def case_prod_beta stdout_lines_def slog_def handlerLevel_def
      split: option.splits if_splits)

section \<open>A server that starts\<close>

definition valid_flags :: "server_flags \<Rightarrow> bool" where
  "valid_flags f \<longleftrightarrow> 1 \<le> bundleMaxAttempts f \<and> 0 < bundleTimeout f \<and> 0 \<le> bundleDelay f \<and>
     0 \<le> registryDialTimeout f \<and> 0 \<le> registryTLSHandshakeTimeout f \<and> 0 \<le> registryResponseHeaderTimeout f \<and>
     0 \<le> registryDialKeepAlive f \<and> 0 \<le> registryIdleConnTimeout f \<and>
     0 \<le> registryMaxIdleConns f \<and> 0 \<le> registryMaxIdleConnsPerHost f"

text \<open>Every flag of the fetcher is in its variable, and the shared transport is built from them.\<close>

definition in_force :: "'t Transport \<Rightarrow> server_flags \<Rightarrow> 't FetcherVars \<Rightarrow> bool" where
  "in_force dt f vars \<longleftrightarrow>
     MaxAttempts vars = bundleMaxAttempts f \<and> Timeout vars = bundleTimeout f \<and> Delay vars = bundleDelay f \<and>
     RetryThrottled vars = bundleRetryThrottled f \<and> TraceEnabled vars = registryTrace f \<and>
     DialTimeoutOverride vars = registryDialTimeout f \<and>
     TLSHandshakeTimeoutOverride vars = registryTLSHandshakeTimeout f \<and>
     ResponseHeaderTimeoutOverride vars = registryResponseHeaderTimeout f \<and>
     DialKeepAlive vars = registryDialKeepAlive f \<and> IdleConnTimeout vars = registryIdleConnTimeout f \<and>
     MaxIdleConns vars = registryMaxIdleConns f \<and> MaxIdleConnsPerHost vars = registryMaxIdleConnsPerHost f \<and>
     transport_current dt vars"

definition config_labels :: "server_flags \<Rightarrow> labels" where
  "config_labels f = [duration_String (bundleTimeout f), Itoa (bundleMaxAttempts f),
     duration_String (bundleDelay f), FormatBool (bundleRetryThrottled f)]"

lemma configure_invalid: "\<not> valid_flags f \<Longrightarrow> \<exists>err vars'. configure dt f vars w = (Some err, vars', w)"
  by (auto simp: valid_flags_def configure_def configureRegistryPool_def configureBundleFetcher_def)

lemma configure_valid:
  assumes "configure dt f vars w = (None, vars', w')"
  shows "valid_flags f" and "in_force dt f vars'"
    and "w' = meter (SetConfigInfo (Timeout vars') (MaxAttempts vars') (Delay vars') (RetryThrottled vars')) w"
proof -
  show "valid_flags f" using assms configure_invalid [of f dt vars w] by force
  from assms obtain v1 v2 where pool: "configureRegistryPool (registryDialKeepAlive f) (registryIdleConnTimeout f)
      (registryMaxIdleConns f) (registryMaxIdleConnsPerHost f) vars = (None, v1)"
    and fetch: "configureBundleFetcher dt (bundleMaxAttempts f) (bundleTimeout f) (bundleDelay f)
         (registryDialTimeout f) (registryTLSHandshakeTimeout f) (registryResponseHeaderTimeout f) v1 = (None, v2)"
    and vars': "vars' = v2\<lparr>RetryThrottled := bundleRetryThrottled f, TraceEnabled := registryTrace f\<rparr>"
    by (auto simp: configure_def Let_def split: prod.splits option.splits)
  from pool fetch vars' show "in_force dt f vars'"
    by (auto simp: in_force_def configureRegistryPool_def configureBundleFetcher_def transport_current_def
        ConfigureTransport_def intro!: newRegistryTransport_cong split: if_splits option.splits)
  from assms show "w' = meter (SetConfigInfo (Timeout vars') (MaxAttempts vars') (Delay vars') (RetryThrottled vars')) w"
    by (auto simp: configure_def Let_def split: prod.splits option.splits)
qed

lemma start_injector_metrics:
  assumes "start_injector X K C sched ctx f w = (r, w')"
  shows "metrics w' = metrics w" and "r = Inr lp \<Longrightarrow> updateCABundle f \<longleftrightarrow> lp \<noteq> None"
  using assms
  by (auto simp: start_injector_def getK8sClient_def split: if_splits prod.splits sum.splits option.splits
      dest!: call_frame(1) Start_metrics)

lemma startup_success:
  assumes "startup S B ReadFile githubRoot A R dt X K C sched ctx f vars w = (Inr s, vars', w')"
  obtains w1 V w2 lp w3 where "configure dt f vars w = (None, vars', w1)"
    and "CreateVerifier S ReadFile githubRoot (server_cfg f) w1 = (Inr V, w2)"
    and "start_injector X K C sched ctx f w2 = (Inr lp, w3)"
    and "srv_provider s = default_provider S B V A (srv_keychain s) R sched vars'" and "srv_injector s = lp"
    and "\<exists>kc. cached (srv_keychain s) = Some (Some kc)"
    and "build (srv_keychain s) = buildKeychain A (flag_ns f) [flag_ips f]"
    and "\<exists>d. metrics w' = KeychainBuildTimer_update ((#) d) (metrics w3)"
proof -
  from assms obtain w1 V w2 lp w3 where steps: "configure dt f vars w = (None, vars', w1)"
    "CreateVerifier S ReadFile githubRoot (server_cfg f) w1 = (Inr V, w2)"
    "start_injector X K C sched ctx f w2 = (Inr lp, w3)"
    by (auto simp: startup_def Let_def split: prod.splits option.splits sum.splits)
  obtain k0 w4 where k0: "NewKeyChainProvider A (flag_ns f) [flag_ips f] (keychainRefresh f) w3 = (k0, w4)" by force
  obtain kc w5 where kc: "Keychain.Start ctx k0 w4 = (kc, w5)" by force
  have m: "metrics w4 = metrics w3" using k0 by (auto simp: NewKeyChainProvider_def)
  from kc k0 have "Keychain.Start ctx (fst (NewKeyChainProvider A (flag_ns f) [flag_ips f] (keychainRefresh f) w3)) w4 =
      (kc, w5)" by simp
  note started = Start_cached [OF this]
  from assms steps k0 kc have s: "srv_keychain s = kc" "metrics w' = metrics w5"
    "srv_provider s = default_provider S B V A kc R sched vars'" "srv_injector s = lp"
    by (auto simp: startup_def Let_def)
  show thesis by (rule that [OF steps]) (use s started m in simp_all)
qed


end
