(* ===== verification/Metric_Series.thy ===== *)
theory Metric_Series
  imports Default_Provider
begin

text \<open>
  The series that requests create in the metrics of pkg/metrics/prom.go. A Prometheus vector has one
  series per list of label values; a list of the wrong length makes the client panic, and labels taken
  from unbounded data make the number of series grow without bound. The theory declares the labels of
  every collector, and shows that no request, however it ends, creates a series outside the declared
  and bounded ones, and that the attestation counters stay in balance on every path.
\<close>

section \<open>The declared series\<close>

text \<open>The pull timer: a success with its number of attempts, or a failure with its classification.\<close>

definition pull_labels :: "int \<Rightarrow> labels list" where
  "pull_labels maxAttempts =
     map (\<lambda>n. [''success'', ''none'', ''none'', Itoa n]) [1..maxAttempts] @
     concat (map (\<lambda>reason. concat (map (\<lambda>step. map (\<lambda>n. [''failure'', reason, step, Itoa n]) [0..max 0 maxAttempts])
       known_steps)) known_kinds)"

definition request_labels :: "labels list" where
  "request_labels =
     concat (map (\<lambda>images. [[images, ''success''], [images, ''failure'']])
       (map (\<lambda>i. Itoa (int i)) [0..<11] @ [''10+'']))"

definition series_ok :: "int \<Rightarrow> Metrics \<Rightarrow> bool" where
  "series_ok maxAttempts m \<longleftrightarrow>
     (\<forall>ls. AttestationsPullTimer m ls \<noteq> [] \<longrightarrow> ls \<in> set (pull_labels maxAttempts)) \<and>
     (\<forall>ls. AttestationsRetrieveFail m ls \<noteq> 0 \<longrightarrow>
        (\<exists>reason \<in> set known_kinds. \<exists>step \<in> set known_steps. \<exists>status. ls = [reason, step, Itoa status])) \<and>
     (\<forall>ls. AttestationsReqTimer m ls \<noteq> [] \<longrightarrow> ls \<in> set request_labels) \<and>
     (\<forall>ls. ConfigInfo m ls \<noteq> None \<longrightarrow> length ls = length configInfoLabels)"

lemma length_pull_labels: "0 \<le> m \<Longrightarrow> int (length (pull_labels m)) = m + 55 * (m + 1)"
  by (simp add: pull_labels_def known_kinds_def known_steps_def length_concat)

lemma length_request_labels: "length request_labels = 24"
  by code_simp

lemma series_ok_new: "series_ok m new_metrics"
  by (simp add: series_ok_def new_metrics_def)

text \<open>Every series has as many label values as its collector declares.\<close>

lemma pull_labels_arity: "ls \<in> set (pull_labels m) \<Longrightarrow> length ls = length pullTimerLabels"
  by (auto simp: pull_labels_def pullTimerLabels_def)

lemma request_labels_arity: "ls \<in> set request_labels \<Longrightarrow> length ls = length reqTimerLabels"
  by (auto simp: request_labels_def reqTimerLabels_def simp del: upt_rec_numeral)

lemma series_ok_arity:
  assumes "series_ok m mm"
  shows "AttestationsPullTimer mm ls \<noteq> [] \<Longrightarrow> length ls = length pullTimerLabels"
    and "AttestationsRetrieveFail mm ls \<noteq> 0 \<Longrightarrow> length ls = length retrieveFailLabels"
    and "AttestationsReqTimer mm ls \<noteq> [] \<Longrightarrow> length ls = length reqTimerLabels"
    and "ConfigInfo mm ls \<noteq> None \<Longrightarrow> length ls = length configInfoLabels"
proof -
  show "length ls = length pullTimerLabels" if "AttestationsPullTimer mm ls \<noteq> []"
    using assms that pull_labels_arity unfolding series_ok_def by blast
  show "length ls = length reqTimerLabels" if "AttestationsReqTimer mm ls \<noteq> []"
    using assms that request_labels_arity unfolding series_ok_def by blast
  show "length ls = length configInfoLabels" if "ConfigInfo mm ls \<noteq> None"
    using assms that unfolding series_ok_def by blast
  assume "AttestationsRetrieveFail mm ls \<noteq> 0"
  then obtain reason step status where "ls = [reason, step, Itoa status]"
    using assms unfolding series_ok_def by blast
  then show "length ls = length retrieveFailLabels" by (simp add: retrieveFailLabels_def)
qed

text \<open>The number of series of the two timers is bounded by the configuration alone.\<close>

lemma card_subset_list: "A \<subseteq> set xs \<Longrightarrow> card A \<le> length xs"
  by (meson card_length card_mono finite_set le_trans)

lemma series_ok_card:
  assumes "series_ok m mm" and "0 \<le> m"
  shows "int (card {ls. AttestationsPullTimer mm ls \<noteq> []}) \<le> m + 55 * (m + 1)"
    and "card {ls. AttestationsReqTimer mm ls \<noteq> []} \<le> 24"
proof -
  from assms(1) have "{ls. AttestationsPullTimer mm ls \<noteq> []} \<subseteq> set (pull_labels m)"
    and "{ls. AttestationsReqTimer mm ls \<noteq> []} \<subseteq> set request_labels"
    unfolding series_ok_def by blast+
  then have "card {ls. AttestationsPullTimer mm ls \<noteq> []} \<le> length (pull_labels m)"
    "card {ls. AttestationsReqTimer mm ls \<noteq> []} \<le> length request_labels"
    by (simp_all add: card_subset_list)
  with length_pull_labels [OF assms(2)] length_request_labels
  show "int (card {ls. AttestationsPullTimer mm ls \<noteq> []}) \<le> m + 55 * (m + 1)"
    and "card {ls. AttestationsReqTimer mm ls \<noteq> []} \<le> 24" by linarith+
qed

section \<open>The counters\<close>

text \<open>Attestations retrieved that were counted neither as verified nor as failed.\<close>

definition uncounted :: "Metrics \<Rightarrow> int" where
  "uncounted m = int (AttestationsRetrieved m) - int (AttestationsVerOk m) - int (AttestationsVerFail m)"

text \<open>The updates that the code makes, one at a time.\<close>

lemma series_ok_update [simp]:
  "series_ok m (AttestationsRetrieved_update g mm) = series_ok m mm"
  "series_ok m (AttestationsMissing_update g mm) = series_ok m mm"
  "series_ok m (AttestationsVerOk_update g mm) = series_ok m mm"
  "series_ok m (AttestationsVerFail_update g mm) = series_ok m mm"
  "series_ok m (AttestationsVerTimer_update h mm) = series_ok m mm"
  "series_ok m (KeychainBuildTimer_update h mm) = series_ok m mm"
  "series_ok m (KeychainRefreshFail_update g mm) = series_ok m mm"
  "series_ok m (CABundleRefreshFail_update g mm) = series_ok m mm"
  by (simp_all add: series_ok_def)

lemma series_ok_pull:
  "series_ok m mm \<Longrightarrow> ls \<in> set (pull_labels m) \<Longrightarrow> series_ok m (AttestationsPullTimer_update (observe_vec ls d) mm)"
  by (simp add: series_ok_def observe_vec_def)

lemma series_ok_fail:
  "series_ok m mm \<Longrightarrow> reason \<in> set known_kinds \<Longrightarrow> step \<in> set known_steps \<Longrightarrow>
   series_ok m (AttestationsRetrieveFail_update (inc_vec [reason, step, Itoa status]) mm)"
  by (simp add: series_ok_def inc_vec_def)

lemma series_ok_request:
  "series_ok m mm \<Longrightarrow> ls \<in> set request_labels \<Longrightarrow> series_ok m (AttestationsReqTimer_update (observe_vec ls d) mm)"
  by (simp add: series_ok_def observe_vec_def)

lemma uncounted_update [simp]:
  "uncounted (AttestationsRetrieved_update (\<lambda>n. n + b) mm) = uncounted mm + int b"
  "uncounted (AttestationsVerOk_update (\<lambda>n. n + b) mm) = uncounted mm - int b"
  "uncounted (AttestationsVerFail_update (\<lambda>n. n + b) mm) = uncounted mm - int b"
  "uncounted (AttestationsMissing_update g mm) = uncounted mm"
  "uncounted (AttestationsVerTimer_update h mm) = uncounted mm"
  "uncounted (AttestationsPullTimer_update t mm) = uncounted mm"
  "uncounted (AttestationsReqTimer_update t mm) = uncounted mm"
  "uncounted (AttestationsRetrieveFail_update u mm) = uncounted mm"
  "uncounted (KeychainBuildTimer_update h mm) = uncounted mm"
  "uncounted (KeychainRefreshFail_update g mm) = uncounted mm"
  "uncounted (CABundleRefreshFail_update g mm) = uncounted mm"
  by (simp_all add: uncounted_def)

lemma uncounted_none [simp]: "uncounted (AttestationsRetrieved_update (\<lambda>n. n) mm) = uncounted mm"
  by (simp add: uncounted_def)

section \<open>Stronger interfaces\<close>

text \<open>A verifier that never returns an error, and a fetcher that bounds its number of attempts.\<close>

locale infallible_verifier = bundle_verifier Verify for Verify :: "('x, 'b, 'v) verify_op" +
  assumes verify_no_error: "Verify bs (Some h) w \<noteq> (Ret (Inl err), w')"

locale counted_fetcher = bundle_fetcher Fetch for Fetch :: "('x, 'r, 'o, 'b) fetch_op" +
  fixes maxAttempts :: int
  assumes success_attempts: "Fetch ctx ref ro w = (Ret (r, None), w') \<Longrightarrow> Attempts r \<in> {1..maxAttempts}"
    and failure_attempts: "Fetch ctx ref ro w = (Ret (r, Some err), w') \<Longrightarrow>
      snd (snd (Classify err)) \<in> {0..max 0 maxAttempts}"

interpretation multi_infallible: infallible_verifier "Multi_Verify S B V"
proof
  fix bs h w err w'
  show "Multi_Verify S B V bs (Some h) w \<noteq> (Ret (Inl err), w')"
    using Multi_loop_verdicts [of S B V h bs "[]" None w] by (auto simp: Multi_Verify_def returned_def)
qed

interpretation default_counted: counted_fetcher "DefaultBundleFetcher_BundleFromName R sched vars" "MaxAttempts vars"
proof
  fix ctx ref ro w r w'
  assume "DefaultBundleFetcher_BundleFromName R sched vars ctx ref ro w = (Ret (r, None), w')"
  then show "Attempts r \<in> {1..MaxAttempts vars}"
    by (auto simp: BundleFromName_def elim!: default_fetch_cases dest!: retryBundle_accounting)
next
  fix ctx ref ro w r err w'
  assume "DefaultBundleFetcher_BundleFromName R sched vars ctx ref ro w = (Ret (r, Some err), w')"
  then obtain oe where "BundleFromName R sched vars ctx ref ro w = (Ret (r, oe), w')" "Some err = map_option FetchErr oe"
    by (rule default_fetch_cases)
  moreover from this obtain fe where "oe = Some fe" "err = FetchErr fe" by (cases oe) auto
  ultimately have "BundleFromName R sched vars ctx ref ro w = (Ret (r, Some fe), w')" "err = FetchErr fe" by auto
  then show "snd (snd (Classify err)) \<in> {0..max 0 (MaxAttempts vars)}"
    using retryBundle_accounting by (fastforce simp: BundleFromName_def Classify_def)
qed

locale audited_parts = provider_parts v k f + infallible_verifier v + counted_fetcher f maxAttempts
  for v :: "('x, 'b, 'v) verify_op" and k :: "('x, 'k) keychain_op" and f :: "('x, 'r, 'o, 'b) fetch_op"
    and maxAttempts :: int
begin

text \<open>What every step of a request keeps.\<close>

abbreviation kept :: "Metrics \<Rightarrow> Metrics \<Rightarrow> bool" where
  "kept m m' \<equiv> (series_ok maxAttempts m \<longrightarrow> series_ok maxAttempts m') \<and> uncounted m' = uncounted m \<and>
     ConfigInfo m' = ConfigInfo m"

lemma fetch_failed_kept:
  assumes "fetch_failed E reqLog imgLog n i key results err dur traced w = (r, se, w')"
    and "f ctx ref ro w0 = (Ret (result, Some err), w1)"
  shows "kept (metrics w) (metrics w')"
proof -
  obtain reason step attempts where c: "Classify err = (reason, step, attempts)" by (metis prod_cases3)
  with F.fetch_error [OF assms(2)] failure_attempts [OF assms(2)]
  have "reason \<in> set known_kinds" "step \<in> set known_steps" "attempts \<in> set [0..max 0 maxAttempts]" by auto
  then have "[''failure'', reason, step, Itoa attempts] \<in> set (pull_labels maxAttempts)"
    by (force simp: pull_labels_def)
  with assms(1) c \<open>reason \<in> _\<close> \<open>step \<in> _\<close> show ?thesis
    by (auto simp: fetch_failed_def Let_def intro!: series_ok_pull series_ok_fail split: if_splits)
qed

lemma verify_bundles_kept:
  assumes "verify_bundles (provider_New v k f opts) E imgLog key result w = (r, se, w')" and "Hash result \<noteq> None"
  shows "(series_ok maxAttempts (metrics w) \<longrightarrow> series_ok maxAttempts (metrics w')) \<and>
    uncounted (metrics w') = uncounted (metrics w) - int (length (Bundles result)) \<and>
    ConfigInfo (metrics w') = ConfigInfo (metrics w)"
proof -
  obtain h where h: "Hash result = Some h" using assms(2) by blast
  obtain x w1 where run: "v (Bundles result) (Some h) w = (x, w1)" by force
  have m: "metrics w1 = metrics w" using V.verify_metrics [OF run] .
  from V.verify_returns [of "Some h" "Bundles result" w] run verify_no_error [of "Bundles result" h w]
  obtain res where x: "x = Ret (Inr res)" by (cases x; cases "case x of Ret y \<Rightarrow> y") (auto split: go.splits)
  with run V.verify_at_most have "length res \<le> length (Bundles result)" by blast
  with assms(1) h run x m show ?thesis
    by (auto simp: verify_bundles_def provider_New_def Let_def uncounted_def split: if_splits)
qed

lemma fetched_kept:
  assumes "fetched (provider_New v k f opts) E imgLog key result dur w = (r, se, w')"
    and "f ctx ref ro w0 = (Ret (result, None), w1)"
  shows "kept (metrics w) (metrics w')"
proof -
  have labels: "[''success'', ''none'', ''none'', Itoa (Attempts result)] \<in> set (pull_labels maxAttempts)"
    using success_attempts [OF assms(2)] by (auto simp: pull_labels_def)
  show ?thesis
  proof (cases "Bundles result = []")
    case True
    with assms(1) labels show ?thesis
      by (auto simp: fetched_def Let_def intro!: series_ok_pull)
  next
    case False
    from assms(1) False obtain w2 where
      vb: "verify_bundles (provider_New v k f opts) E imgLog key result w2 = (r, se, w')"
      and m2: "metrics w2 = AttestationsRetrieved_update (\<lambda>n. n + length (Bundles result))
        (AttestationsPullTimer_update (observe_vec [''success'', ''none'', ''none'', Itoa (Attempts result)] dur) (metrics w))"
      by (auto simp: fetched_def Let_def)
    from verify_bundles_kept [OF vb F.fetch_hash [OF assms(2) False]] m2 labels show ?thesis
      by (auto intro!: series_ok_pull)
  qed
qed

lemma validate_image_kept:
  assumes "validate_image (provider_New v k f opts) E ctx ro reqLog n i key results w = (r, se, w')"
  shows "kept (metrics w) (metrics w')"
proof (cases "ParseReference E key")
  case (Inl err)
  with assms show ?thesis by (auto simp: validate_image_def Let_def)
next
  case (Inr ref)
  with assms show ?thesis
  proof (cases rule: validate_image_fetch)
    case (failed imgLog result err dur traced w1 w2)
    with fetch_failed_kept [OF failed(1,2)] show ?thesis by simp
  next
    case (success imgLog result dur w1 w2)
    with fetched_kept [OF success(1,2)] show ?thesis by simp
  qed auto
qed

lemma validate_images_kept:
  assumes "validate_images (provider_New v k f opts) E ctx ro reqLog n i keys results w = (r, se, w')"
  shows "kept (metrics w) (metrics w')"
  using assms
proof (induction keys arbitrary: i results w)
  case (Cons key keys)
  obtain r1 se1 w1 where
    one: "validate_image (provider_New v k f opts) E ctx ro reqLog n i key results w = (r1, se1, w1)"
    by (metis prod_cases3)
  from Cons one validate_image_kept [OF one] show ?case
    by (auto split: go.splits image_end.splits)
qed auto

text \<open>A request, however it ends.\<close>

lemma Validate_kept:
  assumes "Validate (provider_New v k f opts) E ctx keys w = (r, w')"
  shows "kept (metrics w) (metrics w')"
proof -
  obtain r1 se w1 where body: "validate_body (provider_New v k f opts) E ctx keys w = (r1, se, w1)"
    by (metis prod_cases3)
  from body obtain ro reqLog w0 where m0: "metrics w0 = metrics w"
    and run: "validate_images (provider_New v k f opts) E ctx ro reqLog (int (length keys)) 0 keys [] w0 =
      (r1, se, w1)" by (rule validate_body_images)
  have "[imageCountLabel (int (length keys)), if se then ''failure'' else ''success''] \<in> set request_labels"
    using imageCountLabel_range [of "length keys"] by (auto simp: request_labels_def simp del: upt_rec_numeral)
  with validate_images_kept [OF run] m0 assms body show ?thesis
    by (auto simp: Validate_def intro!: series_ok_request)
qed

end

section \<open>The provider of the server\<close>

interpretation audited: audited_parts "Multi_Verify S B V" "KeyChain A kc"
  "DefaultBundleFetcher_BundleFromName R sched vars" "MaxAttempts vars"
  by unfold_locales

lemma default_provider_kept:
  assumes "Validate (default_provider S B V A kc R sched vars) E ctx keys w = (r, w')"
  shows "(series_ok (MaxAttempts vars) (metrics w) \<longrightarrow> series_ok (MaxAttempts vars) (metrics w')) \<and>
    uncounted (metrics w') = uncounted (metrics w) \<and> ConfigInfo (metrics w') = ConfigInfo (metrics w)"
  using assms unfolding default_provider_def by (rule audited.Validate_kept)

text \<open>
  What a request does to the metrics, however it ends, also when it panics or stops early with a
  system error: every series it creates belongs to the declared ones (the outcomes, the taxonomy's
  reasons and steps, at most the configured number of attempts, at most twelve image counts), so no
  data of the request can make the number of series grow; and every attestation it counted as
  retrieved it also counted as verified or as failed.
\<close>

theorem Validate_series:
  assumes "Validate (default_provider S B V A kc R sched vars) E ctx keys w = (r, w')"
    and "series_ok (MaxAttempts vars) (metrics w)"
  shows "series_ok (MaxAttempts vars) (metrics w') \<and>
    int (AttestationsRetrieved (metrics w')) - int (AttestationsRetrieved (metrics w)) =
      (int (AttestationsVerOk (metrics w')) - int (AttestationsVerOk (metrics w))) +
      (int (AttestationsVerFail (metrics w')) - int (AttestationsVerFail (metrics w)))"
  using default_provider_kept [OF assms(1)] assms(2) by (auto simp: uncounted_def)

theorem Validate_series_witness:
  "\<exists>p w'. Validate (deployed False empty_image_refs) sample_env Background [''41''] (start_world ()) = (Panic p, w') \<and>
     series_ok 3 (metrics w')"
proof -
  obtain p w' where run: "Validate (deployed False empty_image_refs) sample_env Background [''41'']
      (start_world ()) = (Panic p, w')"
    by (simp add: deployed_eval empty_layers_fetch Let_def)
  have "series_ok 3 (metrics (start_world ()))" using series_ok_new by simp
  with Validate_series [OF run [unfolded deployed_def]] run show ?thesis by (auto simp: initial_vars_sel)
qed

end
