(* ===== verification/Handler_Steps.thy ===== *)
theory Handler_Steps
  imports Server_Main Metric_Series
begin

text \<open>
  The request handler in small steps. Handlers run concurrently, each in its own goroutine: between two
  calls of a handler to the outside, other goroutines may change the clock, the metrics, the outside
  and the cached keychain. Here a handler is a state machine with one step per image; the phases keep
  what the handler has on its stack, and each step starts in whatever world it finds. The machine
  computes what \<open>serve_mux\<close>, the handler as one function, computes; and its responses meet the
  specification by verdicts also when the world changes between its steps.
\<close>

section \<open>Requests\<close>

text \<open>
  A request as the multiplexer dispatches it: its path, what the handler reads of it, and what the
  outside provides while it is handled.
\<close>

record ('x, 'r, 'v) Request =
  rq_path :: string
  rq_http :: "('x, 'v) HttpEnv"
  rq_env :: "('x, 'r) ProviderEnv"
  rq_Context :: Context

text \<open>The two patterns of the multiplexer; any path but \<^verbatim>\<open>/readyz\<close> goes to the handler of \<^verbatim>\<open>/\<close>.\<close>

definition serve_mux ::
  "('x, 'k, 'r, 'o, 'b, 'v) Provider \<Rightarrow> ('x, 'r, 'v) Request \<Rightarrow> 'x world \<Rightarrow> 'v ResponseWriter go \<times> 'x world" where
  "serve_mux P rq w =
     (if rq_path rq = ''/readyz'' then (Ret (readyz fresh_writer), w)
      else validate P (rq_env rq) (rq_http rq) (rq_Context rq) fresh_writer w)"

section \<open>Phases and steps\<close>

text \<open>
  Where a handler is: before it has read anything; at the start of \<^verbatim>\<open>Validate\<close>, with the instant it
  started and the keys; in the loop over the images, with the number of images, the remote options, the
  attributes of the request's log lines, the index, the keys left and the items so far; at the return
  of \<^verbatim>\<open>Validate\<close>, before its deferred function, with the result and \<^verbatim>\<open>systemErr\<close>; before the response is
  sent; and its two ends.
\<close>

datatype ('o, 'v) phase =
    Received
  | Validating instant "string list"
  | Looping instant nat "'o list" attrs int "string list" "'v Item list"
  | Leaving instant nat "'v ProviderResponse go" bool
  | Responding "'v ProviderResponse"
  | Answered "'v ResponseWriter"
  | Aborted string

fun finished :: "('o, 'v) phase \<Rightarrow> bool" where
  "finished (Answered rw) = True"
| "finished (Aborted p) = True"
| "finished _ = False"

fun handler_step ::
  "('x, 'k, 'r, 'o, 'b, 'v) Provider \<Rightarrow> ('x, 'r, 'v) Request \<Rightarrow> ('o, 'v) phase \<Rightarrow> 'x world \<Rightarrow>
   ('o, 'v) phase \<times> 'x world" where
  "handler_step P rq Received w =
     (if rq_path rq = ''/readyz'' then (Answered (readyz fresh_writer), w)
      else if req_Method (rq_http rq) \<noteq> ''POST'' then (Responding (ErrorResponse ''only POST is allowed''), w)
      else case call (req_Body (rq_http rq)) w of
        (Inl err, w) \<Rightarrow> (Responding (ErrorResponse (''unable to read request body: '' @ Error err)), w)
      | (Inr requestBody, w) \<Rightarrow>
          (case Unmarshal (rq_http rq) requestBody of
             Inl err \<Rightarrow> (Responding (ErrorResponse (''unable to unmarshal request body: '' @ Error err)), w)
           | Inr keys \<Rightarrow> (Validating (clock w) keys, w)))"
| "handler_step P rq (Validating t keys) w =
     (let (requestID, w) = call (NewString (rq_env rq)) w;
          reqLog = [(''request_id'', LStr requestID), (''image_count'', LInt (int (length keys)))];
          w = slog LevelInfo ''validate: received request'' reqLog w
      in case p_kc P (rq_Context rq) w of
           (Inl err, w) \<Rightarrow>
             (Leaving t (length keys) (Ret (ErrorResponse (''ERROR: KeyChain: '' @ Error err))) True,
              slog LevelError ''validate: error retrieving key chain'' (reqLog @ [(''error'', LErr (Some err))]) w)
         | (Inr kc, w) \<Rightarrow> (Looping t (length keys) (p_GetRemoteOptions P kc) reqLog 0 keys [], w))"
| "handler_step P rq (Looping t n ro reqLog i [] results) w =
     (Leaving t n (Ret \<lparr>resp_APIVersion = apiVersion, resp_Kind = ''ProviderResponse'', resp_Items = results,
        resp_SystemError = ''''\<rparr>) False, w)"
| "handler_step P rq (Looping t n ro reqLog i (key # keys) results) w =
     (case validate_image P (rq_env rq) (rq_Context rq) ro reqLog (int n) i key results w of
        (Panic m, systemErr, w) \<Rightarrow> (Leaving t n (Panic m) systemErr, w)
      | (Ret (Return resp), systemErr, w) \<Rightarrow> (Leaving t n (Ret resp) systemErr, w)
      | (Ret (Continue item), systemErr, w) \<Rightarrow> (Looping t n ro reqLog (i + 1) keys (results @ [item]), w))"
| "handler_step P rq (Leaving t n r systemErr) w =
     (case r of Ret resp \<Rightarrow> Responding resp | Panic m \<Rightarrow> Aborted m,
      meter (AttestationsReqTimer_update
        (observe_vec [imageCountLabel (int n), if systemErr then ''failure'' else ''success''] (clock w - t))) w)"
| "handler_step P rq (Responding resp) w =
     (case sendResponse (rq_http rq) fresh_writer resp w of (rw, w) \<Rightarrow> (Answered rw, w))"
| "handler_step P rq (Answered rw) w = (Answered rw, w)"
| "handler_step P rq (Aborted m) w = (Aborted m, w)"

section \<open>The machine computes the handler\<close>

text \<open>Runs of one handler without interference.\<close>

inductive handler_runs ::
  "('x, 'k, 'r, 'o, 'b, 'v) Provider \<Rightarrow> ('x, 'r, 'v) Request \<Rightarrow> ('o, 'v) phase \<times> 'x world \<Rightarrow>
   ('o, 'v) phase \<times> 'x world \<Rightarrow> bool"
  for P rq where
  stop: "finished ph \<Longrightarrow> handler_runs P rq (ph, w) (ph, w)"
| step: "\<not> finished ph \<Longrightarrow> handler_runs P rq (handler_step P rq ph w) c \<Longrightarrow> handler_runs P rq (ph, w) c"

lemma handler_runs_deterministic: "handler_runs P rq c c1 \<Longrightarrow> handler_runs P rq c c2 \<Longrightarrow> c1 = c2"
  by (induction rule: handler_runs.induct) (auto elim: handler_runs.cases)

lemma handler_runs_respond:
  "sendResponse (rq_http rq) fresh_writer resp w = (rw, w') \<Longrightarrow>
   handler_runs P rq (Responding resp, w) (Answered rw, w')"
  by (rule handler_runs.step) (auto intro: handler_runs.stop)

lemma handler_runs_loop:
  assumes "validate_images P (rq_env rq) (rq_Context rq) ro reqLog (int n) i keys results w = (r, se, w1)"
    and "handler_runs P rq (Leaving t n r se, w1) c"
  shows "handler_runs P rq (Looping t n ro reqLog i keys results, w) c"
  using assms(1)
proof (induction keys arbitrary: i results w)
  case Nil
  with assms(2) show ?case by (intro handler_runs.step) auto
next
  case (Cons key keys)
  with assms(2) show ?case
    by (intro handler_runs.step) (auto split: prod.splits go.splits image_end.splits)
qed

fun handler_end :: "'v ResponseWriter go \<Rightarrow> ('o, 'v) phase" where
  "handler_end (Ret rw) = Answered rw"
| "handler_end (Panic m) = Aborted m"

lemma handler_end_eq: "handler_end r = handler_end r' \<Longrightarrow> r = r'"
  by (cases r; cases r') auto

lemma handler_runs_Validate:
  assumes "Validate P (rq_env rq) (rq_Context rq) keys w = (r, w1)"
    and "handler_runs P rq (case r of Ret resp \<Rightarrow> Responding resp | Panic m \<Rightarrow> Aborted m, w1) c"
  shows "handler_runs P rq (Validating (clock w) keys, w) c"
proof -
  obtain se w2 where body: "validate_body P (rq_env rq) (rq_Context rq) keys w = (r, se, w2)"
    and w1: "w1 = meter (AttestationsReqTimer_update (observe_vec [imageCountLabel (int (length keys)),
      if se then ''failure'' else ''success''] (clock w2 - clock w))) w2"
    using assms(1) by (auto simp: Validate_def split: prod.splits)
  have leave: "handler_runs P rq (Leaving (clock w) (length keys) r se, w2) c"
    using assms(2) by (intro handler_runs.step) (simp_all add: w1)
  obtain rid w3 where id: "call (NewString (rq_env rq)) w = (rid, w3)" by force
  define reqLog where "reqLog = [(''request_id'', LStr rid), (''image_count'', LInt (int (length keys)))]"
  obtain kr w4 where kr: "p_kc P (rq_Context rq) (slog LevelInfo ''validate: received request'' reqLog w3) = (kr, w4)"
    by force
  show ?thesis
  proof (rule handler_runs.step)
    show "handler_runs P rq (handler_step P rq (Validating (clock w) keys) w) c"
    proof (cases kr)
      case (Inl err)
      with body id kr leave show ?thesis by (simp add: validate_body_def Let_def reqLog_def)
    next
      case (Inr kc)
      with body id kr have "validate_images P (rq_env rq) (rq_Context rq) (p_GetRemoteOptions P kc) reqLog
          (int (length keys)) 0 keys [] w4 = (r, se, w2)"
        by (simp add: validate_body_def Let_def reqLog_def)
      from handler_runs_loop [OF this leave] id kr Inr show ?thesis by (simp add: Let_def reqLog_def)
    qed
  qed simp
qed

lemma handler_runs_serve:
  assumes "serve_mux P rq w = (r, w')"
  shows "handler_runs P rq (Received, w) (handler_end r, w')"
proof (rule handler_runs.step)
  show "handler_runs P rq (handler_step P rq Received w) (handler_end r, w')"
  proof (cases "rq_path rq = ''/readyz'' \<or> req_Method (rq_http rq) \<noteq> ''POST''")
    case True
    with assms show ?thesis
      by (auto simp: serve_mux_def validate_def split: prod.splits intro!: handler_runs.stop handler_runs_respond)
  next
    case False
    obtain b w1 where b: "call (req_Body (rq_http rq)) w = (b, w1)" by force
    show ?thesis
    proof (cases "\<exists>body keys. b = Inr body \<and> Unmarshal (rq_http rq) body = Inr keys")
      case True
      then obtain body keys where body: "b = Inr body" "Unmarshal (rq_http rq) body = Inr keys" by blast
      obtain x w2 where val: "Validate P (rq_env rq) (rq_Context rq) keys w1 = (x, w2)" by force
      have "handler_runs P rq (case x of Ret resp \<Rightarrow> Responding resp | Panic m \<Rightarrow> Aborted m, w2) (handler_end r, w')"
        using assms False b body val
        by (cases x) (auto simp: serve_mux_def validate_def split: prod.splits
            intro!: handler_runs.stop handler_runs_respond)
      from handler_runs_Validate [OF val this] False b body show ?thesis by simp
    next
      case other: False
      with assms False b show ?thesis
        by (auto simp: serve_mux_def validate_def split: prod.splits sum.splits intro!: handler_runs_respond)
    qed
  qed
qed simp


section \<open>The specification, with interference\<close>

text \<open>Verdicts do not depend on the keychain.\<close>

lemma image_verdict_kc: "image_verdict (P\<lparr>p_kc := k\<rparr>) E ctx ro key v = image_verdict P E ctx ro key v"
  by (auto elim!: image_verdict.cases intro: image_verdict.intros)

text \<open>
  What a response says: the request was refused, or the response is the one that the verdicts of the
  images determine, which are decided one after the other, in whatever worlds.
\<close>

definition response_ok ::
  "('x, 'k, 'r, 'o, 'b, 'v) Provider \<Rightarrow> ('x, 'r, 'v) Request \<Rightarrow> 'v ProviderResponse \<Rightarrow> bool" where
  "response_ok P rq resp \<longleftrightarrow>
     (\<exists>msg. msg \<noteq> '''' \<and> resp = ErrorResponse msg) \<or>
     req_Method (rq_http rq) = ''POST'' \<and>
     (\<exists>body keys ro vs. Unmarshal (rq_http rq) body = Inr keys \<and>
        decided P (rq_env rq) (rq_Context rq) ro keys vs \<and> resp = respond (rq_env rq) (zip keys vs) [])"

text \<open>How far the loop over the images has come.\<close>

definition progress ::
  "('x, 'k, 'r, 'o, 'b, 'v) Provider \<Rightarrow> ('x, 'r) ProviderEnv \<Rightarrow> Context \<Rightarrow> 'o list \<Rightarrow> string list \<Rightarrow>
   string list \<Rightarrow> 'v Item list \<Rightarrow> bool" where
  "progress P E ctx ro keys rest results \<longleftrightarrow>
     (\<exists>past vs. keys = past @ rest \<and> list_all2 (image_verdict P E ctx ro) past vs \<and>
        (\<forall>v \<in> set vs. \<not> aborts v) \<and>
        (\<forall>vs'. respond E (zip rest vs') results = respond E (zip keys (vs @ vs')) []))"

lemma progress_start: "progress P E ctx ro keys keys []"
  unfolding progress_def by (intro exI [of _ "[]"]) simp

lemma progress_continue:
  assumes "progress P E ctx ro keys (key # rest) results" and "image_verdict P E ctx ro key v"
    and "verdict_end E key results v = Continue it"
  shows "progress P E ctx ro keys rest (results @ [it])"
proof -
  from assms(1) obtain past vs where p: "keys = past @ key # rest" "list_all2 (image_verdict P E ctx ro) past vs"
    "\<forall>v \<in> set vs. \<not> aborts v"
    and resp: "\<And>vs'. respond E (zip (key # rest) vs') results = respond E (zip keys (vs @ vs')) []"
    unfolding progress_def by blast
  have "respond E (zip rest vs') (results @ [it]) = respond E (zip keys ((vs @ [v]) @ vs')) []" for vs'
    using resp [of "v # vs'"] assms(3) by simp
  with p assms(2) verdict_end_Continue [OF assms(3)] show ?thesis
    unfolding progress_def
    by (intro exI [of _ "past @ [key]"] exI [of _ "vs @ [v]"]) (auto intro!: list_all2_appendI)
qed

lemma progress_done:
  assumes "progress P E ctx ro keys [] results"
  obtains vs where "decided P E ctx ro keys vs" "respond E [] results = respond E (zip keys vs) []"
proof -
  from assms obtain vs where vs: "list_all2 (image_verdict P E ctx ro) keys vs" "\<forall>v \<in> set vs. \<not> aborts v"
    and resp: "\<And>vs'. respond E (zip [] vs') results = respond E (zip keys (vs @ vs')) []"
    unfolding progress_def by auto
  from vs(1) have "length vs = length keys" by (simp add: list_all2_lengthD)
  with vs have "decided P E ctx ro keys vs" by (auto simp: decided_def dest: in_set_butlastD)
  with that resp [of "[]"] show thesis by simp
qed

lemma progress_return:
  assumes "progress P E ctx ro keys (key # rest) results" and "image_verdict P E ctx ro key v"
    and "verdict_end E key results v = Return resp"
  obtains vs where "decided P E ctx ro keys vs" "resp = respond E (zip keys vs) []"
proof -
  from assms(1) obtain past vs where p: "keys = past @ key # rest" "list_all2 (image_verdict P E ctx ro) past vs"
    "\<forall>v \<in> set vs. \<not> aborts v"
    and resp: "respond E (zip (key # rest) [v]) results = respond E (zip keys (vs @ [v])) []"
    unfolding progress_def by blast
  have "decided P E ctx ro keys (vs @ [v])"
    using p assms(2) verdict_end_Return [OF assms(3)] list_all2_lengthD [OF p(2)]
    by (auto simp: decided_def intro: list_all2_appendI)
  with that resp assms(3) show thesis by simp
qed

text \<open>The invariant of a handler.\<close>

fun phase_ok :: "('x, 'k, 'r, 'o, 'b, 'v) Provider \<Rightarrow> ('x, 'r, 'v) Request \<Rightarrow> ('o, 'v) phase \<Rightarrow> bool" where
  "phase_ok P rq Received = True"
| "phase_ok P rq (Validating t keys) =
     (req_Method (rq_http rq) = ''POST'' \<and> (\<exists>body. Unmarshal (rq_http rq) body = Inr keys))"
| "phase_ok P rq (Looping t n ro reqLog i rest results) =
     (req_Method (rq_http rq) = ''POST'' \<and>
      (\<exists>body keys. Unmarshal (rq_http rq) body = Inr keys \<and>
         progress P (rq_env rq) (rq_Context rq) ro keys rest results))"
| "phase_ok P rq (Leaving t n r systemErr) = (case r of Ret resp \<Rightarrow> response_ok P rq resp | Panic m \<Rightarrow> True)"
| "phase_ok P rq (Responding resp) = response_ok P rq resp"
| "phase_ok P rq (Answered rw) =
     (rw_status rw = Some 200 \<and>
      (if rq_path rq = ''/readyz'' then rw_sent rw = [] else \<exists>resp. rw_sent rw = [resp] \<and> response_ok P rq resp))"
| "phase_ok P rq (Aborted m) = True"

text \<open>A handler that has left the first phase was not asked for \<^verbatim>\<open>/readyz\<close>.\<close>

fun phase_routed :: "('x, 'r, 'v) Request \<Rightarrow> ('o, 'v) phase \<Rightarrow> bool" where
  "phase_routed rq Received = True"
| "phase_routed rq (Answered rw) = True"
| "phase_routed rq _ = (rq_path rq \<noteq> ''/readyz'')"

lemma handler_step_routed: "phase_routed rq ph \<Longrightarrow> phase_routed rq (fst (handler_step P rq ph w))"
  by (cases ph; cases "\<exists>t n ro l i results. ph = Looping t n ro l i [] results")
     (auto simp: Let_def neq_Nil_conv split: prod.splits sum.splits go.splits image_end.splits)

lemma response_ok_error: "msg \<noteq> '''' \<Longrightarrow> response_ok P rq (ErrorResponse msg)"
  by (auto simp: response_ok_def)

lemma loop_step_ok:
  assumes "phase_ok P rq (Looping t n ro reqLog i (key # keys) results)"
    and "handler_step P rq (Looping t n ro reqLog i (key # keys) results) w = (ph', w')"
  shows "phase_ok P rq ph'"
proof -
  obtain x se w1 where one: "validate_image P (rq_env rq) (rq_Context rq) ro reqLog (int n) i key results w = (x, se, w1)"
    by (metis prod_cases3)
  from assms(1) obtain body all where post: "req_Method (rq_http rq) = ''POST''" "Unmarshal (rq_http rq) body = Inr all"
    and prog: "progress P (rq_env rq) (rq_Context rq) ro all (key # keys) results" by auto
  show ?thesis
  proof (cases x)
    case (Panic m)
    with assms(2) one show ?thesis by auto
  next
    case (Ret e)
    with one obtain v where v: "image_verdict P (rq_env rq) (rq_Context rq) ro key v"
      "e = verdict_end (rq_env rq) key results v" by (auto elim: validate_image_verdict)
    show ?thesis
    proof (cases e)
      case (Continue it)
      with v(2) have "verdict_end (rq_env rq) key results v = Continue it" by simp
      from progress_continue [OF prog v(1) this] assms(2) one Ret Continue post show ?thesis
        by (auto intro!: exI [of _ body] exI [of _ all])
    next
      case (Return resp)
      with v(2) have "verdict_end (rq_env rq) key results v = Return resp" by simp
      from progress_return [OF prog v(1) this] obtain vs
        where "decided P (rq_env rq) (rq_Context rq) ro all vs" "resp = respond (rq_env rq) (zip all vs) []" .
      with post have "response_ok P rq resp" unfolding response_ok_def by blast
      with assms(2) one Ret Return show ?thesis by auto
    qed
  qed
qed

lemma handler_step_ok:
  assumes "handler_step P rq ph w = (ph', w')" and "phase_ok P rq ph" and "phase_routed rq ph"
  shows "phase_ok P rq ph'"
proof (cases ph)
  case Received
  with assms(1) show ?thesis
    by (auto simp: readyz_def fresh_writer_def StatusOK_def split: if_splits prod.splits sum.splits
        intro!: response_ok_error)
next
  case (Validating t keys)
  with assms(1,2) progress_start show ?thesis
    by (fastforce simp: Let_def split: prod.splits sum.splits intro!: response_ok_error)
next
  case (Looping t n ro reqLog i rest results)
  show ?thesis
  proof (cases rest)
    case Nil
    with assms(2) Looping obtain body all where post: "req_Method (rq_http rq) = ''POST''"
        "Unmarshal (rq_http rq) body = Inr all"
      and prog: "progress P (rq_env rq) (rq_Context rq) ro all [] results" by auto
    from progress_done [OF prog] obtain vs where "decided P (rq_env rq) (rq_Context rq) ro all vs"
      "respond (rq_env rq) [] results = respond (rq_env rq) (zip all vs) []" .
    with post have "response_ok P rq (respond (rq_env rq) [] results)" unfolding response_ok_def by blast
    with assms(1) Looping Nil show ?thesis by auto
  next
    case (Cons key keys)
    with assms(1,2) Looping loop_step_ok show ?thesis by blast
  qed
next
  case (Leaving t n r se)
  with assms(1,2) show ?thesis by (auto split: go.splits)
next
  case (Responding resp)
  with assms show ?thesis
    by (auto split: prod.splits dest!: sendResponse_result(1) simp: fresh_writer_def StatusOK_def)
qed (use assms in auto)

section \<open>Metrics, panics and progress\<close>

text \<open>The metrics of a server that is configured with \<open>maxAttempts\<close> and publishes \<open>conf\<close>.\<close>

definition metrics_sound :: "int \<Rightarrow> labels \<Rightarrow> Metrics \<Rightarrow> bool" where
  "metrics_sound maxAttempts conf m \<longleftrightarrow>
     series_ok maxAttempts m \<and> uncounted m = 0 \<and> ConfigInfo m = [conf \<mapsto> 1]"

lemma metrics_sound_update [simp]:
  "metrics_sound n c (KeychainBuildTimer_update h m) = metrics_sound n c m"
  "metrics_sound n c (KeychainRefreshFail_update g m) = metrics_sound n c m"
  "metrics_sound n c (CABundleRefreshFail_update g m) = metrics_sound n c m"
  by (simp_all add: metrics_sound_def)

lemma request_label: "[imageCountLabel (int n), if se then ''failure'' else ''success''] \<in> set request_labels"
  using imageCountLabel_range [of n] by (auto simp: request_labels_def simp del: upt_rec_numeral)

lemma handler_step_metrics:
  assumes step: "handler_step (default_provider S B V A k R sched vars) rq ph w = (ph', w')"
    and m: "metrics_sound (MaxAttempts vars) conf (metrics w)"
  shows "metrics_sound (MaxAttempts vars) conf (metrics w')"
proof (cases ph)
  case Received
  with step m show ?thesis by (auto split: if_splits prod.splits sum.splits dest!: call_frame(1))
next
  case (Validating t keys)
  with step m show ?thesis
    by (auto simp: Let_def default_provider_def provider_New_def KeyChain_def split: prod.splits dest!: call_frame(1))
next
  case (Looping t n ro reqLog i rest results)
  show ?thesis
  proof (cases rest)
    case (Cons key keys)
    obtain x se w1 where one: "validate_image (default_provider S B V A k R sched vars) (rq_env rq) (rq_Context rq)
        ro reqLog (int n) i key results w = (x, se, w1)" by (metis prod_cases3)
    with step Looping Cons have "w' = w1" by (auto split: go.splits image_end.splits)
    with audited.validate_image_kept [OF one [unfolded default_provider_def]] m show ?thesis
      by (simp add: metrics_sound_def)
  qed (use step m Looping in auto)
next
  case (Leaving t n r se)
  with step have "metrics w' = AttestationsReqTimer_update (observe_vec
      [imageCountLabel (int n), if se then ''failure'' else ''success''] (clock w - t)) (metrics w)" by auto
  with m request_label [of n se] show ?thesis by (simp add: metrics_sound_def series_ok_request)
next
  case (Responding resp)
  with step m show ?thesis by (auto split: prod.splits dest!: sendResponse_result(2))
qed (use step m in auto)

text \<open>Without images that have no layers, no handler panics.\<close>

fun calm :: "('o, 'v) phase \<Rightarrow> bool" where
  "calm (Leaving t n (Panic m) se) = False"
| "calm (Aborted m) = False"
| "calm _ = True"

lemma handler_step_calm:
  assumes "layers_nonempty R" and "calm ph"
    and step: "handler_step (default_provider S B V A k R sched vars) rq ph w = (ph', w')"
  shows "calm ph'"
proof (cases "\<exists>t n ro reqLog i key keys results. ph = Looping t n ro reqLog i (key # keys) results")
  case True
  then obtain t n ro reqLog i key keys results where ph: "ph = Looping t n ro reqLog i (key # keys) results" by blast
  obtain x se w1 where one: "validate_image (default_provider S B V A k R sched vars) (rq_env rq) (rq_Context rq)
      ro reqLog (int n) i key results w = (x, se, w1)" by (metis prod_cases3)
  have "x \<noteq> Panic p" for p
  proof
    assume "x = Panic p"
    from default_parts.validate_image_panic [OF one [unfolded this default_provider_def]]
    obtain ref v1 v2 where f: "DefaultBundleFetcher_BundleFromName R sched vars (rq_Context rq) ref ro v1 = (Panic p, v2)"
      by blast
    from default_fetch_panic [OF f] assms(1) show False by simp
  qed
  with step ph one show ?thesis by (cases x) (auto split: image_end.splits)
next
  case False
  with assms(2) step show ?thesis
    by (cases "(default_provider S B V A k R sched vars, rq, ph, w)" rule: handler_step.cases)
       (auto simp: Let_def split: if_splits prod.splits sum.splits go.splits)
qed

text \<open>Every step brings a handler closer to its end.\<close>

fun steps_left :: "('o, 'v) phase \<Rightarrow> nat" where
  "steps_left Received = 0"
| "steps_left (Validating t keys) = length keys + 4"
| "steps_left (Looping t n ro reqLog i keys results) = length keys + 3"
| "steps_left (Leaving t n r se) = 2"
| "steps_left (Responding resp) = 1"
| "steps_left (Answered rw) = 0"
| "steps_left (Aborted m) = 0"

lemma handler_step_left:
  assumes "\<not> finished ph" and "ph \<noteq> Received" and "handler_step P rq ph w = (ph', w')"
  shows "steps_left ph' < steps_left ph" and "ph' \<noteq> Received"
proof -
  have "steps_left ph' < steps_left ph \<and> ph' \<noteq> Received"
  proof (cases ph)
    case (Looping t n ro reqLog i rest results)
    with assms show ?thesis
      by (cases rest) (auto split: prod.splits go.splits image_end.splits)
  qed (use assms in \<open>auto simp: Let_def split: prod.splits sum.splits go.splits\<close>)
  then show "steps_left ph' < steps_left ph" and "ph' \<noteq> Received" by auto
qed

end
