(* ===== verification/System.thy ===== *)
theory System
  imports Handler_Steps
begin

text \<open>
  The running server: everything that \<^verbatim>\<open>main\<close> (cmd/aaop/aaop.go) has started, composed into one
  transition system. The goroutines are the HTTP handlers, the background loops of the keychain and of
  the CA bundle, the two goroutines of \<^verbatim>\<open>run\<close>, and the metrics server; they share the cached keychain,
  the metrics and the outside world. Their steps interleave in any order; a handler is a sequence of
  the steps of \<open>Handler_Steps\<close>, and any number of handlers are active at a time.
\<close>

section \<open>The state and its steps\<close>

text \<open>
  The provider has a pointer to the keychain provider, so a request meets the keychain that is cached
  when it reads it.
\<close>

definition current_provider ::
  "('x, 'k) KeychainApi \<Rightarrow> ('x, 'k, 'r, 'o, 'b, 'v) Server \<Rightarrow> ('x, 'k) KeyChainProvider \<Rightarrow>
   ('x, 'k, 'r, 'o, 'b, 'v) Provider" where
  "current_provider A srv k = (srv_provider srv)\<lparr>p_kc := KeyChain A k\<rparr>"

text \<open>The requests are all that were accepted, in that order, each with the phase of its handler.\<close>

record ('x, 'k, 'r, 'o, 'v) system =
  sys_keychain :: "('x, 'k) KeyChainProvider"
  sys_refreshing :: bool
  sys_injecting :: bool
  sys_run :: run_state
  sys_requests :: "(('x, 'r, 'v) Request \<times> ('o, 'v) phase) list"
  sys_world :: "'x world"
  sys_exit :: "main_exit option"

definition booted :: "('x, 'k, 'r, 'o, 'b, 'v) Server \<Rightarrow> 'x world \<Rightarrow> ('x, 'k, 'r, 'o, 'v) system" where
  "booted srv w = \<lparr>sys_keychain = srv_keychain srv, sys_refreshing = True, sys_injecting = (srv_injector srv \<noteq> None),
     sys_run = run_init, sys_requests = [], sys_world = w, sys_exit = None\<rparr>"

definition alive :: "('x, 'k, 'r, 'o, 'v) system \<Rightarrow> bool" where
  "alive s \<longleftrightarrow> sys_exit s = None \<and> \<not> panicked (sys_run s)"

definition drained :: "('x, 'k, 'r, 'o, 'v) system \<Rightarrow> bool" where
  "drained s \<longleftrightarrow> list_all (\<lambda>(rq, ph). finished ph) (sys_requests s)"

fun is_running :: "('s, 'x) loop_state \<Rightarrow> bool" where
  "is_running (Running s w) = True"
| "is_running (Stopped s w) = False"

text \<open>
  The steps. A panic of a handler is recovered by the HTTP server, which drops the connection. When
  \<^verbatim>\<open>run\<close> has returned, \<^verbatim>\<open>main\<close> shuts the server down; \<^verbatim>\<open>Shutdown\<close> returns without an error only when no
  request is being handled any more. The metrics server may fail at any time, and ends the process.
\<close>

inductive system_step ::
  "('x, 'k) KeychainApi \<Rightarrow> ('x, 'k, 'r, 'o, 'b, 'v) Server \<Rightarrow> (Context \<Rightarrow> 'x world \<Rightarrow> go_error option \<times> 'x world) \<Rightarrow>
   (Context \<Rightarrow> ('x, go_error option) outside) \<Rightarrow> Context \<Rightarrow>
   ('x, 'k, 'r, 'o, 'v) system \<Rightarrow> ('x, 'k, 'r, 'o, 'v) system \<Rightarrow> bool"
  for A srv upd Shutdown ctx where
  time_passes: "alive s \<Longrightarrow> clock (sys_world s) \<le> t \<Longrightarrow>
    system_step A srv upd Shutdown ctx s (s\<lparr>sys_world := (sys_world s)\<lparr>clock := t\<rparr>\<rparr>)"
| accepted: "alive s \<Longrightarrow> server (sys_run s) = Serving \<Longrightarrow>
    system_step A srv upd Shutdown ctx s (s\<lparr>sys_requests := sys_requests s @ [(rq, Received)]\<rparr>)"
| handled: "alive s \<Longrightarrow> i < length (sys_requests s) \<Longrightarrow> sys_requests s ! i = (rq, ph) \<Longrightarrow> \<not> finished ph \<Longrightarrow>
    handler_step (current_provider A srv (sys_keychain s)) rq ph (sys_world s) = (ph', w) \<Longrightarrow>
    system_step A srv upd Shutdown ctx s
      (s\<lparr>sys_requests := (sys_requests s)[i := (rq, ph')], sys_world := w\<rparr>)"
| keychain_loop: "alive s \<Longrightarrow> sys_refreshing s \<Longrightarrow>
    refresh_step (refresh_tick ctx) ctx (Running (sys_keychain s) (sys_world s)) n c \<Longrightarrow>
    system_step A srv upd Shutdown ctx s
      (s\<lparr>sys_keychain := loop_store c, sys_refreshing := is_running c, sys_world := loop_world c\<rparr>)"
| injector_loop: "alive s \<Longrightarrow> sys_injecting s \<Longrightarrow>
    refresh_step (injector_tick upd ctx) ctx (Running () (sys_world s)) n c \<Longrightarrow>
    system_step A srv upd Shutdown ctx s (s\<lparr>sys_injecting := is_running c, sys_world := loop_world c\<rparr>)"
| run_moves: "alive s \<Longrightarrow> run_step (sys_run s) r \<Longrightarrow>
    (main_st (sys_run s) = Selecting \<Longrightarrow> main_st r = RunReturned None \<Longrightarrow> ctx_Err ctx (clock (sys_world s)) \<noteq> None) \<Longrightarrow>
    system_step A srv upd Shutdown ctx s (s\<lparr>sys_run := r\<rparr>)"
| exits: "alive s \<Longrightarrow> main_st (sys_run s) = RunReturned e \<Longrightarrow> shutdown Shutdown e (sys_world s) = (x, w) \<Longrightarrow>
    (x = Graceful \<Longrightarrow> drained s) \<Longrightarrow>
    system_step A srv upd Shutdown ctx s (s\<lparr>sys_exit := Some x, sys_world := w\<rparr>)"
| metrics_failed: "alive s \<Longrightarrow>
    system_step A srv upd Shutdown ctx s
      (s\<lparr>sys_exit := Some (FatalExit (''failed to start metrics server: '' @ Error err))\<rparr>)"

text \<open>The states the server can be in, at any time after it has started.\<close>

definition system_reaches ::
  "('x, 'k) KeychainApi \<Rightarrow> ('x, 'k, 'r, 'o, 'b, 'v) Server \<Rightarrow> (Context \<Rightarrow> 'x world \<Rightarrow> go_error option \<times> 'x world) \<Rightarrow>
   (Context \<Rightarrow> ('x, go_error option) outside) \<Rightarrow> Context \<Rightarrow> 'x world \<Rightarrow> ('x, 'k, 'r, 'o, 'v) system \<Rightarrow> bool" where
  "system_reaches A srv upd Shutdown ctx w s = (system_step A srv upd Shutdown ctx)\<^sup>*\<^sup>* (booted srv w) s"

lemma system_invariant:
  assumes "system_reaches A srv upd Shutdown ctx w s" and "P (booted srv w)"
    and "\<And>s s'. system_step A srv upd Shutdown ctx s s' \<Longrightarrow> P s \<Longrightarrow> P s'"
  shows "P s"
  using assms(1) unfolding system_reaches_def
  by (induction rule: rtranclp_induct) (auto intro: assms(2,3))

text \<open>A property of the handlers that holds when a request arrives and that every step of a handler keeps.\<close>

lemma handler_invariant:
  assumes "system_reaches A srv upd Shutdown ctx w s" and "\<And>rq. Q rq Received"
    and step: "\<And>k rq ph w ph' w'. Q rq ph \<Longrightarrow> handler_step (current_provider A srv k) rq ph w = (ph', w') \<Longrightarrow> Q rq ph'"
    and "(rq, ph) \<in> set (sys_requests s)"
  shows "Q rq ph"
proof -
  have "\<forall>(rq, ph) \<in> set (sys_requests s). Q rq ph"
    using assms(1)
  proof (rule system_invariant)
    fix s1 s2
    assume "system_step A srv upd Shutdown ctx s1 s2" and inv: "\<forall>(rq, ph) \<in> set (sys_requests s1). Q rq ph"
    then show "\<forall>(rq, ph) \<in> set (sys_requests s2). Q rq ph"
    proof (cases rule: system_step.cases)
      case (handled i rq1 ph1 ph2 w2)
      have "Q rq1 ph1" using inv nth_mem [OF handled(3)] handled(4) by auto
      from step [OF this handled(6)] inv handled(1) show ?thesis
        by (auto dest!: set_update_subset_insert [THEN subsetD])
    qed (use inv assms(2) in auto)
  qed (simp add: booted_def)
  with assms(4) show ?thesis by blast
qed

text \<open>A handler that runs without interference is a run of the system.\<close>

lemma handler_runs_system:
  assumes "handler_runs (current_provider A srv k) rq c c'" and "alive s" and "sys_keychain s = k"
    and "i < length (sys_requests s)" "sys_requests s ! i = (rq, fst c)" "sys_world s = snd c"
  shows "(system_step A srv upd Shutdown ctx)\<^sup>*\<^sup>* s (s\<lparr>sys_requests := (sys_requests s)[i := (rq, fst c')], sys_world := snd c'\<rparr>)"
  using assms
proof (induction arbitrary: s rule: handler_runs.induct)
  case (stop ph w)
  then have "(sys_requests s)[i := (rq, ph)] = sys_requests s" by (metis fst_conv list_update_id)
  with stop have "s\<lparr>sys_requests := (sys_requests s)[i := (rq, ph)], sys_world := w\<rparr> = s" by (cases s) simp
  then show ?case by simp
next
  case (step ph w c)
  obtain ph1 w1 where h: "handler_step (current_provider A srv k) rq ph w = (ph1, w1)" by force
  let ?s = "s\<lparr>sys_requests := (sys_requests s)[i := (rq, ph1)], sys_world := w1\<rparr>"
  have "system_step A srv upd Shutdown ctx s ?s" using step h by (intro system_step.handled) auto
  moreover have "(system_step A srv upd Shutdown ctx)\<^sup>*\<^sup>* ?s
      (?s\<lparr>sys_requests := (sys_requests ?s)[i := (rq, fst c)], sys_world := snd c\<rparr>)"
    by (rule step.IH) (use step.prems h in \<open>simp_all add: alive_def\<close>)
  ultimately show ?case by simp
qed

lemma current_default:
  assumes "srv_provider srv = default_provider S B V A k0 R sched vars"
  shows "current_provider A srv k = default_provider S B V A k R sched vars"
  using assms by (simp add: current_provider_def default_provider_def provider_New_def)

section \<open>Every response meets the specification\<close>

lemma phase_ok_kc [simp]: "phase_ok (P\<lparr>p_kc := k\<rparr>) rq ph = phase_ok P rq ph"
proof -
  have iv: "image_verdict (P\<lparr>p_kc := k\<rparr>) = image_verdict P" by (simp add: fun_eq_iff image_verdict_kc)
  have "decided (P\<lparr>p_kc := k\<rparr>) = decided P" by (intro ext) (simp add: decided_def iv)
  moreover have "progress (P\<lparr>p_kc := k\<rparr>) = progress P" by (intro ext) (simp add: progress_def iv)
  ultimately show ?thesis by (cases ph) (auto simp: response_ok_def split: go.splits)
qed

lemma served_ok:
  assumes "system_reaches A srv upd Shutdown ctx w s" and "(rq, ph) \<in> set (sys_requests s)"
  shows "phase_ok (srv_provider srv) rq ph"
proof -
  have "phase_ok (srv_provider srv) rq ph \<and> phase_routed rq ph"
  proof (rule handler_invariant [OF assms(1) _ _ assms(2)])
    fix k rq ph v ph' v'
    assume inv: "phase_ok (srv_provider srv) rq ph \<and> phase_routed rq ph"
      and step: "handler_step (current_provider A srv k) rq ph v = (ph', v')"
    have "phase_ok (current_provider A srv k) rq ph'"
      using handler_step_ok [OF step] inv by (simp add: current_provider_def)
    with handler_step_routed [of rq ph "current_provider A srv k" v] step inv
    show "phase_ok (srv_provider srv) rq ph' \<and> phase_routed rq ph'" by (simp add: current_provider_def)
  qed simp
  then show ?thesis ..
qed


section \<open>Every result is verified\<close>


section \<open>The keychain\<close>

text \<open>A cache is as good as it was, or holds a keychain of a build that reported success.\<close>

definition good_cache ::
  "('x, 'k) KeychainApi \<Rightarrow> string \<Rightarrow> string list \<Rightarrow> 'k option option \<Rightarrow> 'k option option \<Rightarrow> bool" where
  "good_cache A ns ips c0 c \<longleftrightarrow>
     c = c0 \<or> (\<exists>ctx (w :: 'x world) kc w'. buildKeychain A ns ips ctx w = ((Some kc, True), w') \<and> c = Some (Some kc))"

lemma good_cacheI:
  "buildKeychain A ns ips ctx w = ((Some kc, True), w') \<Longrightarrow> good_cache A ns ips c0 (Some (Some kc))"
  by (auto simp: good_cache_def)

lemma keychain_step_good:
  assumes "refresh_step (refresh_tick ctx) ctx (Running k w) n c" and "build k = buildKeychain A ns ips"
    and "good_cache A ns ips c0 (cached k)"
  shows "build (loop_store c) = buildKeychain A ns ips" and "good_cache A ns ips c0 (cached (loop_store c))"
    and "is_running c \<or> ctx_Err ctx (clock w) \<noteq> None"
  using assms
  by (auto elim!: refresh_stepE simp: refresh_tick_def set_keychain_def split: prod.splits if_splits)
    (blast intro: good_cacheI)

lemma system_keychain_inv:
  assumes "build (srv_keychain srv) = buildKeychain A ns ips" and "system_reaches A srv upd Shutdown ctx w s"
  shows "build (sys_keychain s) = buildKeychain A ns ips \<and>
    good_cache A ns ips (cached (srv_keychain srv)) (cached (sys_keychain s))"
  using assms(2)
proof (rule system_invariant)
  fix s1 s2
  assume step: "system_step A srv upd Shutdown ctx s1 s2"
    and inv: "build (sys_keychain s1) = buildKeychain A ns ips \<and>
      good_cache A ns ips (cached (srv_keychain srv)) (cached (sys_keychain s1))"
  from step show "build (sys_keychain s2) = buildKeychain A ns ips \<and>
      good_cache A ns ips (cached (srv_keychain srv)) (cached (sys_keychain s2))"
  proof (cases rule: system_step.cases)
    case (keychain_loop n c)
    from inv have "build (sys_keychain s1) = buildKeychain A ns ips"
      "good_cache A ns ips (cached (srv_keychain srv)) (cached (sys_keychain s1))" by simp_all
    from keychain_step_good(1,2) [OF keychain_loop(4) this] keychain_loop(1) show ?thesis by simp
  qed (use inv in auto)
qed (simp add: booted_def assms(1) good_cache_def)

text \<open>
  C12. The credentials of a request, at any time in the life of the server: the cached keychain is the one
  built while starting or the result of a later build that reported success, that is one with both
  in-cluster authenticators, whatever refreshes have failed in between; so a request always gets a
  built keychain and never falls back to the default one.
\<close>

theorem system_keychain_good:
  assumes "startup S B ReadFile githubRoot A R dt X K C sched ctx f vars w = (Inr srv, vars', w')"
    and "system_reaches A srv upd Shutdown ctx w' s"
  shows "good_cache A (flag_ns f) [flag_ips f] (cached (srv_keychain srv)) (cached (sys_keychain s)) \<and>
    (\<exists>kc. cached (sys_keychain s) = Some (Some kc) \<and>
      (\<forall>rctx v. p_kc (current_provider A srv (sys_keychain s)) rctx v = (Inr kc, v)))"
proof -
  from assms(1) have kc0: "\<exists>kc. cached (srv_keychain srv) = Some (Some kc)"
    and b: "build (srv_keychain srv) = buildKeychain A (flag_ns f) [flag_ips f]" by (rule startup_success, blast)+
  from system_keychain_inv [OF b assms(2)]
  have "good_cache A (flag_ns f) [flag_ips f] (cached (srv_keychain srv)) (cached (sys_keychain s))" ..
  moreover from this kc0 obtain kc where "cached (sys_keychain s) = Some (Some kc)" by (auto simp: good_cache_def)
  ultimately show ?thesis by (simp add: current_provider_def KeyChain_def)
qed

section \<open>The metrics\<close>

lemma keychain_step_metrics:
  assumes "refresh_step (refresh_tick ctx) ctx (Running k w) n c" and "build k = buildKeychain A ns ips"
    and "metrics_sound m conf (metrics w)"
  shows "metrics_sound m conf (metrics (loop_world c))"
  using assms by (auto elim!: refresh_stepE dest!: refresh_tick_metrics)

lemma injector_step_metrics:
  assumes "refresh_step (injector_tick (update X C sched path) ctx) ctx (Running () w) n c"
    and "metrics_sound m conf (metrics w)"
  shows "metrics_sound m conf (metrics (loop_world c))"
  using assms
  by (auto elim!: refresh_stepE simp: injector_tick_def update_def dest!: UpdateCABundle_metrics
      split: prod.splits option.splits if_splits)

lemma shutdown_metrics: "shutdown Sd e w = (x, w') \<Longrightarrow> metrics w' = metrics w"
  by (auto simp: shutdown_def Let_def dest!: call_frame(1) split: option.splits prod.splits)

lemma system_metrics_inv:
  assumes p: "srv_provider srv = default_provider S B V A k0 R sched vars"
    and b: "build (srv_keychain srv) = buildKeychain A ns ips"
    and m0: "metrics_sound (MaxAttempts vars) conf (metrics w)"
    and s: "system_reaches A srv (update X C isched path) Shutdown ctx w s"
  shows "build (sys_keychain s) = buildKeychain A ns ips \<and> metrics_sound (MaxAttempts vars) conf (metrics (sys_world s))"
  using s
proof (rule system_invariant)
  fix s1 s2
  assume step: "system_step A srv (update X C isched path) Shutdown ctx s1 s2"
    and "build (sys_keychain s1) = buildKeychain A ns ips \<and> metrics_sound (MaxAttempts vars) conf (metrics (sys_world s1))"
  then have k: "build (sys_keychain s1) = buildKeychain A ns ips"
    and m: "metrics_sound (MaxAttempts vars) conf (metrics (sys_world s1))" by simp_all
  have refl: "good_cache A ns ips (cached (sys_keychain s1)) (cached (sys_keychain s1))" by (simp add: good_cache_def)
  from step show "build (sys_keychain s2) = buildKeychain A ns ips \<and>
      metrics_sound (MaxAttempts vars) conf (metrics (sys_world s2))"
  proof (cases rule: system_step.cases)
    case (keychain_loop n c)
    with keychain_step_good(1) [OF keychain_loop(4) k refl] keychain_step_metrics [OF keychain_loop(4) k m]
    show ?thesis by simp
  next
    case (injector_loop n c)
    with injector_step_metrics [OF injector_loop(4) m] k show ?thesis by simp
  next
    case (exits e x v)
    with shutdown_metrics [OF exits(4)] k m show ?thesis by simp
  next
    case (handled i rq ph ph' v)
    with handler_step_metrics [OF handled(6) [unfolded current_default [OF p]] m] k show ?thesis by simp
  qed (use k m in auto)
qed (simp add: booted_def b m0)

lemma startup_metrics:
  assumes "startup S B ReadFile githubRoot A R dt X K C sched ctx f vars w = (Inr srv, vars', w')"
    and "metrics w = new_metrics"
  shows "metrics_sound (MaxAttempts vars') (config_labels f) (metrics w')" and "MaxAttempts vars' = bundleMaxAttempts f"
    and "1 \<le> bundleMaxAttempts f"
proof -
  from assms(1) obtain w1 V w2 lp w3 where c: "configure dt f vars w = (None, vars', w1)"
    and V: "CreateVerifier S ReadFile githubRoot (server_cfg f) w1 = (Inr V, w2)"
    and lp: "start_injector X K C sched ctx f w2 = (Inr lp, w3)"
    and m: "\<exists>d. metrics w' = KeychainBuildTimer_update ((#) d) (metrics w3)"
    by (rule startup_success)
  note conf = configure_valid [OF c]
  from conf(2) show "MaxAttempts vars' = bundleMaxAttempts f" by (simp add: in_force_def)
  from conf(1) show "1 \<le> bundleMaxAttempts f" by (simp add: valid_flags_def)
  from conf(2,3) assms(2) CreateVerifier_metrics [OF V] start_injector_metrics(1) [OF lp]
  have "metrics w3 = new_metrics\<lparr>ConfigInfo := [config_labels f \<mapsto> 1]\<rparr>"
    by (simp add: SetConfigInfo_def config_labels_def in_force_def) (simp add: new_metrics_def)
  with m show "metrics_sound (MaxAttempts vars') (config_labels f) (metrics w')"
    by (auto simp: metrics_sound_def series_ok_def uncounted_def new_metrics_def config_labels_def configInfoLabels_def
        split: if_splits)
qed


section \<open>Accepting, answering and stopping\<close>

lemma ctx_Err_done: "ctx_Err ctx t \<noteq> None \<Longrightarrow> done_at ctx \<noteq> None"
  by (auto simp: ctx_Err_def split: option.splits)

lemma shutdown_graceful: "shutdown Sd e w = (Graceful, w') \<Longrightarrow> e = None"
  by (auto simp: shutdown_def split: option.splits)

lemma run_returns_keeps: "run_step r r' \<Longrightarrow> main_st r \<noteq> Selecting \<Longrightarrow> main_st r' = main_st r"
  by (auto elim!: run_step.cases)

text \<open>What ends the loops, \<^verbatim>\<open>run\<close> and the process.\<close>

definition stops_soundly :: "Context \<Rightarrow> bool \<Rightarrow> ('x, 'k, 'r, 'o, 'v) system \<Rightarrow> bool" where
  "stops_soundly ctx injects s \<longleftrightarrow>
     (sys_refreshing s \<or> done_at ctx \<noteq> None) \<and> (injects \<longrightarrow> sys_injecting s \<or> done_at ctx \<noteq> None) \<and>
     run_reachable (sys_run s) \<and> (main_st (sys_run s) = RunReturned None \<longrightarrow> done_at ctx \<noteq> None) \<and>
     (sys_exit s = Some Graceful \<longrightarrow> main_st (sys_run s) = RunReturned None \<and> drained s)"

lemma loop_step_stops:
  assumes "refresh_step tick ctx (Running k w) n c"
    and "\<And>k w go k' w'. tick k w = (go, k', w') \<Longrightarrow> go \<or> ctx_Err ctx (clock w') \<noteq> None"
  shows "is_running c \<or> done_at ctx \<noteq> None"
  using assms(1)
proof (cases rule: refresh_step.cases)
  case ctx_done
  then show ?thesis using ctx_Err_done by blast
next
  case (tick_returns s' w')
  with assms(2) ctx_Err_done show ?thesis by blast
qed simp_all

lemma run_moves_ended:
  assumes "run_step r r'" and "main_st r = Selecting \<Longrightarrow> main_st r' = RunReturned None \<Longrightarrow> ctx_Err ctx t \<noteq> None"
    and "main_st r = RunReturned None \<longrightarrow> done_at ctx \<noteq> None"
  shows "main_st r' = RunReturned None \<longrightarrow> done_at ctx \<noteq> None"
  using assms run_returns_keeps [OF assms(1)] ctx_Err_done by metis

lemma system_stops:
  assumes "system_reaches A srv upd Shutdown ctx w s"
  shows "stops_soundly ctx (srv_injector srv \<noteq> None) s"
  using assms
proof (rule system_invariant)
  fix s1 s2
  assume step: "system_step A srv upd Shutdown ctx s1 s2" and inv: "stops_soundly ctx (srv_injector srv \<noteq> None) s1"
  from step show "stops_soundly ctx (srv_injector srv \<noteq> None) s2"
  proof (cases rule: system_step.cases)
    case (keychain_loop n c)
    have "is_running c \<or> done_at ctx \<noteq> None"
      by (rule loop_step_stops [OF keychain_loop(4)]) (auto simp: refresh_tick_def split: prod.splits if_splits)
    with inv keychain_loop show ?thesis by (auto simp: stops_soundly_def alive_def)
  next
    case (injector_loop n c)
    have "is_running c \<or> done_at ctx \<noteq> None"
      by (rule loop_step_stops [OF injector_loop(4)])
        (auto simp: injector_tick_def split: prod.splits option.splits if_splits)
    with inv injector_loop show ?thesis by (auto simp: stops_soundly_def alive_def)
  next
    case (run_moves r)
    with inv run_moves_ended [OF run_moves(3,4)] show ?thesis
      by (auto simp: stops_soundly_def alive_def intro: run_reachable.step)
  next
    case (exits e x v)
    with inv shutdown_graceful show ?thesis by (auto simp: stops_soundly_def drained_def)
  qed (use inv in \<open>auto simp: stops_soundly_def alive_def\<close>)
qed (auto simp: stops_soundly_def booted_def run_reachable.init, simp add: run_init_def)


lemma system_calm:
  assumes "srv_provider srv = default_provider S B V A k0 R sched vars" and "layers_nonempty R"
    and "system_reaches A srv upd Shutdown ctx w s" and "(rq, ph) \<in> set (sys_requests s)"
  shows "calm ph"
  by (rule handler_invariant [where Q = "\<lambda>rq ph. calm ph", OF assms(3) _ _ assms(4)])
     (auto simp: current_default [OF assms(1)] intro: handler_step_calm [OF assms(2)])

lemma calm_finished: "calm ph \<Longrightarrow> finished ph \<Longrightarrow> \<exists>rw. ph = Answered rw"
  by (cases ph) auto


text \<open>Every handler can run to its end, so the server can always drain.\<close>

definition runs_to_end ::
  "('x, 'k) KeychainApi \<Rightarrow> ('x, 'k, 'r, 'o, 'b, 'v) Server \<Rightarrow> (Context \<Rightarrow> 'x world \<Rightarrow> go_error option \<times> 'x world) \<Rightarrow>
   (Context \<Rightarrow> ('x, go_error option) outside) \<Rightarrow> Context \<Rightarrow> nat \<Rightarrow> ('x, 'k, 'r, 'o, 'v) system \<Rightarrow> bool" where
  "runs_to_end A srv upd Shutdown ctx i s \<longleftrightarrow>
     (\<exists>s' ph'. (system_step A srv upd Shutdown ctx)\<^sup>*\<^sup>* s s' \<and> finished ph' \<and> alive s' \<and> sys_run s' = sys_run s \<and>
        sys_requests s' = (sys_requests s)[i := (fst (sys_requests s ! i), ph')])"

lemma handler_moves:
  assumes "alive s" and "i < length (sys_requests s)" and "sys_requests s ! i = (rq, ph)" and "\<not> finished ph"
    and "handler_step (current_provider A srv (sys_keychain s)) rq ph (sys_world s) = (ph1, w1)"
    and "runs_to_end A srv upd Shutdown ctx i (s\<lparr>sys_requests := (sys_requests s)[i := (rq, ph1)], sys_world := w1\<rparr>)"
  shows "runs_to_end A srv upd Shutdown ctx i s"
proof -
  have "system_step A srv upd Shutdown ctx s (s\<lparr>sys_requests := (sys_requests s)[i := (rq, ph1)], sys_world := w1\<rparr>)"
    using assms(1-5) by (rule system_step.handled)
  with assms(2,3,6) show ?thesis
    by (auto simp: runs_to_end_def) (meson converse_rtranclp_into_rtranclp)
qed

lemma handler_finishes_inside:
  assumes "alive s" and "i < length (sys_requests s)" and "sys_requests s ! i = (rq, ph)" and "ph \<noteq> Received"
  shows "runs_to_end A srv upd Shutdown ctx i s"
  using assms
proof (induction "steps_left ph" arbitrary: s ph rule: less_induct)
  case less
  show ?case
  proof (cases "finished ph")
    case True
    have "sys_requests s = (sys_requests s)[i := (rq, ph)]" using less(4) by (metis list_update_id)
    with less(2-4) True show ?thesis
      unfolding runs_to_end_def by (intro exI [of _ s] exI [of _ ph]) simp
  next
    case False
    obtain ph1 w1 where h: "handler_step (current_provider A srv (sys_keychain s)) rq ph (sys_world s) = (ph1, w1)" by force
    note left = handler_step_left [OF False less(5) h]
    have "runs_to_end A srv upd Shutdown ctx i (s\<lparr>sys_requests := (sys_requests s)[i := (rq, ph1)], sys_world := w1\<rparr>)"
      by (rule less(1) [OF left(1) _ _ _ left(2)]) (use less(2,3) in \<open>simp_all add: alive_def\<close>)
    with less(2-4) False h show ?thesis by (rule handler_moves)
  qed
qed

lemma handler_finishes:
  assumes "alive s" and "i < length (sys_requests s)"
  shows "runs_to_end A srv upd Shutdown ctx i s"
proof -
  obtain rq ph where i: "sys_requests s ! i = (rq, ph)" by force
  show ?thesis
  proof (cases "ph = Received")
    case True
    obtain ph1 w1 where h: "handler_step (current_provider A srv (sys_keychain s)) rq ph (sys_world s) = (ph1, w1)" by force
    then have "ph1 \<noteq> Received" using True by (auto split: if_splits prod.splits sum.splits)
    then have "runs_to_end A srv upd Shutdown ctx i (s\<lparr>sys_requests := (sys_requests s)[i := (rq, ph1)], sys_world := w1\<rparr>)"
      using assms by (intro handler_finishes_inside) (simp_all add: alive_def)
    from handler_moves [OF assms i _ h this] show ?thesis by (simp add: True)
  next
    case False
    with assms i show ?thesis by (intro handler_finishes_inside)
  qed
qed

lemma system_drains:
  assumes "alive s"
  shows "\<exists>s'. (system_step A srv upd Shutdown ctx)\<^sup>*\<^sup>* s s' \<and> alive s' \<and> drained s' \<and> sys_run s' = sys_run s \<and>
    map fst (sys_requests s') = map fst (sys_requests s)"
proof -
  have "\<exists>s'. (system_step A srv upd Shutdown ctx)\<^sup>*\<^sup>* s s' \<and> alive s' \<and> sys_run s' = sys_run s \<and>
    map fst (sys_requests s') = map fst (sys_requests s) \<and>
    list_all (\<lambda>(rq, ph). finished ph) (take n (sys_requests s'))" for n
  proof (induction n)
    case 0
    show ?case using assms by (intro exI [of _ s]) simp
  next
    case (Suc n)
    then obtain s1 where s1: "(system_step A srv upd Shutdown ctx)\<^sup>*\<^sup>* s s1" "alive s1" "sys_run s1 = sys_run s"
      "map fst (sys_requests s1) = map fst (sys_requests s)"
      "list_all (\<lambda>(rq, ph). finished ph) (take n (sys_requests s1))" by blast
    show ?case
    proof (cases "n < length (sys_requests s1)")
      case False
      with s1 show ?thesis by (intro exI [of _ s1]) simp
    next
      case True
      obtain rq ph where n: "sys_requests s1 ! n = (rq, ph)" by force
      have "runs_to_end A srv upd Shutdown ctx n s1" using s1(2) True by (rule handler_finishes)
      then obtain s2 ph' where
        s2: "(system_step A srv upd Shutdown ctx)\<^sup>*\<^sup>* s1 s2" "finished ph'" "alive s2" "sys_run s2 = sys_run s1"
        "sys_requests s2 = (sys_requests s1)[n := (rq, ph')]" by (auto simp: runs_to_end_def n)
      have "map fst (sys_requests s2) = map fst (sys_requests s)"
        using s1(4) s2(5) n True by (metis fst_conv list_update_id map_update nth_map)
      moreover have "list_all (\<lambda>(rq, ph). finished ph) (take (Suc n) (sys_requests s2))"
        using s1(5) s2(2,5) True by (simp add: take_Suc_conv_app_nth)
      ultimately show ?thesis using s1 s2 by (intro exI [of _ s2]) auto
    qed
  qed
  from this [of "length (sys_requests s)"] obtain s' where s': "(system_step A srv upd Shutdown ctx)\<^sup>*\<^sup>* s s'" "alive s'"
    "sys_run s' = sys_run s" "map fst (sys_requests s') = map fst (sys_requests s)"
    "list_all (\<lambda>(rq, ph). finished ph) (take (length (sys_requests s)) (sys_requests s'))" by blast
  moreover from s'(4) have "length (sys_requests s') = length (sys_requests s)" by (metis length_map)
  ultimately show ?thesis by (intro exI [of _ s']) (simp add: drained_def)
qed

lemma system_ends_run:
  assumes "alive s" and "done_at ctx = Some (t, e)" and "\<forall>err. main_st (sys_run s) \<noteq> RunReturned (Some err)"
  shows "\<exists>s'. (system_step A srv upd Shutdown ctx)\<^sup>*\<^sup>* s s' \<and> alive s' \<and> main_st (sys_run s') = RunReturned None \<and>
    sys_requests s' = sys_requests s"
proof (cases "main_st (sys_run s) = Selecting")
  case True
  let ?t = "max t (clock (sys_world s))"
  let ?s1 = "s\<lparr>sys_world := (sys_world s)\<lparr>clock := ?t\<rparr>\<rparr>"
  let ?s2 = "?s1\<lparr>sys_run := (sys_run s)\<lparr>main_st := RunReturned None, closed := True\<rparr>\<rparr>"
  have "system_step A srv upd Shutdown ctx s ?s1" using assms(1) by (intro system_step.time_passes) simp_all
  moreover have "system_step A srv upd Shutdown ctx ?s1 ?s2"
    using assms(1,2) True
    by (intro system_step.run_moves) (auto simp: alive_def ctx_Err_def intro: run_step.ctx_done)
  ultimately show ?thesis using assms(1) by (intro exI [of _ ?s2]) (auto simp: alive_def)
next
  case False
  with assms(1,3) main_state_cases [of "main_st (sys_run s)"] show ?thesis by (intro exI [of _ s]) auto
qed

lemma shutdown_succeeds:
  assumes "\<forall>c u x. fst (Shutdown c u x) = None"
  obtains w' where "shutdown Shutdown None w = (Graceful, w')"
proof -
  let ?v = "slog LevelInfo ''shutting down server'' [] w"
  obtain r v where c: "call (Shutdown (WithTimeout Background (5 * Second) (clock ?v))) ?v = (r, v)" by force
  with assms have "r = None" by (auto simp: call_def split: prod.splits) (metis fst_conv)
  with c that show thesis by (simp add: shutdown_def Let_def)
qed

lemma system_stops_gracefully:
  assumes "alive s" and "done_at ctx = Some (t, e)" and "\<forall>err. main_st (sys_run s) \<noteq> RunReturned (Some err)"
    and "\<forall>c u x. fst (Shutdown c u x) = None"
  shows "\<exists>s'. (system_step A srv upd Shutdown ctx)\<^sup>*\<^sup>* s s' \<and> sys_exit s' = Some Graceful \<and>
    map fst (sys_requests s') = map fst (sys_requests s)"
proof -
  obtain s1 where s1: "(system_step A srv upd Shutdown ctx)\<^sup>*\<^sup>* s s1" "alive s1"
    "main_st (sys_run s1) = RunReturned None" "sys_requests s1 = sys_requests s"
    using system_ends_run [OF assms(1-3)] by blast
  obtain s2 where s2: "(system_step A srv upd Shutdown ctx)\<^sup>*\<^sup>* s1 s2" "alive s2" "drained s2"
    "sys_run s2 = sys_run s1" "map fst (sys_requests s2) = map fst (sys_requests s1)"
    using system_drains [OF s1(2)] by blast
  obtain w where "shutdown Shutdown None (sys_world s2) = (Graceful, w)" by (rule shutdown_succeeds [OF assms(4)])
  then have "system_step A srv upd Shutdown ctx s2 (s2\<lparr>sys_exit := Some Graceful, sys_world := w\<rparr>)"
    using s1(3) s2 by (intro system_step.exits) auto
  with s1(1,4) s2 show ?thesis by (intro exI [of _ "s2\<lparr>sys_exit := Some Graceful, sys_world := w\<rparr>"]) auto
qed


end
