(* ===== verification/Request_Time.thy ===== *)
theory Request_Time
  imports Default_Provider
begin

text \<open>
  How long a request can take. Gatekeeper gives the provider a few seconds; the fetcher's budget
  (bundle-max-attempts, bundle-timeout and bundle-delay) and the context of the request bound the time
  of a whole request, up to the time that verifying the fetched bundles takes.
\<close>

section \<open>The time of one operation\<close>

text \<open>A fetch keeps to its budget and to its context; a verification takes its time per bundle.\<close>

definition timed_fetch :: "('x, 'r, 'o, 'b) fetch_op \<Rightarrow> duration \<Rightarrow> bool" where
  "timed_fetch f budget \<longleftrightarrow> 0 \<le> budget \<and>
     (\<forall>ctx ref ro w x w'. f ctx ref ro w = (x, w') \<longrightarrow>
        clock w' \<le> clock w + budget \<and> (\<forall>d e. done_at ctx = Some (d, e) \<longrightarrow> clock w' \<le> max (clock w) d))"

definition timed_verify :: "('x, 'b, 'v) verify_op \<Rightarrow> duration \<Rightarrow> bool" where
  "timed_verify v cost \<longleftrightarrow> 0 \<le> cost \<and>
     (\<forall>bs h w r w'. v bs h w = (r, w') \<longrightarrow> clock w' \<le> clock w + int (length bs) * cost)"

text \<open>
  The time spent between two moments of a request: at most \<open>n\<close> fetches, and the verification of the
  bundles that the counter says were retrieved in between.
\<close>

definition retrieved :: "'x world \<Rightarrow> 'x world \<Rightarrow> int" where
  "retrieved w w' = int (AttestationsRetrieved (metrics w')) - int (AttestationsRetrieved (metrics w))"

definition spent :: "Context \<Rightarrow> duration \<Rightarrow> duration \<Rightarrow> int \<Rightarrow> 'x world \<Rightarrow> 'x world \<Rightarrow> bool" where
  "spent ctx budget cost n w w' \<longleftrightarrow> 0 \<le> retrieved w w' \<and>
     clock w' \<le> clock w + n * budget + retrieved w w' * cost \<and>
     (\<forall>d e. done_at ctx = Some (d, e) \<longrightarrow> clock w' \<le> max (clock w) d + retrieved w w' * cost)"

lemma spent_trans:
  assumes "spent ctx b c n w w1" and "spent ctx b c m w1 w2" and "0 \<le> c"
  shows "spent ctx b c (n + m) w w2"
proof -
  have sum: "retrieved w w2 = retrieved w w1 + retrieved w1 w2" by (simp add: retrieved_def)
  have "0 \<le> retrieved w w1 * c" "0 \<le> retrieved w1 w2 * c"
    using assms by (simp_all add: spent_def)
  then show ?thesis
    using assms(1,2) by (auto simp: spent_def sum distrib_right)
qed

lemma spent_mono: "spent ctx b c n w w' \<Longrightarrow> n \<le> m \<Longrightarrow> 0 \<le> b \<Longrightarrow> spent ctx b c m w w'"
  using mult_right_mono [of n m b] by (fastforce simp: spent_def)

lemma spent_frame:
  "clock w' = clock w \<Longrightarrow> retrieved w w' = 0 \<Longrightarrow> spent ctx b c 0 w w'"
  by (simp add: spent_def)

lemma spent_fetch:
  assumes "timed_fetch f b" and "f ctx ref ro w1 = (x, w2)" and "metrics w2 = metrics w" and "clock w1 = clock w"
  shows "spent ctx b c 1 w w2"
proof -
  from assms(1,2) have "clock w2 \<le> clock w1 + b"
    and "\<forall>d e. done_at ctx = Some (d, e) \<longrightarrow> clock w2 \<le> max (clock w1) d"
    unfolding timed_fetch_def by blast+
  with assms(3,4) show ?thesis by (simp add: spent_def retrieved_def)
qed

section \<open>The time of a request\<close>

lemma fetch_failed_frame:
  assumes "fetch_failed E reqLog imgLog n i key results err dur traced w = (r, se, w')"
  shows "clock w' = clock w" and "retrieved w w' = 0"
  using assms by (auto simp: fetch_failed_def Let_def retrieved_def split: prod.splits if_splits)

context provider_parts
begin

lemma verify_bundles_frame:
  assumes "timed_verify v c" and "verify_bundles (provider_New v k f opts) E imgLog key result w = (r, se, w')"
  shows "clock w' \<le> clock w + int (length (Bundles result)) * c" and "retrieved w w' = 0"
proof -
  obtain x w1 where run: "v (Bundles result) (Hash result) w = (x, w1)" by force
  have t: "clock w1 \<le> clock w + int (length (Bundles result)) * c" using assms(1) run by (auto simp: timed_verify_def)
  have m: "metrics w1 = metrics w" using V.verify_metrics [OF run] .
  from assms(2) run t m show "clock w' \<le> clock w + int (length (Bundles result)) * c" and "retrieved w w' = 0"
    by (auto simp: verify_bundles_def provider_New_def Let_def retrieved_def
        split: go.splits sum.splits option.splits if_splits)
qed

lemma fetched_spent:
  assumes "timed_verify v c" and "fetched (provider_New v k f opts) E imgLog key result dur w = (r, se, w')"
  shows "spent ctx b c 0 w w'"
proof (cases "Bundles result = []")
  case True
  with assms(2) show ?thesis by (auto simp: fetched_def Let_def retrieved_def intro!: spent_frame)
next
  case False
  from assms(2) False obtain w2 where
    vb: "verify_bundles (provider_New v k f opts) E imgLog key result w2 = (r, se, w')"
    and w2: "clock w2 = clock w" "retrieved w w2 = int (length (Bundles result))"
    by (auto simp: fetched_def Let_def retrieved_def)
  from verify_bundles_frame [OF assms(1) vb] w2 have "retrieved w w' = int (length (Bundles result))"
    "clock w' \<le> clock w + int (length (Bundles result)) * c"
    by (simp_all add: retrieved_def)
  then show ?thesis by (auto simp: spent_def)
qed

lemma validate_image_spent:
  assumes f: "timed_fetch f b" and v: "timed_verify v c"
    and run: "validate_image (provider_New v k f opts) E ctx ro reqLog n i key results w = (r, se, w')"
  shows "spent ctx b c 1 w w'"
proof (cases "ParseReference E key")
  case (Inl err)
  with run have "spent ctx b c 0 w w'"
    by (auto simp: validate_image_def Let_def retrieved_def intro!: spent_frame)
  with f show ?thesis by (auto simp: timed_fetch_def intro: spent_mono)
next
  case (Inr ref)
  have c: "0 \<le> c" using v by (simp add: timed_verify_def)
  note first = spent_fetch [OF f]
  from run Inr show ?thesis
  proof (cases rule: validate_image_fetch)
    case (panic p w1)
    with first [OF panic(1,4,5)] show ?thesis by simp
  next
    case (failed imgLog result err dur traced w1 w2)
    from spent_trans [OF first [OF failed(2-4)] spent_frame [OF fetch_failed_frame [OF failed(1)]] c] show ?thesis by simp
  next
    case (success imgLog result dur w1 w2)
    from spent_trans [OF first [OF success(2-4)] fetched_spent [OF v success(1)] c] show ?thesis by simp
  qed
qed

lemma validate_images_spent:
  assumes f: "timed_fetch f b" and v: "timed_verify v c"
    and run: "validate_images (provider_New v k f opts) E ctx ro reqLog n i keys results w = (r, se, w')"
  shows "spent ctx b c (int (length keys)) w w'"
  using run
proof (induction keys arbitrary: i results w)
  case Nil
  then show ?case by (auto simp: retrieved_def intro!: spent_frame)
next
  case (Cons key keys)
  obtain r1 se1 w1 where
    one: "validate_image (provider_New v k f opts) E ctx ro reqLog n i key results w = (r1, se1, w1)"
    by (metis prod_cases3)
  note first = validate_image_spent [OF f v one]
  have pos: "0 \<le> b" "0 \<le> c" using f v by (simp_all add: timed_fetch_def timed_verify_def)
  show ?case
  proof (cases "\<exists>it. r1 = Ret (Continue it)")
    case True
    then obtain it where "r1 = Ret (Continue it)" by blast
    with Cons.prems one have "validate_images (provider_New v k f opts) E ctx ro reqLog n (i + 1) keys
        (results @ [it]) w1 = (r, se, w')" by simp
    from spent_trans [OF first Cons.IH [OF this] pos(2)] show ?thesis by (simp add: add.commute)
  next
    case False
    with Cons.prems one have "w' = w1" by (auto split: go.splits image_end.splits)
    with first pos(1) show ?thesis by (auto intro: spent_mono)
  qed
qed

lemma Validate_spent:
  assumes f: "timed_fetch f b" and v: "timed_verify v c" and id: "\<forall>t x. fst (snd (NewString E t x)) = t"
    and run: "Validate (provider_New v k f opts) E ctx keys w = (r, w')"
  shows "spent ctx b c (int (length keys)) w w'"
proof -
  obtain r1 se w1 where body: "validate_body (provider_New v k f opts) E ctx keys w = (r1, se, w1)"
    by (metis prod_cases3)
  from body obtain ro reqLog w0 where m0: "metrics w0 = metrics w"
    and imgs: "validate_images (provider_New v k f opts) E ctx ro reqLog (int (length keys)) 0 keys [] w0 = (r1, se, w1)"
    and t0: "clock w0 = clock (snd (call (NewString E) w))" by (rule validate_body_images)
  have "clock w0 = clock w" using t0 id by (simp add: call_def case_prod_beta)
  with validate_images_spent [OF f v imgs] m0 have "spent ctx b c (int (length keys)) w w1"
    by (simp add: spent_def retrieved_def)
  moreover have "clock w' = clock w1" "retrieved w w' = retrieved w w1"
    using run body by (auto simp: Validate_def retrieved_def)
  ultimately show ?thesis by (simp add: spent_def)
qed

end

section \<open>The parts of the server\<close>

definition timed_sigstore :: "('x, 'm, 'sv, 'b, 'v) Sigstore \<Rightarrow> duration \<Rightarrow> bool" where
  "timed_sigstore S d \<longleftrightarrow> 0 \<le> d \<and> (\<forall>sv b p t x. fst (snd (sv_Verify S sv b p t x)) \<le> t + d)"

lemma VerifyOne_time:
  assumes "timed_sigstore S d" and "VerifyOne S v b h w = (r, w')"
  shows "clock w' \<le> clock w + d"
  using assms
  by (auto simp: VerifyOne_def timed_sigstore_def call_def case_prod_beta split: sum.splits option.splits)

lemma try_verifiers_time:
  assumes "timed_sigstore S d" and "try_verifiers S V b h r0 e0 w = (r, w')"
  shows "clock w' \<le> clock w + int (length V) * d"
  using assms(2)
proof (induction V arbitrary: r0 e0 w)
  case (Cons v V)
  obtain x w1 where one: "VerifyOne S v b h w = (x, w1)" by force
  note t = VerifyOne_time [OF assms(1) one]
  have pos: "0 \<le> int (length V) * d" using assms(1) by (simp add: timed_sigstore_def)
  have "clock w' \<le> clock w1 + int (length V) * d"
    using Cons.prems one pos by (auto split: go.splits option.splits dest: Cons.IH)
  with t show ?case by (simp add: distrib_right)
qed simp

lemma log_unverified_clock: "log_unverified msg B b h err w = (r, w') \<Longrightarrow> clock w' = clock w"
  by (auto simp: log_unverified_def split: prod.splits option.splits)

lemma Multi_loop_time:
  assumes "timed_sigstore S d" and "Multi_loop S B V h bs res err w = (r, w')"
  shows "clock w' \<le> clock w + int (length bs) * (int (length V) * d)"
  using assms(2)
proof (induction bs arbitrary: res err w)
  case (Cons b bs)
  obtain x w1 where one: "try_verifiers S V b h None err w = (x, w1)" by force
  note t = try_verifiers_time [OF assms(1) one]
  have pos: "0 \<le> int (length bs) * (int (length V) * d)" using assms(1) by (simp add: timed_sigstore_def)
  have "clock w' \<le> clock w1 + int (length bs) * (int (length V) * d)"
    using Cons.prems one pos
    by (auto simp: Let_def split: go.splits if_splits prod.splits dest!: Cons.IH dest: log_unverified_clock)
  with t show ?case by (simp add: distrib_right)
qed simp

lemma Multi_Verify_timed:
  assumes "timed_sigstore S d"
  shows "timed_verify (Multi_Verify S B V) (int (length V) * d)"
  using assms Multi_loop_time [OF assms]
  by (auto simp: timed_verify_def timed_sigstore_def Multi_Verify_def returned_def split: prod.splits go.splits)

definition fetch_budget :: "'t FetcherVars \<Rightarrow> duration" where
  "fetch_budget vars = MaxAttempts vars * Timeout vars + (MaxAttempts vars - 1) * Delay vars"

lemma default_fetch_timed:
  assumes "remote_honours R hctx" and "1 \<le> MaxAttempts vars" "0 \<le> Timeout vars" "0 \<le> Delay vars"
  shows "timed_fetch (DefaultBundleFetcher_BundleFromName R sched vars) (fetch_budget vars)"
proof -
  have "clock w' \<le> clock w + fetch_budget vars \<and> (\<forall>d e. done_at ctx = Some (d, e) \<longrightarrow> clock w' \<le> max (clock w) d)"
    if "DefaultBundleFetcher_BundleFromName R sched vars ctx ref ro w = (x, w')" for ctx ref ro w x w'
  proof -
    from that obtain y where "BundleFromName R sched vars ctx ref ro w = (y, w')"
      by (auto simp: DefaultBundleFetcher_BundleFromName_def split: prod.splits go.splits)
    from retryBundle_within_budget [OF this [unfolded BundleFromName_def] DoBundleFromName_honours [OF assms(1)] assms(2-4)]
    show ?thesis by (simp add: fetch_budget_def)
  qed
  moreover have "0 \<le> fetch_budget vars" using assms(2-4) by (simp add: fetch_budget_def)
  ultimately show ?thesis unfolding timed_fetch_def by blast
qed

text \<open>
  C15. The time a request can take, whatever the registry does. When every call of the registry client
  returns by the time its context is done, making up the request's identifier takes no time and one
  verification of a bundle by a trust root takes at most \<open>d\<close>, a request for \<open>n\<close> images takes at most
  \<open>n\<close> times the fetch budget (the attempts' time-outs and the delays between them) plus \<open>d\<close> for every
  trust root and every attestation that was retrieved; and once the context of the request is done,
  only verification still takes time.
\<close>

theorem Validate_time_bound:
  assumes "Validate (default_provider S B V A kc R sched vars) E ctx keys w = (r, w')"
    and "remote_honours R hctx" and "timed_sigstore S d" and "\<forall>t x. fst (snd (NewString E t x)) = t"
    and "1 \<le> MaxAttempts vars" "0 \<le> Timeout vars" "0 \<le> Delay vars"
  shows "clock w' \<le> clock w +
      int (length keys) * (MaxAttempts vars * Timeout vars + (MaxAttempts vars - 1) * Delay vars) +
      retrieved w w' * (int (length V) * d) \<and>
    (\<forall>t e. done_at ctx = Some (t, e) \<longrightarrow> clock w' \<le> max (clock w) t + retrieved w w' * (int (length V) * d))"
  using default_parts.Validate_spent [OF default_fetch_timed [OF assms(2,5-7)] Multi_Verify_timed [OF assms(3)] assms(4)
      assms(1) [unfolded default_provider_def]]
  by (auto simp: spent_def fetch_budget_def)

lemma deployed_remote_honours: "remote_honours (deployed_remote stalls refs) fst"
  using stall_returns
  by (auto simp: remote_honours_def deployed_remote_def returns_by_def handles_in_def split: option.splits)

theorem Validate_time_bound_witness:
  "\<exists>r w'. Validate (deployed True []) sample_env Background [''41'', ''42''] (start_world ()) = (r, w') \<and>
     clock w' \<le> 18 * Second"
proof -
  obtain r w' where run: "Validate (deployed True []) sample_env Background [''41'', ''42''] (start_world ()) = (r, w')"
    by force
  have S: "timed_sigstore sample_sigstore 0" by (simp add: timed_sigstore_def sample_sigstore_def)
  have id: "\<forall>t x. fst (snd (NewString sample_env t x)) = t" by (simp add: sample_env_def)
  have "clock w' \<le> 18 * Second"
    using Validate_time_bound [OF run [unfolded deployed_def] deployed_remote_honours S id]
    by (simp add: initial_vars_sel duration_defs)
  with run show ?thesis by auto
qed

end
