(* ===== verification/Cver.thy ===== *)
theory Cver
  imports Server_Config Default_Provider
begin

text \<open>
  The command line verifier (cmd/cver/cver.go): it verifies a bundle from a file, or the bundles of an
  image, against the configured trust roots and prints the results. Files, the reference parser and
  the JSON encoder are parameters; so is what a fetch does with the nil reference that is left when
  the image name does not parse, since that is decided inside the registry client.
\<close>

record cver_flags =
  img :: string
  trustDomains :: string
  bundleFile :: string
  tufRepo :: string
  tufRoot :: string
  tufTargets :: string

record ('x, 'r, 'b, 'v) CverEnv =
  cver_ReadFile :: "'x file_reader"
  name_ParseReference :: "string \<Rightarrow> 'r result"
  fetch_nil_reference :: "'x world \<Rightarrow> ('b BundleResult \<times> FetchError option) go \<times> 'x world"
  MarshalIndent :: "'v option \<Rightarrow> string result"

text \<open>How \<^verbatim>\<open>main\<close> ends: the lines on standard output and in the log, or \<^verbatim>\<open>log.Fatal\<close> with a message.\<close>

datatype main_end = Finished "string list" "string list" | Fatal string

text \<open>The bundle file: the bundle and the digest of the first subject of its statement, if it has one.\<close>

definition subject_hash :: "Subject option \<Rightarrow> Hash option" where
  "subject_hash s =
     (case (case s of None \<Rightarrow> [] | Some s \<Rightarrow> GetDigest s) of
        [] \<Rightarrow> None
      | (alg, hex) # _ \<Rightarrow> Some \<lparr>Algorithm = alg, Hex = hex\<rparr>)"

definition bundle_digest :: "('b, 'sc, 'ec) BundleApi \<Rightarrow> 'b \<Rightarrow> (string + Hash option) go" where
  "bundle_digest B sb =
     (case SignatureContent B sb of
        Panic m \<Rightarrow> Panic m
      | Ret (Inl err) \<Rightarrow> Ret (Inl (''failed to get signature content: '' @ Error err))
      | Ret (Inr None) \<Rightarrow> Panic nil_dereference
      | Ret (Inr (Some sc)) \<Rightarrow>
     (case EnvelopeContent B sc of
        Panic m \<Rightarrow> Panic m
      | Ret None \<Rightarrow> Ret (Inl ''bundle does not contain dsse envelope'')
      | Ret (Some ec) \<Rightarrow>
     (case Statement B ec of
        Panic m \<Rightarrow> Panic m
      | Ret (Inl err) \<Rightarrow> Ret (Inl (''failed to get statement: '' @ Error err))
      | Ret (Inr stmt) \<Rightarrow>
     (case (case stmt of None \<Rightarrow> [] | Some subjects \<Rightarrow> subjects) of
        [] \<Rightarrow> Ret (Inl ''no subjects in statement'')
      | s # _ \<Rightarrow> Ret (Inr (subject_hash s))))))"

definition bundle_from_file ::
  "('x, 'k, 't, 'h, 'r, 'b) Remote \<Rightarrow> ('b, 'sc, 'ec) BundleApi \<Rightarrow> ('x, 'r, 'b, 'v) CverEnv \<Rightarrow> string \<Rightarrow>
   'x world \<Rightarrow> (string + 'b list \<times> Hash option) go \<times> 'x world" where
  "bundle_from_file R B E path w =
     (case call (cver_ReadFile E path) w of
        (Inl err, w) \<Rightarrow> (Ret (Inl (''failed to read bundle file: '' @ Error err)), w)
      | (Inr bundleBytes, w) \<Rightarrow>
     (case UnmarshalJSON R bundleBytes of
        Inl err \<Rightarrow> (Ret (Inl (''failed to unmarshal bundle: '' @ Error err)), w)
      | Inr sb \<Rightarrow>
     (case bundle_digest B sb of
        Panic m \<Rightarrow> (Panic m, w)
      | Ret (Inl msg) \<Rightarrow> (Ret (Inl msg), w)
      | Ret (Inr h) \<Rightarrow> (Ret (Inr ([sb], h)), w))))"

text \<open>The image: a name that does not parse and a fetch that fails are only logged.\<close>

definition bundles_of_image ::
  "('x, 'k, 't, 'h, 'r, 'b) Remote \<Rightarrow> scheduler \<Rightarrow> 't FetcherVars \<Rightarrow> ('x, 'r, 'b, 'v) CverEnv \<Rightarrow> string \<Rightarrow>
   'x world \<Rightarrow> (string list \<times> 'b list \<times> Hash option) go \<times> 'x world" where
  "bundles_of_image R sched vars E key w =
     (let (lines, fetch) =
        (case name_ParseReference E key of
           Inl err \<Rightarrow> ([Error err], fetch_nil_reference E)
         | Inr ref \<Rightarrow> ([], BundleFromName R sched vars Background ref []))
      in case fetch w of
           (Panic m, w) \<Rightarrow> (Panic m, w)
         | (Ret (result, None), w) \<Rightarrow> (Ret (lines, Bundles result, Hash result), w)
         | (Ret (result, Some err), w) \<Rightarrow>
             (Ret (lines @ [Error (FetchErr err)], Bundles result, Hash result), w))"

text \<open>Printing the results.\<close>

fun print_results ::
  "('x, 'r, 'b, 'v) CverEnv \<Rightarrow> 'v option list \<Rightarrow> string list \<Rightarrow> string list \<Rightarrow> string list \<times> string list" where
  "print_results E [] out lines = (out, lines)"
| "print_results E (r # res) out lines =
     (case MarshalIndent E r of
        Inl err \<Rightarrow> print_results E res out (lines @ [''failed to marshal result: '' @ Error err])
      | Inr j \<Rightarrow> print_results E res (out @ [j]) lines)"

definition verify_and_print ::
  "('x, 'm, 'sv, 'b, 'v) Sigstore \<Rightarrow> ('b, 'sc, 'ec) BundleApi \<Rightarrow> ('x, 'r, 'b, 'v) CverEnv \<Rightarrow>
   'm Verifier list \<Rightarrow> string list \<Rightarrow> 'b list \<Rightarrow> Hash option \<Rightarrow> 'x world \<Rightarrow> main_end go \<times> 'x world" where
  "verify_and_print S B E v lines b h w =
     (case Multi_Verify S B v b h w of
        (Panic m, w) \<Rightarrow> (Panic m, w)
      | (Ret (Inl err), w) \<Rightarrow> (Ret (Finished [] (lines @ [Error err])), w)
      | (Ret (Inr res), w) \<Rightarrow>
          (case print_results E res [] lines of (out, lines) \<Rightarrow> (Ret (Finished out lines), w)))"

definition cver_main ::
  "('x, 'm, 'sv, 'b, 'v) Sigstore \<Rightarrow> ('b, 'sc, 'ec) BundleApi \<Rightarrow> ('x, 'k, 't, 'h, 'r, 'b) Remote \<Rightarrow>
   scheduler \<Rightarrow> 't FetcherVars \<Rightarrow> string \<Rightarrow> ('x, 'r, 'b, 'v) CverEnv \<Rightarrow> cver_flags \<Rightarrow> 'x world \<Rightarrow>
   main_end go \<times> 'x world" where
  "cver_main S B R sched vars githubRoot E f w =
     (if img f = '''' \<and> bundleFile f = '''' then (Ret (Finished [''no image or bundle provided''] []), w)
      else case CreateVerifier S (cver_ReadFile E) githubRoot
          (verifier_cfg (tufRoot f) (tufRepo f) (tufTargets f) (trustDomains f) True) w of
        (Inl err, w) \<Rightarrow> (Ret (Fatal (''failed to create verifier: '' @ Error err)), w)
      | (Inr v, w) \<Rightarrow>
          if bundleFile f \<noteq> '''' then
            (case bundle_from_file R B E (bundleFile f) w of
               (Panic m, w) \<Rightarrow> (Panic m, w)
             | (Ret (Inl msg), w) \<Rightarrow> (Ret (Fatal msg), w)
             | (Ret (Inr (b, h)), w) \<Rightarrow> verify_and_print S B E v [] b h w)
          else
            (case bundles_of_image R sched vars E (img f) w of
               (Panic m, w) \<Rightarrow> (Panic m, w)
             | (Ret (lines, b, h), w) \<Rightarrow> verify_and_print S B E v lines b h w))"

section \<open>What is printed\<close>

lemma print_results_out:
  assumes "print_results E res out lines = (out', lines')" and "j \<in> set out'"
  shows "j \<in> set out \<or> (\<exists>r \<in> set res. MarshalIndent E r = Inr j)"
  using assms by (induction E res out lines rule: print_results.induct) (auto split: sum.splits)

lemma verify_and_print_accepted:
  assumes "verify_and_print S B E v lines b h w = (Ret (Finished out lines'), w')" and "j \<in> set out"
  obtains bu hh r root where "h = Some hh" "bu \<in> set b" "root \<in> set v" "accepts S root bu hh r"
    "MarshalIndent E r = Inr j"
proof -
  from assms obtain res w1 where run: "Multi_Verify S B v b h w = (Ret (Inr res), w1)"
    and p: "print_results E res [] lines = (out, lines')"
    by (auto simp: verify_and_print_def split: prod.splits go.splits sum.splits)
  from print_results_out [OF p assms(2)] obtain r where r: "r \<in> set res" "MarshalIndent E r = Inr j" by auto
  show thesis
  proof (cases h)
    case None
    with run r(1) show ?thesis
      by (cases b) (auto simp: Multi_Verify_None, simp add: Multi_Verify_def returned_def)
  next
    case (Some hh)
    from Multi_Verify_accepted [OF run [unfolded Some] r(1)] obtain bu root
      where "bu \<in> set b" "root \<in> set v" "accepts S root bu hh r" .
    with that Some r(2) show ?thesis by blast
  qed
qed

text \<open>
  C24. The command line tool prints nothing that is not verified: when it is given an image or a file,
  each line it prints is the JSON of a verification result that one of the loaded trust roots
  produced, without an error, for a bundle and a digest. The bundle is the one in the file and the
  digest that of the first subject of its statement; or the registry lists the bundle for the digest
  of the image. A fetch that failed prints nothing.
\<close>

theorem cver_prints_verified:
  assumes run: "cver_main S B R sched vars githubRoot E f w = (Ret (Finished out lines), w')"
    and given: "img f \<noteq> '''' \<or> bundleFile f \<noteq> ''''" and j: "j \<in> set out"
  shows "\<exists>V w1 root b h r.
    CreateVerifier S (cver_ReadFile E) githubRoot
      (verifier_cfg (tufRoot f) (tufRepo f) (tufTargets f) (trustDomains f) True) w = (Inr V, w1) \<and>
    root \<in> set V \<and> accepts S root b h r \<and> MarshalIndent E r = Inr j \<and>
    (if bundleFile f \<noteq> ''''
     then \<exists>bytes w2. call (cver_ReadFile E (bundleFile f)) w1 = (Inr bytes, w2) \<and>
       UnmarshalJSON R bytes = Inr b \<and> bundle_digest B b = Ret (Inr (Some h))
     else \<forall>ref. name_ParseReference E (img f) = Inr ref \<longrightarrow> bundle_of_image R (RetryThrottled vars) ref h b)"
proof -
  let ?cfg = "verifier_cfg (tufRoot f) (tufRepo f) (tufTargets f) (trustDomains f) True"
  from run given obtain V w1 where V: "CreateVerifier S (cver_ReadFile E) githubRoot ?cfg w = (Inr V, w1)"
    by (auto simp: cver_main_def split: if_splits prod.splits sum.splits)
  show ?thesis
  proof (cases "bundleFile f = ''''")
    case False
    with run given V obtain b h w2 where loaded: "bundle_from_file R B E (bundleFile f) w1 = (Ret (Inr (b, h)), w2)"
      and v: "verify_and_print S B E V [] b h w2 = (Ret (Finished out lines), w')"
      by (auto simp: cver_main_def split: prod.splits go.splits sum.splits)
    from loaded obtain bytes sb where sb: "call (cver_ReadFile E (bundleFile f)) w1 = (Inr bytes, w2)"
      "UnmarshalJSON R bytes = Inr sb" "bundle_digest B sb = Ret (Inr h)" "b = [sb]"
      by (auto simp: bundle_from_file_def split: prod.splits go.splits sum.splits)
    from verify_and_print_accepted [OF v j] sb V False show ?thesis by fastforce
  next
    case True
    with run given V obtain lines0 b h w2
      where found: "bundles_of_image R sched vars E (img f) w1 = (Ret (lines0, b, h), w2)"
        and v: "verify_and_print S B E V lines0 b h w2 = (Ret (Finished out lines), w')"
      by (auto simp: cver_main_def split: prod.splits go.splits sum.splits)
    from verify_and_print_accepted [OF v j] obtain bu hh r root
      where acc: "h = Some hh" "bu \<in> set b" "root \<in> set V" "accepts S root bu hh r" "MarshalIndent E r = Inr j" .
    have "bundle_of_image R (RetryThrottled vars) ref hh bu" if "name_ParseReference E (img f) = Inr ref" for ref
      using found that acc(1,2)
      by (auto simp: bundles_of_image_def split: prod.splits go.splits option.splits intro: BundleFromName_origin)
    with acc V True show ?thesis by (intro exI [of _ V] exI [of _ w1] exI [of _ root] exI [of _ bu]
          exI [of _ hh] exI [of _ r]) simp
  qed
qed

text \<open>
  C37. A bundle file whose statement has a first subject without a digest crashes the tool: no digest is
  extracted, and the verification dereferences the nil digest.
\<close>

theorem cver_missing_digest_panics:
  assumes "bundleFile f \<noteq> ''''"
    and "CreateVerifier S (cver_ReadFile E) githubRoot
      (verifier_cfg (tufRoot f) (tufRepo f) (tufTargets f) (trustDomains f) True) w = (Inr V, w1)"
    and "call (cver_ReadFile E (bundleFile f)) w1 = (Inr bytes, w2)" and "UnmarshalJSON R bytes = Inr b"
    and "SignatureContent B b = Ret (Inr (Some sc))" and "EnvelopeContent B sc = Ret (Some ec)"
    and "Statement B ec = Ret (Inr (Some (Some \<lparr>GetName = n, GetDigest = []\<rparr> # ss)))"
  shows "cver_main S B R sched vars githubRoot E f w = (Panic nil_dereference, w2)"
  using assms
  by (simp add: cver_main_def bundle_from_file_def bundle_digest_def subject_hash_def verify_and_print_def
      Multi_Verify_None)

section \<open>Concrete runs\<close>

text \<open>A bundle file for the public good instance; its statement has one subject, with the digests given.\<close>

definition cver_api :: "(string \<times> string) list \<Rightarrow> (sample_bundle, unit, unit) BundleApi" where
  "cver_api ds = \<lparr>nil_bundle = (\<lambda>_. False), SignatureContent = (\<lambda>b. Ret (Inr (Some ()))),
     EnvelopeContent = (\<lambda>_. Ret (Some ())),
     Statement = (\<lambda>_. Ret (Inr (Some [Some \<lparr>GetName = ''image'', GetDigest = ds\<rparr>])))\<rparr>"

definition cver_env :: "(unit, string, sample_bundle, sample_bundle) CverEnv" where
  "cver_env = \<lparr>cver_ReadFile = (\<lambda>f t x. (Inr ''trusted_root.json,sha256,A'', t, x)),
     name_ParseReference = Inr, fetch_nil_reference = (\<lambda>w. (Panic nil_dereference, w)),
     MarshalIndent = (\<lambda>r. Inr ''{}'')\<rparr>"

definition file_flags :: cver_flags where
  "file_flags = \<lparr>img = '''', trustDomains = '''', bundleFile = ''bundle.json'', tufRepo = '''', tufRoot = '''',
     tufTargets = ''''\<rparr>"

definition cver_roots :: "string Verifier list" where
  "cver_roots = [\<lparr>v_tr = ''trusted_root.json'',
      v_vo = [WithSignedCertificateTimestamps 1, WithTransparencyLog 1, WithObserverTimestamps 1]\<rparr>,
    sample_root ''trusted_root.json'']"

lemma cver_create:
  "\<exists>w1. CreateVerifier sample_sigstore (cver_ReadFile cver_env) ''ghroot''
     (verifier_cfg (tufRoot file_flags) (tufRepo file_flags) (tufTargets file_flags) (trustDomains file_flags) True)
     (start_world ()) = (Inr cver_roots, w1)"
  by (simp add: CreateVerifier_def add_default_verifiers_def LoadVerifiers_def PGIVerifier_def GHVerifier_def
      New_def NewMulti_def sample_sigstore_def verifier_cfg_def file_flags_def flag_list_def defaultTR_def
      DotcomTrustDomain_def cver_roots_def sample_root_def call_def)

lemma cver_decode: "decode_sample ''trusted_root.json,sha256,A'' = Inr (''trusted_root.json'', ''sha256'', ''A'')"
  by code_simp

lemma cver_verify:
  "Multi_Verify sample_sigstore B cver_roots [(''trusted_root.json'', ''sha256'', ''A'')]
     (Some \<lparr>Algorithm = ''sha256'', Hex = ''41''\<rparr>) w =
   (Ret (Inr [Some (''trusted_root.json'', ''sha256'', ''A'')]), w)"
  by (simp add: Multi_Verify_def returned_def VerifyOne_def sample_sigstore_def cver_roots_def
      deployed_decode_41 image_policy_def call_def del: hex_DecodeString.simps)

theorem cver_prints_verified_witness:
  "\<exists>w'. cver_main sample_sigstore (cver_api [(''sha256'', ''41'')]) (deployed_remote False []) (\<lambda>_. True)
       (initial_vars ''linux'' ''amd64'' no_transport) ''ghroot'' cver_env file_flags (start_world ()) =
       (Ret (Finished [''{}''] []), w') \<and>
     (\<exists>V w1 root b h r. CreateVerifier sample_sigstore (cver_ReadFile cver_env) ''ghroot''
       (verifier_cfg (tufRoot file_flags) (tufRepo file_flags) (tufTargets file_flags) (trustDomains file_flags) True)
       (start_world ()) = (Inr V, w1) \<and> root \<in> set V \<and> accepts sample_sigstore root b h r)"
proof -
  obtain w1 where V: "CreateVerifier sample_sigstore (cver_ReadFile cver_env) ''ghroot''
     (verifier_cfg (tufRoot file_flags) (tufRepo file_flags) (tufTargets file_flags) (trustDomains file_flags) True)
     (start_world ()) = (Inr cver_roots, w1)"
    using cver_create by blast
  have read: "call (cver_ReadFile cver_env p) w1 = (Inr ''trusted_root.json,sha256,A'', w1)" for p
    by (simp add: cver_env_def call_def)
  have digest: "bundle_digest (cver_api [(''sha256'', ''41'')]) b = Ret (Inr (Some \<lparr>Algorithm = ''sha256'', Hex = ''41''\<rparr>))" for b
    by (simp add: bundle_digest_def cver_api_def subject_hash_def)
  have given: "bundleFile file_flags \<noteq> ''''" and out: "''{}'' \<in> set [''{}'']" by (simp_all add: file_flags_def)
  have json: "MarshalIndent cver_env r = Inr ''{}''" for r by (simp add: cver_env_def)
  have dec: "UnmarshalJSON (deployed_remote False []) = decode_sample" by (simp add: deployed_remote_def)
  have run: "cver_main sample_sigstore (cver_api [(''sha256'', ''41'')]) (deployed_remote False []) (\<lambda>_. True)
       (initial_vars ''linux'' ''amd64'' no_transport) ''ghroot'' cver_env file_flags (start_world ()) =
       (Ret (Finished [''{}''] []), w1)"
    using given
    by (simp add: cver_main_def V bundle_from_file_def read dec cver_decode digest verify_and_print_def
        cver_verify json)
  from cver_prints_verified [OF run disjI2 [OF given] out] run show ?thesis by blast
qed

theorem cver_missing_digest_panics_witness:
  "\<exists>w'. cver_main sample_sigstore (cver_api []) (deployed_remote False []) (\<lambda>_. True)
     (initial_vars ''linux'' ''amd64'' no_transport) ''ghroot'' cver_env file_flags (start_world ()) =
     (Panic nil_dereference, w')"
proof -
  obtain w1 where V: "CreateVerifier sample_sigstore (cver_ReadFile cver_env) ''ghroot''
     (verifier_cfg (tufRoot file_flags) (tufRepo file_flags) (tufTargets file_flags) (trustDomains file_flags) True)
     (start_world ()) = (Inr cver_roots, w1)"
    using cver_create by blast
  have "cver_main sample_sigstore (cver_api []) (deployed_remote False []) (\<lambda>_. True)
     (initial_vars ''linux'' ''amd64'' no_transport) ''ghroot'' cver_env file_flags (start_world ()) =
     (Panic nil_dereference, w1)"
    by (rule cver_missing_digest_panics [OF _ V, where bytes = "''trusted_root.json,sha256,A''"
          and b = "(''trusted_root.json'', ''sha256'', ''A'')" and n = "''image''" and ss = "[]"])
       (simp_all add: file_flags_def cver_env_def call_def deployed_remote_def cver_decode cver_api_def)
  then show ?thesis by blast
qed

end
