(* ===== verification/Spec2Isabelle.thy ===== *)
theory Spec2Isabelle
  imports System Request_Time Cver
begin

text \<open>
  A verification library for the external data provider of Gatekeeper that checks GitHub artifact
  attestations (the Go program under src/).

  \<^bold>\<open>The program.\<close> The server (src/cmd/aaop) answers Gatekeeper's requests. A request is a list of image
  references. For each, the provider (src/pkg/provider) asks the keychain provider (src/pkg/authn) for
  registry credentials, lets the fetcher (src/pkg/fetcher) read the Sigstore bundles that the registry
  lists for the image's digest, and lets the verifier (src/pkg/verifier, with the trust roots loaded by
  src/internal/app) verify them against that digest. Two background loops run beside the requests: one
  rebuilds the keychain, the other (src/pkg/cainjector) keeps the CA bundle of the cluster's
  \<^verbatim>\<open>Provider\<close> object up to date. Metrics (src/pkg/metrics) record what happened. A command line tool
  (src/cmd/cver) verifies one image or one bundle file with the same verifier.

  \<^bold>\<open>How the code is modelled.\<close> Go strings are byte lists, durations and instants are integers in
  nanoseconds. A \<^verbatim>\<open>(T, error)\<close> result is a sum with the error on the left, a nil-able pointer is an
  option, and a function that may panic returns a value of the type \<open>go\<close>. Effects are explicit: a
  function takes and returns a \<open>world\<close>, that is the clock, the log, the metrics and an opaque part for
  everything outside the process. Code that is not in the repository (the registry client, Sigstore,
  Kubernetes, the X.509 parser, JSON) is a record of functions that the definitions take as arguments;
  what a theorem needs of it is a named hypothesis, and each such theorem has a witness with concrete
  functions. Two ready cases of a \<^verbatim>\<open>select\<close> are decided by a scheduler argument or by a step relation.

  \<^bold>\<open>The theories.\<close>
  \<^item> \<open>Go_Prelude\<close>, \<open>Go_Errors\<close>, \<open>Go_World\<close>, \<open>Go_Quote\<close>, \<open>Float64\<close>: the language and its library: strings,
    \<^verbatim>\<open>strconv\<close>, durations, error trees with \<^verbatim>\<open>errors.Is\<close> and \<^verbatim>\<open>errors.As\<close>, contexts, log lines, the wait for
    a timer, quoting and binary64 arithmetic.
  \<^item> \<open>Base64\<close>, \<open>Pem\<close>: \<^verbatim>\<open>base64.StdEncoding\<close> and \<^verbatim>\<open>encoding/pem\<close>, with their round trips: decoding an
    encoded text gives it back, also with line breaks in it, and decoding an encoded block followed by
    any text gives the block and that text.
  \<^item> \<open>Prom_Metrics\<close>: src/pkg/metrics/prom.go, the metrics' values and the declarations of the collectors,
    which can all be registered.
  \<^item> \<open>Fetch_Errors\<close>, \<open>Retry\<close>, \<open>Registry_Transport\<close>, \<open>Registry_Fetch\<close>, \<open>Conn_Trace\<close>: src/pkg/fetcher. The
    failure taxonomy and the attempt trail (which can be read back); the retry loop \<^verbatim>\<open>retryBundle\<close> with its
    history, fail-fast and time-bound theorems; the connection-phase time-outs in floating point; one
    attempt, \<^verbatim>\<open>DoBundleFromName\<close>, and the retried fetch; the connection trace.
  \<^item> \<open>Sigstore_Verifier\<close>, \<open>App_Verifier\<close>: src/pkg/verifier and src/internal/app/verifier.go. Which results
    \<^verbatim>\<open>Multi.Verify\<close> returns, and which trust roots are loaded.
  \<^item> \<open>Refresh_Loop\<close>: the background loop that two components have, as a step relation with runs, and the
    locale \<open>refresher\<close>, which counts its failures.
  \<^item> \<open>Keychain\<close>: src/pkg/authn/provider.go. A refresh keeps the last good keychain.
  \<^item> \<open>Injector\<close>: src/pkg/cainjector/injector.go. What is published parses back to the certificates that
    are still valid; no update and no run of the loop withdraws a valid certificate; merging again
    changes nothing; the loop over the PEM blocks ends.
  \<^item> \<open>Provider_Ifaces\<close>, \<open>Provider\<close>, \<open>Default_Provider\<close>: src/pkg/provider/provider.go. The three interfaces of
    the provider are locales, interpreted in the theories of the components that implement them
    (\<open>bundle_verifier\<close> in \<open>Sigstore_Verifier\<close>, \<open>keychain_source\<close> in \<open>Keychain\<close>, \<open>bundle_fetcher\<close> in
    \<open>Registry_Fetch\<close>); \<open>provider_parts\<close> combines them and is interpreted for the provider as the server
    assembles it. \<^verbatim>\<open>Validate\<close> refines a specification by verdicts, fails closed, never turns a transient
    failure into a verdict, and balances its counters.
  \<^item> \<open>Metric_Series\<close>, \<open>Request_Time\<close>: two properties of the whole provider, proved from stronger contracts of
    its parts. No request creates a metric series outside the declared and bounded ones, however it ends
    (the locale \<open>audited_parts\<close>, with \<open>infallible_verifier\<close> and \<open>counted_fetcher\<close> interpreted for
    \<^verbatim>\<open>Multi.Verify\<close> and the default fetcher); and a request's time is bounded by the fetch budget, the
    request's context and the number of attestations to verify.
  \<^item> \<open>Server_Config\<close>, \<open>Server_Http\<close>, \<open>Server_Main\<close>: src/cmd/aaop/aaop.go. Flags and their validation, the
    request handler, the goroutines of \<^verbatim>\<open>run\<close> as a transition system, the start-up sequence, the log handler
    and shutdown.
  \<^item> \<open>Handler_Steps\<close>: the request handler as a machine with one step per image, since handlers run
    concurrently. It computes what the handler computes as one function, and its responses meet the
    specification by verdicts also when everything else changes between its steps.
  \<^item> \<open>System\<close>: all that \<^verbatim>\<open>main\<close> starts, as one transition system. Its state has the cached keychain, the state
    of the two background loops and of \<^verbatim>\<open>run\<close>, the accepted requests with the phases of their handlers, and
    the world; its steps are those of the goroutines in any interleaving. Every response is the one that
    the verdicts of its request determine, and every result ever served is verified; the keychain is
    never degraded; the metrics stay bounded and balanced; the server works until its context ends, can
    always stop, and a graceful shutdown drops no request.
  \<^item> \<open>Cver\<close>: src/cmd/cver/cver.go. Nothing is printed that was not verified.
  \<^item> This theory: a concrete server, started with the default flags, that answers a request, and one that
    is stopped by a signal, on which the theorems of \<open>Server_Main\<close> and \<open>System\<close> are instantiated.

  \<^bold>\<open>Loops and bounds.\<close> Every loop of the code is a total function: by recursion on its list, or with a
  measure (the attempts left in \<^verbatim>\<open>retryBundle\<close>, the length of the input in the base64, PEM and certificate
  loops). No fuel limits a result; the theorem on \<^verbatim>\<open>parseCertificates\<close> states with an explicit number of
  rounds that the loop as written ends. The background loops run until their context is done and are
  relations; their theorems hold for runs of any length.

  \<^bold>\<open>Not modelled.\<close> Flag parsing, the HTTP listeners, the redirects of the request multiplexer, the delivery
  of signals, the exposition of the metrics and the JSON format of the log are I/O of libraries. Closing
  a layer's reader after it was read has no effect on what the code computes and is left out. The
  deferred \<^verbatim>\<open>cancel\<close> of a context only releases its timer. A clock reading takes no time by itself: time
  passes in calls to the outside and in waits. Within the step of a handler for one image nothing
  interleaves: what it shares with other goroutines there are counters, whose updates are atomic and
  commute, and the connection pool. Helm charts, Rego policies and scripts are not part of the program.
\<close>

section \<open>A concrete server\<close>

text \<open>
  The default flags, the sample trust roots and cluster authenticators, and a registry with one bundle
  of the public good instance for the image \<^verbatim>\<open>41\<close>. The CA bundle updater is off.
\<close>

definition served_refs :: "(string \<times> string \<times> string list) list" where
  "served_refs = [(''d1'', ''application/vnd.dev.sigstore.bundle.v0.3+json'', [''trusted_root.json,sha256,A''])]"

definition idle_k8s :: "(unit, unit, unit) K8sApi" where
  "idle_k8s = \<lparr>AddToScheme = (\<lambda>t x. (None, t, x)), InClusterConfig = (\<lambda>t x. (Inr (), t, x)),
     NewForConfig = (\<lambda>c t x. (Inr (), t, x))\<rparr>"

definition idle_cluster :: "unit \<Rightarrow> (unit, unit, unit) ClusterApi" where
  "idle_cluster u = \<lparr>k8s_Get = (\<lambda>r ctx n t x. (Inr (), t, x)), k8s_Update = (\<lambda>r ctx u t x. (Inr u, t, x)),
     FromUnstructured = (\<lambda>u. Inl (ErrorString ''not a provider'')), ToUnstructured = (\<lambda>p. Inr ()),
     os_ReadFile = (\<lambda>f t x. (Inr '''', t, x))\<rparr>"

definition no_files :: "unit file_reader" where
  "no_files f t x = (Inr '''', t, x)"

definition started where
  "started ctx R = startup sample_sigstore sample_api no_files ''ghroot'' sample_keychains
     R no_transport sample_x509 idle_k8s idle_cluster (\<lambda>_. True) ctx
     default_flags (initial_vars ''linux'' ''amd64'' no_transport) (start_world ())"

lemma started_server:
  obtains srv vars' w' where "started ctx R = (Inr srv, vars', w')"
    and "srv_provider srv = default_provider sample_sigstore sample_api cver_roots sample_keychains (srv_keychain srv)
      R (\<lambda>_. True) vars'"
    and "MaxAttempts vars' = 3" and "Delay vars' = 0"
proof -
  obtain vars' w1 where c: "configure no_transport default_flags (initial_vars ''linux'' ''amd64'' no_transport)
      (start_world ()) = (None, vars', w1)"
    by (simp add: configure_def configureRegistryPool_def configureBundleFetcher_def default_flags_def
        duration_defs Let_def)
  obtain w2 where V: "CreateVerifier sample_sigstore no_files ''ghroot'' (server_cfg default_flags) w1 =
      (Inr cver_roots, w2)"
    by (simp add: CreateVerifier_def add_default_verifiers_def LoadVerifiers_def PGIVerifier_def GHVerifier_def
        New_def NewMulti_def sample_sigstore_def server_cfg_def verifier_cfg_def default_flags_def flag_list_def
        defaultTR_def DotcomTrustDomain_def cver_roots_def sample_root_def call_def)
  have off: "start_injector X K C sched ctx default_flags w2 = (Inr None, w2)" for X K C sched ctx
    by (simp add: start_injector_def default_flags_def)
  obtain k0 w3 where k0: "NewKeyChainProvider sample_keychains (flag_ns default_flags) [flag_ips default_flags]
      (keychainRefresh default_flags) w2 = (k0, w3)" by force
  obtain kc w4 where kc: "Keychain.Start ctx k0 w3 = (kc, w4)" by force
  obtain srv w' where run: "started ctx R = (Inr srv, vars', w')"
    by (simp add: started_def startup_def c V off k0 kc Let_def)
  have "MaxAttempts vars' = 3" "Delay vars' = 0"
    using configure_valid(2) [OF c] by (simp_all add: in_force_def default_flags_def)
  moreover have "srv_provider srv = default_provider sample_sigstore sample_api cver_roots sample_keychains
      (srv_keychain srv) R (\<lambda>_. True) vars'"
    using run [unfolded started_def] c V by (auto elim!: startup_success)
  ultimately show thesis using that run by blast
qed


text \<open>One request for the image \<^verbatim>\<open>41\<close>, and its answer.\<close>

definition sample_request :: "(unit, string, sample_bundle option) Request" where
  "sample_request = \<lparr>rq_path = ''/'', rq_http = sample_http ''POST'', rq_env = sample_env, rq_Context = Background\<rparr>"

definition sample_item :: "sample_bundle option Item" where
  "sample_item = \<lparr>item_Key = ''41'', item_Value = Some [Some (''trusted_root.json'', ''sha256'', ''A'')], item_Error = ''''\<rparr>"

definition no_update :: "Context \<Rightarrow> unit world \<Rightarrow> go_error option \<times> unit world" where
  "no_update = update sample_x509 (idle_cluster ()) (\<lambda>_. True) ''ca.crt''"

definition quick_Shutdown :: "Context \<Rightarrow> (unit, go_error option) outside" where
  "quick_Shutdown c t x = (None, t, x)"

lemma served_fetch:
  assumes "MaxAttempts vars = 3" and "Delay vars = 0"
  shows "DefaultBundleFetcher_BundleFromName (deployed_remote False served_refs) sched vars ctx name ro w =
   (Ret (\<lparr>Bundles = [(''trusted_root.json'', ''sha256'', ''A'')], Hash = Some (sample_digest name), Attempts = 1,
      Trail = []\<rparr>, None), w)"
  by (simp add: DefaultBundleFetcher_BundleFromName_def BundleFromName_def assms retryBundle_def
      retry_loop.simps iteration_wait_def DoBundleFromName_def fetch_referrer_def is_bundle_def
      bundle_artifact_type_def HasPrefix_def call_def deployed_remote_def served_refs_def sample_digest_def
      cver_decode)

lemma sample_request_served:
  assumes "P = default_provider sample_sigstore sample_api cver_roots sample_keychains k
      (deployed_remote False served_refs) (\<lambda>_. True) vars" and "MaxAttempts vars = 3" "Delay vars = 0"
  obtains rw v' resp where "serve_mux P sample_request v = (Ret rw, v')"
    and "rw_sent rw = [resp]" and "resp_Items resp = [sample_item]"
proof -
  obtain resp v1 where val: "Validate P sample_env Background [''41''] v = (Ret resp, v1)"
    and items: "resp_Items resp = [sample_item]"
    unfolding assms(1)
    by (simp add: Validate_def validate_body_def validate_image_def fetched_def verify_bundles_def
        default_provider_def provider_New_def sample_env_def KeyChain_def call_def served_fetch [OF assms(2,3)]
        cver_verify sample_digest_def error_item_def value_item_def Let_def sample_item_def)
  have http: "req_Method (sample_http ''POST'') = ''POST''" "call (req_Body (sample_http ''POST'')) v = (Inr ''41'', v)"
    "Unmarshal (sample_http ''POST'') ''41'' = Inr [''41'']"
    by (simp_all add: sample_http_def call_def)
  obtain rw v' where send: "sendResponse (sample_http ''POST'') fresh_writer resp v1 = (rw, v')" by force
  from sendResponse_result(1) [OF send] have "rw_sent rw = [resp]" by (simp add: fresh_writer_def)
  moreover have "serve_mux P sample_request v = (Ret rw, v')"
    by (simp add: serve_mux_def sample_request_def validate_def http val send)
  ultimately show thesis using that items by blast
qed

text \<open>The server after it has answered that request.\<close>

lemma system_after_request:
  obtains srv vars' w' s rw resp where "started Background (deployed_remote False served_refs) = (Inr srv, vars', w')"
    and "system_reaches sample_keychains srv no_update quick_Shutdown Background w' s"
    and "(sample_request, Answered rw) \<in> set (sys_requests s)" and "rw_sent rw = [resp]" and "resp_Items resp = [sample_item]"
proof -
  obtain srv vars' w' where run: "started Background (deployed_remote False served_refs) = (Inr srv, vars', w')"
    and p: "srv_provider srv = default_provider sample_sigstore sample_api cver_roots sample_keychains (srv_keychain srv)
      (deployed_remote False served_refs) (\<lambda>_. True) vars'"
    and vars': "MaxAttempts vars' = 3" "Delay vars' = 0"
    by (rule started_server)
  obtain rw v' resp where mux: "serve_mux (current_provider sample_keychains srv (srv_keychain srv)) sample_request w' =
      (Ret rw, v')" and resp: "rw_sent rw = [resp]" "resp_Items resp = [sample_item]"
    using sample_request_served [OF current_default [OF p] vars'] .
  let ?step = "system_step sample_keychains srv no_update quick_Shutdown Background"
  let ?s1 = "(booted srv w')\<lparr>sys_requests := sys_requests (booted srv w') @ [(sample_request, Received)]\<rparr>"
  let ?s2 = "?s1\<lparr>sys_requests := (sys_requests ?s1)[0 := (sample_request, Answered rw)], sys_world := v'\<rparr>"
  have "?step (booted srv w') ?s1"
    by (rule system_step.accepted) (simp_all add: booted_def alive_def run_init_def)
  moreover have "?step\<^sup>*\<^sup>* ?s1 ?s2"
    using handler_runs_system [OF handler_runs_serve [OF mux], of ?s1 0 no_update quick_Shutdown Background]
    by (simp add: booted_def alive_def run_init_def)
  ultimately have "system_reaches sample_keychains srv no_update quick_Shutdown Background w' ?s2"
    by (simp add: system_reaches_def converse_rtranclp_into_rtranclp)
  from that [OF run this _ resp] show thesis by (simp add: booted_def)
qed



theorem system_keychain_good_witness:
  "\<exists>srv vars' w' s kc. started Background (deployed_remote False served_refs) = (Inr srv, vars', w') \<and>
     system_reaches sample_keychains srv no_update quick_Shutdown Background w' s \<and> sys_requests s \<noteq> [] \<and>
     cached (sys_keychain s) = Some (Some kc)"
proof -
  obtain srv vars' w' s rw where run: "started Background (deployed_remote False served_refs) = (Inr srv, vars', w')"
    and s: "system_reaches sample_keychains srv no_update quick_Shutdown Background w' s"
    and rw: "(sample_request, Answered rw) \<in> set (sys_requests s)"
    by (rule system_after_request)
  from rw have "sys_requests s \<noteq> []" by auto
  with run s system_keychain_good [OF run [unfolded started_def] s] show ?thesis by blast
qed



text \<open>A server that gets a signal at time 1000, with one request whose handler has not begun.\<close>

definition signalled :: Context where
  "signalled = \<lparr>done_at = Some (1000, Canceled)\<rparr>"

lemma system_with_pending:
  obtains srv vars' w' s where "started signalled layered_deployment = (Inr srv, vars', w')"
    and "system_reaches sample_keychains srv no_update quick_Shutdown signalled w' s"
    and "alive s" and "\<forall>err. main_st (sys_run s) \<noteq> RunReturned (Some err)"
    and "sys_requests s = [(sample_request, Received)]"
proof -
  obtain srv vars' w' where run: "started signalled layered_deployment = (Inr srv, vars', w')"
    by (rule started_server)
  let ?s1 = "(booted srv w')\<lparr>sys_requests := sys_requests (booted srv w') @ [(sample_request, Received)]\<rparr>"
  have "system_step sample_keychains srv no_update quick_Shutdown signalled (booted srv w') ?s1"
    by (rule system_step.accepted) (simp_all add: booted_def alive_def run_init_def)
  then have "system_reaches sample_keychains srv no_update quick_Shutdown signalled w' ?s1"
    by (simp add: system_reaches_def)
  from that [OF run this] show thesis by (simp add: booted_def alive_def run_init_def)
qed

lemma quick_Shutdown_ok: "\<forall>c u x. fst (quick_Shutdown c u x) = None"
  by (simp add: quick_Shutdown_def)



end
